theory Spec2Isabelle
  imports Complex_Main "HOL-Library.Multiset" "HOL-Library.Log_Nat"
begin

section \<open>The SmartPOS accounting service\<close>

text \<open>
  A shallow embedding of \<^verbatim>\<open>server/accounting.ts\<close> (class \<^verbatim>\<open>AccountingService\<close>), of the
  accounting tables of the shared schema and of \<^verbatim>\<open>migrations/0000_initial_schema.sql\<close>, and
  of the two accounting routes that add checks of their own.

  Conventions of the model:
  \<^item> A JavaScript number is a value of \<open>number\<close>: \<open>NaN\<close>, an infinity, or the rational value
    of a finite IEEE 754 double. Every literal, every \<^verbatim>\<open>parseFloat\<close> and every sum or difference
    is rounded to the nearest double, ties to even (\<open>fl\<close>); 0.01 is \<open>fl (1 / 100)\<close>. The sign of
    a zero is not kept: no operation of the service tells the two zeros apart.
  \<^item> A \<^verbatim>\<open>decimal(15, 2)\<close> column holds a value of \<open>decimal\<close>: an exact rational with two
    decimal places, or the store's \<^verbatim>\<open>NaN\<close>.
  \<^item> The tables are lists of rows in insertion order; a \<^verbatim>\<open>serial\<close> column draws from a
    counter kept in the store.
  \<^item> A thrown exception is the left summand of the result; every operation returns the
    store it leaves behind.
  \<^item> Record fields carry a prefix (\<open>a_\<close>, \<open>je_\<close>, \<open>le_\<close>, \<open>ia_\<close>, \<open>el_\<close>, \<open>in_\<close>) since the
    tables share column names.
\<close>

subsection \<open>JavaScript numbers\<close>

datatype number = NaN | Num rat | PosInf | NegInf

text \<open>The integer nearest to \<open>x\<close>; of two equally near, the even one.\<close>

definition rne :: "rat \<Rightarrow> int" where
  "rne x =
     (let f = \<lfloor>x\<rfloor>; d = x - of_int f in
      if d < 1 / 2 then f else if 1 / 2 < d then f + 1 else if even f then f else f + 1)"

text \<open>The binary exponent of a positive rational \<open>a\<close>: \<open>2 powi expo a \<le> a < 2 powi (expo a + 1)\<close>.\<close>

definition expo :: "rat \<Rightarrow> int" where
  "expo a =
     (let (p, q) = quotient_of a; k = bitlen p - bitlen q in
      if a < 2 powi k then k - 1 else k)"

text \<open>
  Rounding of a real value to binary64: 53 significant bits at the exponent of the value,
  the least exponent being -1022 (below it the spacing stays \<open>2 powi (- 1074)\<close>); a value
  that rounds to \<open>2 powi 1024\<close> or beyond is an infinity.
\<close>

definition fl :: "rat \<Rightarrow> number" where
  "fl x =
     (if x = 0 then Num 0
      else
        (let a = \<bar>x\<bar>; e = max (expo a) (- 1022) in
         if 1023 < e then (if 0 < x then PosInf else NegInf)
         else
           (let q = 2 powi (e - 52); m = rne (a / q) in
            if e = 1023 \<and> m = 2 ^ 53 then (if 0 < x then PosInf else NegInf)
            else Num (sgn x * of_int m * q))))"

fun num_add :: "number \<Rightarrow> number \<Rightarrow> number" where
  "num_add NaN _ = NaN"
| "num_add _ NaN = NaN"
| "num_add (Num a) (Num b) = fl (a + b)"
| "num_add (Num _) PosInf = PosInf"
| "num_add (Num _) NegInf = NegInf"
| "num_add PosInf (Num _) = PosInf"
| "num_add NegInf (Num _) = NegInf"
| "num_add PosInf PosInf = PosInf"
| "num_add NegInf NegInf = NegInf"
| "num_add PosInf NegInf = NaN"
| "num_add NegInf PosInf = NaN"

fun num_neg :: "number \<Rightarrow> number" where
  "num_neg NaN = NaN"
| "num_neg (Num a) = Num (- a)"
| "num_neg PosInf = NegInf"
| "num_neg NegInf = PosInf"

definition num_sub :: "number \<Rightarrow> number \<Rightarrow> number" where
  "num_sub a b = num_add a (num_neg b)"

fun num_abs :: "number \<Rightarrow> number" where
  "num_abs NaN = NaN"
| "num_abs (Num a) = Num \<bar>a\<bar>"
| "num_abs PosInf = PosInf"
| "num_abs NegInf = PosInf"

text \<open>\<^verbatim>\<open>a > b\<close>: false as soon as one side is \<open>NaN\<close>.\<close>

fun num_gt :: "number \<Rightarrow> number \<Rightarrow> bool" where
  "num_gt NaN _ = False"
| "num_gt _ NaN = False"
| "num_gt (Num a) (Num b) = (a > b)"
| "num_gt PosInf PosInf = False"
| "num_gt PosInf _ = True"
| "num_gt NegInf _ = False"
| "num_gt (Num _) PosInf = False"
| "num_gt (Num _) NegInf = True"

text \<open>\<^verbatim>\<open>a >= b\<close>.\<close>

fun num_ge :: "number \<Rightarrow> number \<Rightarrow> bool" where
  "num_ge NaN _ = False"
| "num_ge _ NaN = False"
| "num_ge (Num a) (Num b) = (a \<ge> b)"
| "num_ge PosInf _ = True"
| "num_ge NegInf NegInf = True"
| "num_ge NegInf _ = False"
| "num_ge (Num _) PosInf = False"
| "num_ge (Num _) NegInf = True"

subsection \<open>Strings: digits, \<^verbatim>\<open>parseFloat\<close>, \<^verbatim>\<open>parseInt\<close>, \<^verbatim>\<open>String\<close>, \<^verbatim>\<open>padStart\<close>, \<^verbatim>\<open>split\<close>\<close>

definition isDigit :: "char \<Rightarrow> bool" where
  "isDigit c = (48 \<le> (of_char c :: nat) \<and> (of_char c :: nat) \<le> 57)"

definition digitVal :: "char \<Rightarrow> nat" where
  "digitVal c = of_char c - 48"

definition digitsVal :: "string \<Rightarrow> int" where
  "digitsVal ds = foldl (\<lambda>acc c. 10 * acc + int (digitVal c)) 0 ds"

text \<open>White space that \<^verbatim>\<open>parseFloat\<close> and \<^verbatim>\<open>parseInt\<close> skip, among the code units below 256.\<close>

definition jsSpace :: "char \<Rightarrow> bool" where
  "jsSpace c = ((of_char c :: nat) \<in> {9, 10, 11, 12, 13, 32, 160})"

text \<open>White space of the store's numeric input (C \<^verbatim>\<open>isspace\<close>).\<close>

definition pgSpace :: "char \<Rightarrow> bool" where
  "pgSpace c = ((of_char c :: nat) \<in> {9, 10, 11, 12, 13, 32})"

text \<open>An optional sign: the factor and the rest.\<close>

definition scanSign :: "string \<Rightarrow> int \<times> string" where
  "scanSign s =
     (case s of
        c # r \<Rightarrow> if c = CHR ''+'' then (1, r) else if c = CHR ''-'' then (- 1, r) else (1, s)
      | [] \<Rightarrow> (1, s))"

text \<open>
  \<^verbatim>\<open>DecimalDigits . DecimalDigits?\<close>, \<^verbatim>\<open>. DecimalDigits\<close> or \<^verbatim>\<open>DecimalDigits\<close>: the value of the
  longest such prefix and the rest, or nothing when there is no digit.
\<close>

definition scanMantissa :: "string \<Rightarrow> (rat \<times> string) option" where
  "scanMantissa s =
     (let ip = takeWhile isDigit s; r1 = dropWhile isDigit s in
      case r1 of
        c # r2 \<Rightarrow>
          if c = CHR ''.'' then
            (let fp = takeWhile isDigit r2; r3 = dropWhile isDigit r2 in
             if ip = [] \<and> fp = [] then None
             else Some (of_int (digitsVal ip) + of_int (digitsVal fp) / 10 ^ length fp, r3))
          else if ip = [] then None else Some (of_int (digitsVal ip), r1)
      | [] \<Rightarrow> if ip = [] then None else Some (of_int (digitsVal ip), r1))"

text \<open>
  An optional exponent part \<^verbatim>\<open>[eE][+-]?DecimalDigits\<close>: the exponent and the rest; an
  incomplete exponent part is left unread.
\<close>

definition scanExponent :: "string \<Rightarrow> int \<times> string" where
  "scanExponent s =
     (case s of
        c # r \<Rightarrow>
          if c = CHR ''e'' \<or> c = CHR ''E'' then
            (let (sg, r') = scanSign r; ds = takeWhile isDigit r' in
             if ds = [] then (0, s) else (sg * digitsVal ds, dropWhile isDigit r'))
          else (0, s)
      | [] \<Rightarrow> (0, s))"

definition scale10 :: "rat \<Rightarrow> int \<Rightarrow> rat" where
  "scale10 m e = (if 0 \<le> e then m * 10 ^ nat e else m / 10 ^ nat (- e))"

text \<open>A signed decimal literal at the start of the string: its value and the rest.\<close>

definition scanDecimal :: "string \<Rightarrow> (rat \<times> string) option" where
  "scanDecimal s =
     (let (sg, r) = scanSign s in
      case scanMantissa r of
        None \<Rightarrow> None
      | Some (m, r1) \<Rightarrow>
          (let (e, r2) = scanExponent r1 in Some (of_int sg * scale10 m e, r2)))"

text \<open>
  \<^verbatim>\<open>parseFloat(s)\<close>: leading white space is dropped, the longest prefix that is a decimal
  literal is read, whatever follows is ignored; \<open>NaN\<close> when there is no such prefix. The
  result is the double nearest to the value of the literal.
\<close>

definition parseFloat :: "string \<Rightarrow> number" where
  "parseFloat s =
     (let t = dropWhile jsSpace s; (sg, r) = scanSign t in
      if take 8 r = ''Infinity'' then (if sg = 1 then PosInf else NegInf)
      else (case scanDecimal t of None \<Rightarrow> NaN | Some (v, _) \<Rightarrow> fl v))"

definition isHexDigit :: "char \<Rightarrow> bool" where
  "isHexDigit c =
     (isDigit c \<or> (97 \<le> (of_char c :: nat) \<and> (of_char c :: nat) \<le> 102)
               \<or> (65 \<le> (of_char c :: nat) \<and> (of_char c :: nat) \<le> 70))"

definition hexDigitVal :: "char \<Rightarrow> nat" where
  "hexDigitVal c =
     (if isDigit c then of_char c - 48
      else if 97 \<le> (of_char c :: nat) then of_char c - 87 else of_char c - 55)"

definition hexDigitsVal :: "string \<Rightarrow> nat" where
  "hexDigitsVal ds = foldl (\<lambda>acc c. 16 * acc + hexDigitVal c) 0 ds"

text \<open>
  \<^verbatim>\<open>parseInt(s)\<close> with no radix: white space, a sign, then hexadecimal digits after
  \<^verbatim>\<open>0x\<close>/\<^verbatim>\<open>0X\<close> and decimal digits otherwise; \<open>None\<close> is \<open>NaN\<close>.
\<close>

definition parseInt :: "string \<Rightarrow> int option" where
  "parseInt s =
     (let (sg, r) = scanSign (dropWhile jsSpace s) in
      if take 2 r = ''0x'' \<or> take 2 r = ''0X'' then
        (let ds = takeWhile isHexDigit (drop 2 r) in
         if ds = [] then None else Some (sg * int (hexDigitsVal ds)))
      else
        (let ds = takeWhile isDigit r in
         if ds = [] then None else Some (sg * digitsVal ds)))"

definition digitChar :: "nat \<Rightarrow> char" where
  "digitChar d = char_of (48 + d)"

fun showNat :: "nat \<Rightarrow> string" where
  "showNat n = (if n < 10 then [digitChar n] else showNat (n div 10) @ [digitChar (n mod 10)])"

declare showNat.simps [simp del]

text \<open>\<^verbatim>\<open>String(n)\<close> of an integral number.\<close>

definition showInt :: "int \<Rightarrow> string" where
  "showInt i = (if i < 0 then CHR ''-'' # showNat (nat (- i)) else showNat (nat i))"

text \<open>\<^verbatim>\<open>s.padStart(n, c)\<close> for a one-character filler.\<close>

definition padStart :: "nat \<Rightarrow> char \<Rightarrow> string \<Rightarrow> string" where
  "padStart n c s = replicate (n - length s) c @ s"

text \<open>\<^verbatim>\<open>s.split(c)\<close> for a one-character separator: never the empty array.\<close>

fun split :: "char \<Rightarrow> string \<Rightarrow> string list" where
  "split c [] = [[]]"
| "split c (x # xs) =
     (if x = c then [] # split c xs
      else (case split c xs of w # ws \<Rightarrow> (x # w) # ws | [] \<Rightarrow> [[x]]))"

text \<open>\<^verbatim>\<open>xs[i]\<close>: \<open>None\<close> is \<^verbatim>\<open>undefined\<close>.\<close>

definition index :: "'a list \<Rightarrow> nat \<Rightarrow> 'a option" where
  "index xs i = (if i < length xs then Some (xs ! i) else None)"

subsection \<open>Rows of the accounting tables\<close>

type_synonym timestamp = int

record Account =
  a_id :: int
  a_code :: string
  a_name :: string
  a_type :: string
  a_subtype :: "string option"
  a_normalBalance :: string
  a_description :: "string option"
  a_isActive :: bool
  a_isSystem :: bool
  a_parentAccountId :: "int option"
  a_createdAt :: timestamp

text \<open>\<^verbatim>\<open>InsertAccount\<close>: a column with a default may be left out (\<open>None\<close>).\<close>

record InsertAccount =
  ia_code :: string
  ia_name :: string
  ia_type :: string
  ia_subtype :: "string option"
  ia_normalBalance :: string
  ia_description :: "string option"
  ia_isActive :: "bool option"
  ia_isSystem :: "bool option"
  ia_parentAccountId :: "int option"

record JournalEntry =
  je_id :: int
  je_entryNumber :: string
  je_entryDate :: timestamp
  je_description :: string
  je_referenceType :: "string option"
  je_referenceId :: "int option"
  je_userId :: int
  je_status :: string
  je_notes :: "string option"
  je_createdAt :: timestamp
  je_updatedAt :: timestamp

text \<open>The values \<^verbatim>\<open>createJournalEntry\<close> hands to the insert of the header.\<close>

record InsertJournalEntry =
  ij_entryNumber :: string
  ij_description :: string
  ij_entryDate :: timestamp
  ij_referenceType :: "string option"
  ij_referenceId :: "int option"
  ij_userId :: int
  ij_notes :: "string option"
  ij_status :: string

text \<open>A value of a \<^verbatim>\<open>decimal(15, 2)\<close> column: a number, or the \<^verbatim>\<open>NaN\<close> of the store's numeric type.\<close>

datatype decimal = Dec rat | DecNaN

record LedgerEntry =
  le_id :: int
  le_journalEntryId :: int
  le_accountId :: int
  le_debit :: decimal
  le_credit :: decimal
  le_description :: "string option"
  le_createdAt :: timestamp

text \<open>The values of one line insert: the amounts are still the caller's strings.\<close>

record InsertLedgerEntry =
  il_journalEntryId :: int
  il_accountId :: int
  il_debit :: string
  il_credit :: string
  il_description :: "string option"

text \<open>One element of \<^verbatim>\<open>JournalEntryInput.entries\<close>.\<close>

record EntryLine =
  el_accountId :: int
  el_debit :: string
  el_credit :: string
  el_description :: "string option"

record JournalEntryInput =
  in_description :: string
  in_entryDate :: "timestamp option"
  in_referenceType :: "string option"
  in_referenceId :: "int option"
  in_userId :: int
  in_notes :: "string option"
  in_entries :: "EntryLine list"

subsection \<open>The store\<close>

text \<open>
  The three accounting tables, the ids of the rows of \<^verbatim>\<open>users\<close> (the target of a foreign
  key), and the last value of each \<^verbatim>\<open>serial\<close> counter. The unique constraints on
  \<^verbatim>\<open>accounts.code\<close> and \<^verbatim>\<open>journal_entries.entry_number\<close> are part of the table definitions
  and are always enforced. \<open>constraints\<close> tells whether the store was set up from
  \<^verbatim>\<open>migrations/0000_initial_schema.sql\<close>, which adds the foreign keys and the constraint
  \<^verbatim>\<open>chk_ledger_entries_debit_credit\<close>; no operation changes it.
\<close>

record store =
  accounts :: "Account list"
  journalEntries :: "JournalEntry list"
  ledgerEntries :: "LedgerEntry list"
  users :: "int list"
  accountsSeq :: int
  journalSeq :: int
  ledgerSeq :: int
  constraints :: bool

datatype dbError =
    UniqueViolation string
  | ForeignKeyViolation string
  | CheckViolation string
  | InvalidNumeric string
  | NumericOverflow

text \<open>Rounding to two places, half away from zero, as the store does on input.\<close>

definition round2 :: "rat \<Rightarrow> rat" where
  "round2 v =
     (if 0 \<le> v then of_int \<lfloor>v * 100 + 1 / 2\<rfloor> / 100
      else - (of_int \<lfloor>- v * 100 + 1 / 2\<rfloor> / 100))"

text \<open>The spelling of \<^verbatim>\<open>NaN\<close>, in any case, at the start of the text: what follows it.\<close>

definition scanNaN :: "string \<Rightarrow> string option" where
  "scanNaN t =
     (case t of
        a # b # c # rest \<Rightarrow>
          if (a = CHR ''n'' \<or> a = CHR ''N'') \<and> (b = CHR ''a'' \<or> b = CHR ''A'')
             \<and> (c = CHR ''n'' \<or> c = CHR ''N'')
          then Some rest else None
      | _ \<Rightarrow> None)"

text \<open>
  Input of a \<^verbatim>\<open>decimal(15, 2)\<close> value from text, between optional white space: the spelling
  of \<^verbatim>\<open>NaN\<close>, which the column accepts, or a decimal literal, whose value is rounded to two
  places and must have at most 13 digits before the point. The spelling of an infinity is
  refused, as a column with a precision cannot hold one; so are digit separators and
  integers in another base, which only later versions of the store read.
\<close>

definition toDecimal :: "string \<Rightarrow> dbError + decimal" where
  "toDecimal s =
     (case scanNaN (dropWhile pgSpace s) of
        Some rest \<Rightarrow> if dropWhile pgSpace rest \<noteq> [] then Inl (InvalidNumeric s) else Inr DecNaN
      | None \<Rightarrow>
     (case scanDecimal (dropWhile pgSpace s) of
        None \<Rightarrow> Inl (InvalidNumeric s)
      | Some (v, rest) \<Rightarrow>
          if dropWhile pgSpace rest \<noteq> [] then Inl (InvalidNumeric s)
          else if 10 ^ 13 \<le> \<bar>round2 v\<bar> then Inl NumericOverflow
          else Inr (Dec (round2 v))))"

text \<open>
  Comparison with zero as the store's numeric type has it: \<^verbatim>\<open>NaN\<close> is greater than every
  number and equal to itself only.
\<close>

fun dec_pos :: "decimal \<Rightarrow> bool" where
  "dec_pos (Dec v) = (v > 0)"
| "dec_pos DecNaN = True"

fun dec_zero :: "decimal \<Rightarrow> bool" where
  "dec_zero (Dec v) = (v = 0)"
| "dec_zero DecNaN = False"

fun dec_add :: "decimal \<Rightarrow> decimal \<Rightarrow> decimal" where
  "dec_add (Dec a) (Dec b) = Dec (a + b)"
| "dec_add _ _ = DecNaN"

text \<open>\<^verbatim>\<open>COALESCE(SUM(column), 0)\<close>: the exact sum; \<^verbatim>\<open>NaN\<close> as soon as one row holds it.\<close>

definition dec_sum :: "decimal list \<Rightarrow> decimal" where
  "dec_sum ds = foldl dec_add (Dec 0) ds"

text \<open>
  \<^verbatim>\<open>parseFloat\<close> of the text the driver returns for a numeric value: the double nearest to
  the value.
\<close>

fun number_of_decimal :: "decimal \<Rightarrow> number" where
  "number_of_decimal (Dec v) = fl v"
| "number_of_decimal DecNaN = NaN"

text \<open>
  \<^verbatim>\<open>db.insert(accounts).values(v).returning()\<close>. The counter is drawn before the constraints
  are checked, so a refused row uses up an id.
\<close>

definition insertAccount :: "timestamp \<Rightarrow> InsertAccount \<Rightarrow> store \<Rightarrow> (dbError + Account) \<times> store" where
  "insertAccount now v s =
     (let i = accountsSeq s + 1; s1 = s\<lparr>accountsSeq := i\<rparr> in
      if i \<in> set (map a_id (accounts s)) then (Inl (UniqueViolation ''accounts_pkey''), s1)
      else if ia_code v \<in> set (map a_code (accounts s)) then
        (Inl (UniqueViolation ''accounts_code_unique''), s1)
      else if constraints s \<and>
              (case ia_parentAccountId v of
                 None \<Rightarrow> False
               | Some p \<Rightarrow> p \<noteq> i \<and> p \<notin> set (map a_id (accounts s))) then
        (Inl (ForeignKeyViolation ''fk_accounts_parent''), s1)
      else
        (let a = \<lparr>a_id = i, a_code = ia_code v, a_name = ia_name v, a_type = ia_type v,
                  a_subtype = ia_subtype v, a_normalBalance = ia_normalBalance v,
                  a_description = ia_description v,
                  a_isActive = (case ia_isActive v of None \<Rightarrow> True | Some b \<Rightarrow> b),
                  a_isSystem = (case ia_isSystem v of None \<Rightarrow> False | Some b \<Rightarrow> b),
                  a_parentAccountId = ia_parentAccountId v, a_createdAt = now\<rparr>
         in (Inr a, s1\<lparr>accounts := accounts s @ [a]\<rparr>)))"

text \<open>\<^verbatim>\<open>db.insert(journalEntries).values(v).returning()\<close>.\<close>

definition insertJournalEntry ::
  "timestamp \<Rightarrow> InsertJournalEntry \<Rightarrow> store \<Rightarrow> (dbError + JournalEntry) \<times> store" where
  "insertJournalEntry now v s =
     (let i = journalSeq s + 1; s1 = s\<lparr>journalSeq := i\<rparr> in
      if i \<in> set (map je_id (journalEntries s)) then
        (Inl (UniqueViolation ''journal_entries_pkey''), s1)
      else if ij_entryNumber v \<in> set (map je_entryNumber (journalEntries s)) then
        (Inl (UniqueViolation ''journal_entries_entry_number_unique''), s1)
      else if constraints s \<and> ij_userId v \<notin> set (users s) then
        (Inl (ForeignKeyViolation ''fk_journal_entries_user''), s1)
      else
        (let e = \<lparr>je_id = i, je_entryNumber = ij_entryNumber v, je_entryDate = ij_entryDate v,
                  je_description = ij_description v, je_referenceType = ij_referenceType v,
                  je_referenceId = ij_referenceId v, je_userId = ij_userId v,
                  je_status = ij_status v, je_notes = ij_notes v,
                  je_createdAt = now, je_updatedAt = now\<rparr>
         in (Inr e, s1\<lparr>journalEntries := journalEntries s @ [e]\<rparr>)))"

text \<open>
  \<^verbatim>\<open>db.insert(ledgerEntries).values(v)\<close>. The amounts are converted first; with the
  migration's constraints the row must be one-sided and must reference an existing
  journal entry and an existing account.
\<close>

definition insertLedgerEntry ::
  "timestamp \<Rightarrow> InsertLedgerEntry \<Rightarrow> store \<Rightarrow> (dbError + LedgerEntry) \<times> store" where
  "insertLedgerEntry now v s =
     (case toDecimal (il_debit v) of
        Inl e \<Rightarrow> (Inl e, s)
      | Inr d \<Rightarrow>
     (case toDecimal (il_credit v) of
        Inl e \<Rightarrow> (Inl e, s)
      | Inr c \<Rightarrow>
     (let i = ledgerSeq s + 1; s1 = s\<lparr>ledgerSeq := i\<rparr> in
      if constraints s \<and> \<not> ((dec_pos d \<and> dec_zero c) \<or> (dec_pos c \<and> dec_zero d)) then
        (Inl (CheckViolation ''chk_ledger_entries_debit_credit''), s1)
      else if i \<in> set (map le_id (ledgerEntries s)) then
        (Inl (UniqueViolation ''ledger_entries_pkey''), s1)
      else if constraints s \<and> il_journalEntryId v \<notin> set (map je_id (journalEntries s)) then
        (Inl (ForeignKeyViolation ''fk_ledger_entries_journal''), s1)
      else if constraints s \<and> il_accountId v \<notin> set (map a_id (accounts s)) then
        (Inl (ForeignKeyViolation ''fk_ledger_entries_account''), s1)
      else
        (let l = \<lparr>le_id = i, le_journalEntryId = il_journalEntryId v,
                  le_accountId = il_accountId v, le_debit = d, le_credit = c,
                  le_description = il_description v, le_createdAt = now\<rparr>
         in (Inr l, s1\<lparr>ledgerEntries := ledgerEntries s @ [l]\<rparr>)))))"

subsection \<open>What the store accepts\<close>

text \<open>
  The conditions of the inserts above, for the statements below. A header is accepted
  when the next id of the journal is free, the entry number is unused and, with the
  migration's constraints, the user exists. A line is accepted when both amounts convert
  and, with the migration's constraints, the row is one-sided and its account exists; the
  primary key and the reference to the header do not fail for a line that follows its
  header in a ledger whose counter is not behind the ids in use.
\<close>

definition headerAccepted :: "store \<Rightarrow> string \<Rightarrow> int \<Rightarrow> bool" where
  "headerAccepted s entryNumber userId =
     (journalSeq s + 1 \<notin> set (map je_id (journalEntries s))
      \<and> entryNumber \<notin> set (map je_entryNumber (journalEntries s))
      \<and> (constraints s \<longrightarrow> userId \<in> set (users s)))"

definition lineAccepted :: "store \<Rightarrow> EntryLine \<Rightarrow> bool" where
  "lineAccepted s e =
     (case (toDecimal (el_debit e), toDecimal (el_credit e)) of
        (Inr d, Inr c) \<Rightarrow>
          constraints s \<longrightarrow>
            ((dec_pos d \<and> dec_zero c) \<or> (dec_pos c \<and> dec_zero d))
            \<and> el_accountId e \<in> set (map a_id (accounts s))
      | _ \<Rightarrow> False)"

subsection \<open>\<^verbatim>\<open>AccountingService\<close>: the chart of accounts\<close>

datatype error =
    NotBalanced number number
      \<comment> \<open>\<^verbatim>\<open>Journal entry not balanced. Debits: ..., Credits: ...\<close>\<close>
  | RequiredAccountsNotFound
      \<comment> \<open>\<^verbatim>\<open>Required accounts not found in chart of accounts\<close>\<close>
  | DbError dbError
      \<comment> \<open>an exception of the store, passed on unchanged\<close>

definition createAccount :: "timestamp \<Rightarrow> InsertAccount \<Rightarrow> store \<Rightarrow> (error + Account) \<times> store" where
  "createAccount now insertAccount_v s =
     (case insertAccount now insertAccount_v s of
        (Inl e, s1) \<Rightarrow> (Inl (DbError e), s1)
      | (Inr account, s1) \<Rightarrow> (Inr account, s1))"

text \<open>\<^verbatim>\<open>const [account] = await db.select()...where(eq(...))\<close>: the first matching row.\<close>

definition getAccount :: "store \<Rightarrow> int \<Rightarrow> Account option" where
  "getAccount s i = find (\<lambda>a. a_id a = i) (accounts s)"

definition getAccountByCode :: "store \<Rightarrow> string \<Rightarrow> Account option" where
  "getAccountByCode s code = find (\<lambda>a. a_code a = code) (accounts s)"

definition getAllAccounts :: "store \<Rightarrow> Account list" where
  "getAllAccounts s = filter (\<lambda>a. a_isActive a = True) (accounts s)"

definition mkAccount ::
  "string \<Rightarrow> string \<Rightarrow> string \<Rightarrow> string option \<Rightarrow> string \<Rightarrow> string \<Rightarrow> bool \<Rightarrow> InsertAccount" where
  "mkAccount code name type subtype normalBalance description isSystem =
     \<lparr>ia_code = code, ia_name = name, ia_type = type, ia_subtype = subtype,
      ia_normalBalance = normalBalance, ia_description = Some description,
      ia_isActive = None, ia_isSystem = Some isSystem, ia_parentAccountId = None\<rparr>"

definition defaultAccounts :: "InsertAccount list" where
  "defaultAccounts =
     [mkAccount ''1000'' ''Cash'' ''asset'' (Some ''current_asset'') ''debit''
        ''Cash on hand and in bank'' True,
      mkAccount ''1100'' ''Accounts Receivable'' ''asset'' (Some ''current_asset'') ''debit''
        ''Money owed by customers'' True,
      mkAccount ''1200'' ''Inventory'' ''asset'' (Some ''current_asset'') ''debit''
        ''Products available for sale'' True,
      mkAccount ''1500'' ''Equipment'' ''asset'' (Some ''fixed_asset'') ''debit''
        ''Store equipment and fixtures'' True,
      mkAccount ''2000'' ''Accounts Payable'' ''liability'' (Some ''current_liability'') ''credit''
        ''Money owed to suppliers'' True,
      mkAccount ''2100'' ''Sales Tax Payable'' ''liability'' (Some ''current_liability'') ''credit''
        ''VAT/Tax collected from sales'' True,
      mkAccount ''3000'' (''Owner'' @ [char_of (39 :: nat)] @ ''s Capital'') ''equity'' None ''credit''
        (''Owner'' @ [char_of (39 :: nat)] @ ''s investment in business'') True,
      mkAccount ''3100'' ''Retained Earnings'' ''equity'' None ''credit''
        ''Accumulated profits'' True,
      mkAccount ''4000'' ''Sales Revenue'' ''revenue'' None ''credit''
        ''Revenue from product sales'' True,
      mkAccount ''4100'' ''Other Income'' ''revenue'' None ''credit''
        ''Miscellaneous income'' False,
      mkAccount ''5000'' ''Cost of Goods Sold'' ''expense'' (Some ''cogs'') ''debit''
        ''Direct cost of products sold'' True,
      mkAccount ''6000'' ''Rent Expense'' ''expense'' (Some ''operating_expense'') ''debit''
        ''Store rent'' False,
      mkAccount ''6100'' ''Utilities Expense'' ''expense'' (Some ''operating_expense'') ''debit''
        ''Electricity, water, internet'' False,
      mkAccount ''6200'' ''Salaries Expense'' ''expense'' (Some ''operating_expense'') ''debit''
        ''Employee wages'' False,
      mkAccount ''6300'' ''Marketing Expense'' ''expense'' (Some ''operating_expense'') ''debit''
        ''Advertising and promotions'' False,
      mkAccount ''6400'' ''Supplies Expense'' ''expense'' (Some ''operating_expense'') ''debit''
        ''Office and store supplies'' False,
      mkAccount ''6500'' ''Depreciation Expense'' ''expense'' (Some ''operating_expense'') ''debit''
        ''Asset depreciation'' False]"

text \<open>\<^verbatim>\<open>for (const account of defaultAccounts) await this.createAccount(account)\<close>: the first
  exception ends the loop.\<close>

fun createAccounts :: "timestamp \<Rightarrow> InsertAccount list \<Rightarrow> store \<Rightarrow> (error + unit) \<times> store" where
  "createAccounts now [] s = (Inr (), s)"
| "createAccounts now (account # rest) s =
     (case createAccount now account s of
        (Inl e, s1) \<Rightarrow> (Inl e, s1)
      | (Inr _, s1) \<Rightarrow> createAccounts now rest s1)"

definition initializeChartOfAccounts :: "timestamp \<Rightarrow> store \<Rightarrow> (error + unit) \<times> store" where
  "initializeChartOfAccounts now s =
     (let existingAccounts = getAllAccounts s in
      if length existingAccounts > 0 then (Inr (), s)
      else createAccounts now defaultAccounts s)"

subsection \<open>\<^verbatim>\<open>AccountingService\<close>: posting\<close>

text \<open>\<^verbatim>\<open>orderBy(desc(journalEntries.id)).limit(1)\<close>: the row with the greatest id.\<close>

fun lastEntry :: "JournalEntry list \<Rightarrow> JournalEntry option" where
  "lastEntry [] = None"
| "lastEntry (e # es) =
     (case lastEntry es of
        None \<Rightarrow> Some e
      | Some m \<Rightarrow> if je_id e < je_id m then Some m else Some e)"

text \<open>\<^verbatim>\<open>parseInt(entryNumber.split("-")[1] || "0")\<close>: a missing or empty second part is falsy.\<close>

definition lastNumberOf :: "string \<Rightarrow> int option" where
  "lastNumberOf entryNumber =
     parseInt (case index (split CHR ''-'' entryNumber) 1 of
                 None \<Rightarrow> ''0''
               | Some p \<Rightarrow> if p = [] then ''0'' else p)"

text \<open>\<^verbatim>\<open>String(NaN + 1)\<close> is \<^verbatim>\<open>NaN\<close>.\<close>

definition generateEntryNumber :: "store \<Rightarrow> string" where
  "generateEntryNumber s =
     (case lastEntry (journalEntries s) of
        None \<Rightarrow> ''JE-0001''
      | Some lastEntry_v \<Rightarrow>
          (let lastNumber = lastNumberOf (je_entryNumber lastEntry_v)
           in ''JE-'' @ padStart 4 CHR ''0''
                (case lastNumber of None \<Rightarrow> ''NaN'' | Some n \<Rightarrow> showInt (n + 1))))"

definition totalDebits :: "EntryLine list \<Rightarrow> number" where
  "totalDebits entries = foldl (\<lambda>sum entry. num_add sum (parseFloat (el_debit entry))) (Num 0) entries"

definition totalCredits :: "EntryLine list \<Rightarrow> number" where
  "totalCredits entries = foldl (\<lambda>sum entry. num_add sum (parseFloat (el_credit entry))) (Num 0) entries"

text \<open>\<^verbatim>\<open>entry.description || input.description\<close>: an absent or empty description is falsy.\<close>

definition lineValues :: "JournalEntry \<Rightarrow> JournalEntryInput \<Rightarrow> EntryLine \<Rightarrow> InsertLedgerEntry" where
  "lineValues journalEntry input entry =
     \<lparr>il_journalEntryId = je_id journalEntry, il_accountId = el_accountId entry,
      il_debit = el_debit entry, il_credit = el_credit entry,
      il_description =
        Some (case el_description entry of
                None \<Rightarrow> in_description input
              | Some d \<Rightarrow> if d = [] then in_description input else d)\<rparr>"

text \<open>The loop over \<^verbatim>\<open>input.entries\<close>: one insert per line, ended by the first exception.\<close>

fun insertLines ::
  "timestamp \<Rightarrow> JournalEntry \<Rightarrow> JournalEntryInput \<Rightarrow> EntryLine list \<Rightarrow> store \<Rightarrow> (error + unit) \<times> store" where
  "insertLines now journalEntry input [] s = (Inr (), s)"
| "insertLines now journalEntry input (entry # rest) s =
     (case insertLedgerEntry now (lineValues journalEntry input entry) s of
        (Inl e, s1) \<Rightarrow> (Inl (DbError e), s1)
      | (Inr _, s1) \<Rightarrow> insertLines now journalEntry input rest s1)"

text \<open>
  \<^verbatim>\<open>createJournalEntry(input)\<close>; \<open>now\<close> is the clock, read for a missing entry date and for
  the \<^verbatim>\<open>created_at\<close>/\<^verbatim>\<open>updated_at\<close> defaults.
\<close>

definition createJournalEntry ::
  "timestamp \<Rightarrow> JournalEntryInput \<Rightarrow> store \<Rightarrow> (error + JournalEntry) \<times> store" where
  "createJournalEntry now input s =
     (let totalDebits_v = totalDebits (in_entries input);
          totalCredits_v = totalCredits (in_entries input)
      in
      if num_gt (num_abs (num_sub totalDebits_v totalCredits_v)) (fl (1 / 100)) then
        (Inl (NotBalanced totalDebits_v totalCredits_v), s)
      else
        (let entryNumber = generateEntryNumber s in
         case insertJournalEntry now
                \<lparr>ij_entryNumber = entryNumber, ij_description = in_description input,
                 ij_entryDate = (case in_entryDate input of None \<Rightarrow> now | Some d \<Rightarrow> d),
                 ij_referenceType = in_referenceType input,
                 ij_referenceId = in_referenceId input, ij_userId = in_userId input,
                 ij_notes = in_notes input, ij_status = ''posted''\<rparr> s of
           (Inl e, s1) \<Rightarrow> (Inl (DbError e), s1)
         | (Inr journalEntry, s1) \<Rightarrow>
             (case insertLines now journalEntry input (in_entries input) s1 of
                (Inl e, s2) \<Rightarrow> (Inl e, s2)
              | (Inr _, s2) \<Rightarrow> (Inr journalEntry, s2))))"

text \<open>\<^verbatim>\<open>update(journalEntries).set({ status: "void" }).where(eq(id)).returning()\<close>.\<close>

definition voidJournalEntry :: "int \<Rightarrow> store \<Rightarrow> JournalEntry option \<times> store" where
  "voidJournalEntry i s =
     (let s1 = s\<lparr>journalEntries :=
                   map (\<lambda>e. if je_id e = i then e\<lparr>je_status := ''void''\<rparr> else e) (journalEntries s)\<rparr>
      in (find (\<lambda>e. je_id e = i) (journalEntries s1), s1))"

record SaleData =
  sd_saleId :: int
  sd_userId :: int
  sd_total :: string
  sd_costOfGoodsSold :: string
  sd_paymentMethod :: string

definition saleEntries :: "Account \<Rightarrow> Account \<Rightarrow> Account \<Rightarrow> Account \<Rightarrow> SaleData \<Rightarrow> EntryLine list" where
  "saleEntries cashAccount salesRevenueAccount cogsAccount inventoryAccount saleData =
     [\<lparr>el_accountId = a_id cashAccount, el_debit = sd_total saleData, el_credit = ''0.00'',
       el_description = Some ''Cash received from sale''\<rparr>,
      \<lparr>el_accountId = a_id salesRevenueAccount, el_debit = ''0.00'', el_credit = sd_total saleData,
       el_description = Some ''Revenue from sale''\<rparr>,
      \<lparr>el_accountId = a_id cogsAccount, el_debit = sd_costOfGoodsSold saleData, el_credit = ''0.00'',
       el_description = Some ''Cost of goods sold''\<rparr>,
      \<lparr>el_accountId = a_id inventoryAccount, el_debit = ''0.00'',
       el_credit = sd_costOfGoodsSold saleData, el_description = Some ''Inventory reduction''\<rparr>]"

definition recordSale :: "timestamp \<Rightarrow> SaleData \<Rightarrow> store \<Rightarrow> (error + JournalEntry) \<times> store" where
  "recordSale now saleData s =
     (case (getAccountByCode s ''1000'', getAccountByCode s ''4000'',
            getAccountByCode s ''5000'', getAccountByCode s ''1200'') of
        (Some cashAccount, Some salesRevenueAccount, Some cogsAccount, Some inventoryAccount) \<Rightarrow>
          createJournalEntry now
            \<lparr>in_description =
               ''Sale #'' @ showInt (sd_saleId saleData) @ '' - '' @ sd_paymentMethod saleData,
             in_entryDate = None, in_referenceType = Some ''sale'',
             in_referenceId = Some (sd_saleId saleData), in_userId = sd_userId saleData,
             in_notes = None,
             in_entries = saleEntries cashAccount salesRevenueAccount cogsAccount
                            inventoryAccount saleData\<rparr> s
      | _ \<Rightarrow> (Inl RequiredAccountsNotFound, s))"

subsection \<open>\<^verbatim>\<open>AccountingService\<close>: reading\<close>

text \<open>\<^verbatim>\<open>orderBy(desc(...))\<close> as a stable sort on the negated key; the order of rows with equal
  keys is the store's choice.\<close>

definition getJournalEntries :: "store \<Rightarrow> timestamp option \<Rightarrow> timestamp option \<Rightarrow> JournalEntry list" where
  "getJournalEntries s startDate endDate =
     (let query = sort_key (\<lambda>e. - je_entryDate e) (journalEntries s) in
      if startDate \<noteq> None \<and> endDate \<noteq> None then query else query)"

definition getLedgerEntries :: "store \<Rightarrow> int \<Rightarrow> LedgerEntry list" where
  "getLedgerEntries s journalEntryId = filter (\<lambda>l. le_journalEntryId l = journalEntryId) (ledgerEntries s)"

definition getAccountLedger ::
  "store \<Rightarrow> int \<Rightarrow> timestamp option \<Rightarrow> timestamp option \<Rightarrow> LedgerEntry list" where
  "getAccountLedger s accountId startDate endDate =
     sort_key (\<lambda>l. - le_createdAt l) (filter (\<lambda>l. le_accountId l = accountId) (ledgerEntries s))"

record Balance =
  balance :: number
  debitTotal :: number
  creditTotal :: number

text \<open>
  \<^verbatim>\<open>COALESCE(SUM(debit), 0)\<close> over the account's lines is the exact sum of the stored decimals;
  the driver returns it as text and \<^verbatim>\<open>parseFloat\<close> reads that text: the totals are the
  doubles nearest to the sums, and the balance is their difference as doubles.
\<close>

definition getAccountBalance :: "store \<Rightarrow> int \<Rightarrow> timestamp option \<Rightarrow> Balance" where
  "getAccountBalance s accountId asOfDate =
     (let rows = filter (\<lambda>l. le_accountId l = accountId) (ledgerEntries s);
          totalDebits_v = number_of_decimal (dec_sum (map le_debit rows));
          totalCredits_v = number_of_decimal (dec_sum (map le_credit rows));
          account = getAccount s accountId;
          balance_v =
            (if (case account of None \<Rightarrow> False | Some a \<Rightarrow> a_normalBalance a = ''debit'')
             then num_sub totalDebits_v totalCredits_v
             else num_sub totalCredits_v totalDebits_v)
      in \<lparr>balance = balance_v, debitTotal = totalDebits_v, creditTotal = totalCredits_v\<rparr>)"

subsection \<open>The accounting routes\<close>

text \<open>The pattern \<^verbatim>\<open>/^\d+(\.\d{1,2})?$/\<close> of \<^verbatim>\<open>createJournalEntrySchema\<close>.\<close>

definition amountRegex :: "string \<Rightarrow> bool" where
  "amountRegex s =
     (let ip = takeWhile isDigit s; r = dropWhile isDigit s in
      ip \<noteq> [] \<and>
      (case r of
         [] \<Rightarrow> True
       | c # fp \<Rightarrow> c = CHR ''.'' \<and> (length fp = 1 \<or> length fp = 2) \<and> list_all isDigit fp))"

definition lineIssues :: "EntryLine \<Rightarrow> string list" where
  "lineIssues entry =
     (if amountRegex (el_debit entry) then [] else [''Invalid debit amount'']) @
     (if amountRegex (el_credit entry) then [] else [''Invalid credit amount''])"

text \<open>
  \<^verbatim>\<open>createJournalEntrySchema.parse(req.body)\<close> on a body of the right shape: the messages of
  the issues found; the parse throws a \<^verbatim>\<open>ZodError\<close> unless there is none. The entry date
  is taken as the instant its text denotes.
\<close>

definition createJournalEntrySchema :: "JournalEntryInput \<Rightarrow> string list" where
  "createJournalEntrySchema body =
     (if length (in_description body) < 1 then [''Description is required''] else []) @
     (if length (in_entries body) < 2 then [''At least 2 entries required''] else []) @
     concat (map lineIssues (in_entries body))"

datatype 'a response = Json 'a | Status nat string

datatype postResponse =
    Posted JournalEntry
      \<comment> \<open>\<^verbatim>\<open>res.json(entry)\<close>\<close>
  | InvalidData "string list"
      \<comment> \<open>400, \<^verbatim>\<open>Invalid journal entry data\<close>, with the issues\<close>
  | NotBalancedDetails number number
      \<comment> \<open>400, \<^verbatim>\<open>Journal entry not balanced\<close>, with \<^verbatim>\<open>details: { debits, credits }\<close>\<close>
  | Failed error
      \<comment> \<open>400, with the message of the exception\<close>

text \<open>\<^verbatim>\<open>POST /api/accounting/journal-entries\<close>.\<close>

definition postJournalEntries ::
  "timestamp \<Rightarrow> JournalEntryInput \<Rightarrow> store \<Rightarrow> postResponse \<times> store" where
  "postJournalEntries now body s =
     (if createJournalEntrySchema body \<noteq> [] then (InvalidData (createJournalEntrySchema body), s)
      else
        (let totalDebits_v = totalDebits (in_entries body);
             totalCredits_v = totalCredits (in_entries body)
         in
         if num_ge (num_abs (num_sub totalDebits_v totalCredits_v)) (fl (1 / 100)) then
           (NotBalancedDetails totalDebits_v totalCredits_v, s)
         else
           (case createJournalEntry now body s of
              (Inl e, s1) \<Rightarrow> (Failed e, s1)
            | (Inr entry, s1) \<Rightarrow> (Posted entry, s1))))"

text \<open>\<^verbatim>\<open>GET /api/accounting/accounts/:id/balance\<close>.\<close>

definition getBalanceRoute :: "store \<Rightarrow> int \<Rightarrow> Balance response" where
  "getBalanceRoute s i = Json (getAccountBalance s i None)"

text \<open>\<^verbatim>\<open>GET /api/accounting/journal-entries/:id\<close>.\<close>

definition getJournalEntry :: "store \<Rightarrow> int \<Rightarrow> JournalEntry option" where
  "getJournalEntry s i = find (\<lambda>e. je_id e = i) (journalEntries s)"

definition getJournalEntryRoute :: "store \<Rightarrow> int \<Rightarrow> (JournalEntry \<times> LedgerEntry list) response" where
  "getJournalEntryRoute s i =
     (case getJournalEntry s i of
        None \<Rightarrow> Status 404 ''Journal entry not found''
      | Some entry \<Rightarrow> Json (entry, getLedgerEntries s i))"

subsection \<open>Requests in sequence\<close>

text \<open>
  The requests that write to the store, each run to its end before the next starts.
\<close>

datatype request =
    Post timestamp JournalEntryInput
  | Sale timestamp SaleData
  | Void int
  | NewAccount timestamp InsertAccount
  | Seed timestamp

fun handle :: "request \<Rightarrow> store \<Rightarrow> store" where
  "handle (Post now input) s = snd (createJournalEntry now input s)"
| "handle (Sale now saleData) s = snd (recordSale now saleData s)"
| "handle (Void i) s = snd (voidJournalEntry i s)"
| "handle (NewAccount now v) s = snd (createAccount now v s)"
| "handle (Seed now) s = snd (initializeChartOfAccounts now s)"

definition run :: "request list \<Rightarrow> store \<Rightarrow> store" where
  "run reqs s = foldl (\<lambda>s r. handle r s) s reqs"

text \<open>
  The journal of a store that started with an empty journal: the entries carry the
  numbers 1, 2, ... in the order of their ids, and the counter is not behind.
\<close>

definition numbered :: "store \<Rightarrow> bool" where
  "numbered s =
     (map je_entryNumber (journalEntries s)
        = map (\<lambda>k. ''JE-'' @ padStart 4 CHR ''0'' (showInt (int k)))
            [1..<Suc (length (journalEntries s))]
      \<and> sorted_wrt (<) (map je_id (journalEntries s))
      \<and> list_all (\<lambda>e. je_id e \<le> journalSeq s) (journalEntries s))"

subsection \<open>The balance of an account as the specification words it\<close>

text \<open>
  Only the lines whose journal entry is posted and, when a date is given, dated on or
  before it. Used for comparison with \<open>getAccountBalance\<close> only.
\<close>

definition getAccountBalance_spec :: "store \<Rightarrow> int \<Rightarrow> timestamp option \<Rightarrow> Balance" where
  "getAccountBalance_spec s accountId asOfDate =
     (let counted = (\<lambda>l.
            case find (\<lambda>e. je_id e = le_journalEntryId l) (journalEntries s) of
              None \<Rightarrow> False
            | Some e \<Rightarrow> je_status e = ''posted'' \<and>
                        (case asOfDate of None \<Rightarrow> True | Some d \<Rightarrow> je_entryDate e \<le> d));
          rows = filter (\<lambda>l. le_accountId l = accountId \<and> counted l) (ledgerEntries s);
          totalDebits_v = number_of_decimal (dec_sum (map le_debit rows));
          totalCredits_v = number_of_decimal (dec_sum (map le_credit rows));
          balance_v =
            (if (case getAccount s accountId of None \<Rightarrow> False | Some a \<Rightarrow> a_normalBalance a = ''debit'')
             then num_sub totalDebits_v totalCredits_v
             else num_sub totalCredits_v totalDebits_v)
      in \<lparr>balance = balance_v, debitTotal = totalDebits_v, creditTotal = totalCredits_v\<rparr>)"

subsection \<open>Example stores and inputs\<close>

definition account :: "int \<Rightarrow> string \<Rightarrow> string \<Rightarrow> bool \<Rightarrow> Account" where
  "account i code normalBalance isActive =
     \<lparr>a_id = i, a_code = code, a_name = code, a_type = ''asset'', a_subtype = None,
      a_normalBalance = normalBalance, a_description = None, a_isActive = isActive,
      a_isSystem = True, a_parentAccountId = None, a_createdAt = 0\<rparr>"

text \<open>The four accounts a sale is posted to, one user, empty journal and ledger.\<close>

definition exampleStore :: "bool \<Rightarrow> store" where
  "exampleStore c =
     \<lparr>accounts = [account 1 ''1000'' ''debit'' True, account 2 ''1200'' ''debit'' True,
                  account 3 ''4000'' ''credit'' True, account 4 ''5000'' ''debit'' True],
      journalEntries = [], ledgerEntries = [], users = [1],
      accountsSeq = 4, journalSeq = 0, ledgerSeq = 0, constraints = c\<rparr>"

definition line :: "int \<Rightarrow> string \<Rightarrow> string \<Rightarrow> EntryLine" where
  "line a d c = \<lparr>el_accountId = a, el_debit = d, el_credit = c, el_description = None\<rparr>"

definition manualEntry :: "EntryLine list \<Rightarrow> JournalEntryInput" where
  "manualEntry ls =
     \<lparr>in_description = ''Adjustment'', in_entryDate = None, in_referenceType = None,
      in_referenceId = None, in_userId = 1, in_notes = None, in_entries = ls\<rparr>"



definition header :: "int \<Rightarrow> string \<Rightarrow> timestamp \<Rightarrow> string \<Rightarrow> JournalEntry" where
  "header i entryNumber entryDate status =
     \<lparr>je_id = i, je_entryNumber = entryNumber, je_entryDate = entryDate,
      je_description = ''Adjustment'', je_referenceType = None, je_referenceId = None,
      je_userId = 1, je_status = status, je_notes = None,
      je_createdAt = entryDate, je_updatedAt = entryDate\<rparr>"

definition ledgerLine :: "int \<Rightarrow> int \<Rightarrow> int \<Rightarrow> rat \<Rightarrow> rat \<Rightarrow> LedgerEntry" where
  "ledgerLine i journalEntryId accountId d c =
     \<lparr>le_id = i, le_journalEntryId = journalEntryId, le_accountId = accountId,
      le_debit = Dec d, le_credit = Dec c, le_description = None, le_createdAt = 0\<rparr>"

text \<open>
  The postings \<open>{debit 100, credit 30}\<close> and \<open>{debit 50, credit 0}\<close>, on the debit-normal
  account 1 and on the credit-normal account 3.
\<close>

definition historyStore :: store where
  "historyStore =
     (exampleStore False)
       \<lparr>journalEntries := [header 1 ''JE-0001'' 100 ''posted'', header 2 ''JE-0002'' 200 ''posted''],
        ledgerEntries := [ledgerLine 1 1 1 100 30, ledgerLine 2 2 1 50 0,
                          ledgerLine 3 1 3 100 30, ledgerLine 4 2 3 50 0],
        journalSeq := 2, ledgerSeq := 4\<rparr>"

text \<open>
  A void entry of date 100 with a debit of 100 to account 1 and a credit of 100 to
  account 3, and a posted entry of date 300 with 50 on the same accounts.
\<close>

definition voidedStore :: store where
  "voidedStore =
     (exampleStore True)
       \<lparr>journalEntries := [header 1 ''JE-0001'' 100 ''void'', header 2 ''JE-0002'' 300 ''posted''],
        ledgerEntries := [ledgerLine 1 1 1 100 0, ledgerLine 2 1 3 0 100,
                          ledgerLine 3 2 1 50 0, ledgerLine 4 2 3 0 50],
        journalSeq := 2, ledgerSeq := 4\<rparr>"

definition sale :: "string \<Rightarrow> string \<Rightarrow> SaleData" where
  "sale total_v costOfGoodsSold =
     \<lparr>sd_saleId = 42, sd_userId = 1, sd_total = total_v, sd_costOfGoodsSold = costOfGoodsSold,
      sd_paymentMethod = ''cash''\<rparr>"

text \<open>A store whose only account is inactive, and the example chart with every account
  deactivated.\<close>

definition dormantStore :: store where
  "dormantStore =
     (exampleStore True)\<lparr>accounts := [account 1 ''9000'' ''debit'' False], accountsSeq := 1\<rparr>"

definition deactivatedStore :: store where
  "deactivatedStore =
     (exampleStore True)
       \<lparr>accounts := map (\<lambda>a. a\<lparr>a_isActive := False\<rparr>) (accounts (exampleStore True))\<rparr>"

section \<open>Properties\<close>

subsection \<open>Auxiliary facts: rounding to doubles\<close>

lemma rne_of_int [simp]: "rne (of_int n) = n"
  by (simp add: rne_def)

lemma rne_ge: "of_int L \<le> x \<Longrightarrow> L \<le> rne x"
proof -
  assume "of_int L \<le> x"
  then have "L \<le> \<lfloor>x\<rfloor>" by (simp add: le_floor_iff)
  moreover have "\<lfloor>x\<rfloor> \<le> rne x" by (simp add: rne_def Let_def)
  ultimately show ?thesis by simp
qed

lemma rne_le: "x \<le> of_int U \<Longrightarrow> rne x \<le> U"
proof (cases "x = of_int U")
  case True
  then show ?thesis by simp
next
  case False
  assume "x \<le> of_int U"
  with False have "x < of_int U" by simp
  then have "\<lfloor>x\<rfloor> < U" by (simp add: floor_less_iff)
  moreover have "rne x \<le> \<lfloor>x\<rfloor> + 1" by (simp add: rne_def Let_def)
  ultimately show ?thesis by simp
qed

lemma expo_bounds:
  assumes "0 < a"
  shows "2 powi expo a \<le> a" and "a < 2 powi (expo a + 1)"
proof -
  obtain p q where pq: "quotient_of a = (p, q)" by (cases "quotient_of a")
  then have q: "0 < q" and a: "a = of_int p / of_int q"
    using quotient_of_denom_pos quotient_of_div by auto
  have p: "0 < p" using assms a q by (simp add: zero_less_divide_iff)
  let ?bp = "bitlen p" and ?bq = "bitlen q"
  let ?k = "?bp - ?bq"
  have bp1: "1 \<le> ?bp" and bq1: "1 \<le> ?bq" using p q by (auto simp: bitlen_alt_def)
  from bitlen_bounds[OF p] have pl: "(2::int) ^ nat (?bp - 1) \<le> p" and pu: "p < 2 ^ nat ?bp" by auto
  from bitlen_bounds[OF q] have ql: "(2::int) ^ nat (?bq - 1) \<le> q" and qu: "q < 2 ^ nat ?bq" by auto
  have pl': "(2::rat) powi (?bp - 1) \<le> of_int p"
  proof -
    have "(of_int ((2::int) ^ nat (?bp - 1)) :: rat) \<le> of_int p" using pl by (simp only: of_int_le_iff)
    then show ?thesis using bp1 by (simp add: power_int_nonneg_exp)
  qed
  have pu': "of_int p < (2::rat) powi ?bp"
  proof -
    have "(of_int p :: rat) < of_int ((2::int) ^ nat ?bp)" using pu by (simp only: of_int_less_iff)
    then show ?thesis using bp1 by (simp add: power_int_nonneg_exp)
  qed
  have ql': "(2::rat) powi (?bq - 1) \<le> of_int q"
  proof -
    have "(of_int ((2::int) ^ nat (?bq - 1)) :: rat) \<le> of_int q" using ql by (simp only: of_int_le_iff)
    then show ?thesis using bq1 by (simp add: power_int_nonneg_exp)
  qed
  have qu': "of_int q < (2::rat) powi ?bq"
  proof -
    have "(of_int q :: rat) < of_int ((2::int) ^ nat ?bq)" using qu by (simp only: of_int_less_iff)
    then show ?thesis using bq1 by (simp add: power_int_nonneg_exp)
  qed
  have qpos: "(0::rat) < of_int q" using q by simp
  have lower: "2 powi (?k - 1) < a"
  proof -
    have "(0::rat) < 2 powi (?k - 1)" by (simp add: zero_less_power_int)
    then have "2 powi (?k - 1) * of_int q < (2::rat) powi (?k - 1) * 2 powi ?bq"
      using qu' by (rule mult_strict_left_mono[rotated])
    also have "\<dots> = 2 powi (?bp - 1)" by (simp add: power_int_add[symmetric])
    also have "\<dots> \<le> of_int p" by (rule pl')
    finally show ?thesis using qpos by (simp add: a pos_less_divide_eq)
  qed
  have upper: "a < 2 powi (?k + 1)"
  proof -
    have "of_int p < (2::rat) powi ?bp" by (rule pu')
    also have "\<dots> = 2 powi (?k + 1) * 2 powi (?bq - 1)" by (simp add: power_int_add[symmetric])
    also have "\<dots> \<le> 2 powi (?k + 1) * of_int q"
      using ql' by (intro mult_left_mono) (simp_all add: zero_le_power_int)
    finally show ?thesis using qpos by (simp add: a pos_divide_less_eq)
  qed
  have e: "expo a = (if a < 2 powi ?k then ?k - 1 else ?k)"
    by (simp add: expo_def pq Let_def)
  show "2 powi expo a \<le> a" using lower by (auto simp: e)
  show "a < 2 powi (expo a + 1)" using upper by (auto simp: e)
qed


lemma expo_unique:
  assumes "0 < a" and "2 powi e \<le> a" and "a < 2 powi (e + 1)"
  shows "expo a = e"
proof (rule ccontr)
  assume ne: "expo a \<noteq> e"
  note b = expo_bounds[OF assms(1)]
  show False
  proof (cases "expo a < e")
    case True
    then have "(2::rat) powi (expo a + 1) \<le> 2 powi e"
      by (intro power_int_increasing) simp_all
    with b(2) assms(2) show False by simp
  next
    case False
    with ne have "e + 1 \<le> expo a" by simp
    then have "(2::rat) powi (e + 1) \<le> 2 powi expo a"
      by (intro power_int_increasing) simp_all
    with b(1) assms(3) show False by simp
  qed
qed

lemma expo_small:
  assumes "0 < a" and "a < 2 powi e"
  shows "expo a < e"
proof (rule ccontr)
  assume "\<not> expo a < e"
  then have "(2::rat) powi e \<le> 2 powi expo a"
    by (intro power_int_increasing) simp_all
  with expo_bounds(1)[OF assms(1)] assms(2) show False by simp
qed

lemma fl_normal:
  assumes "x \<noteq> 0" and "2 powi e \<le> \<bar>x\<bar>" and "\<bar>x\<bar> < 2 powi (e + 1)"
    and "- 1022 \<le> e" and "e \<le> 1023"
    and "rne (\<bar>x\<bar> / 2 powi (e - 52)) = m" and "e = 1023 \<longrightarrow> m \<noteq> 2 ^ 53"
  shows "fl x = Num (sgn x * of_int m * 2 powi (e - 52))"
proof -
  have "expo \<bar>x\<bar> = e" using assms(1-3) by (intro expo_unique) simp_all
  then have mx: "max (expo \<bar>x\<bar>) (- 1022) = e" using assms(4) by simp
  show ?thesis unfolding fl_def Let_def mx assms(6) using assms(1,5,7) by auto
qed

lemma fl_subnormal:
  assumes "x \<noteq> 0" and "\<bar>x\<bar> < 2 powi (- 1022)"
  shows "fl x = Num (sgn x * of_int (rne (\<bar>x\<bar> / 2 powi (- 1074))) * 2 powi (- 1074))"
proof -
  have "expo \<bar>x\<bar> < - 1022" using assms by (intro expo_small) simp_all
  then have mx: "max (expo \<bar>x\<bar>) (- 1022) = - 1022" by simp
  have e: "(- 1022 - 52 :: int) = - 1074" by simp
  show ?thesis unfolding fl_def Let_def mx e using assms(1) by auto
qed


lemma powi_split: "(2::rat) powi (e - 52) * 2 ^ 52 = 2 powi e"
proof -
  have "(2::rat) powi ((e - 52) + 52) = 2 powi (e - 52) * 2 powi 52"
    by (rule power_int_add) simp
  then show ?thesis by simp
qed

lemma powi_split1: "(2::rat) powi (e - 52) * 2 ^ 53 = 2 powi (e + 1)"
proof -
  have "(2::rat) powi ((e - 52) + 53) = 2 powi (e - 52) * 2 powi 53"
    by (rule power_int_add) simp
  then show ?thesis by (simp add: add.commute)
qed

lemma powi_split_num:
  "(2::rat) powi (e - 52) * 4503599627370496 = 2 powi e"
  "4503599627370496 * (2::rat) powi (e - 52) = 2 powi e"
  "(2::rat) powi (e - 52) * 9007199254740992 = 2 powi (e + 1)"
  "9007199254740992 * (2::rat) powi (e - 52) = 2 powi (e + 1)"
  using powi_split[of e] powi_split1[of e] by (simp_all add: mult.commute)

lemma powi_double: "(2::rat) powi (e + 1 - 52) = 2 * 2 powi (e - 52)"
proof -
  have "(2::rat) powi ((e - 52) + 1) = 2 powi (e - 52) * 2 powi 1"
    by (rule power_int_add) simp
  then show ?thesis by (simp add: algebra_simps)
qed

lemma fl_multiple:
  assumes "0 < m" and "m < 2 ^ 53" and "- 1022 \<le> e" and "e \<le> 1023" and "s \<noteq> 0"
    and "e \<noteq> - 1022 \<longrightarrow> 2 ^ 52 \<le> m"
  shows "fl (sgn s * of_int m * 2 powi (e - 52)) = Num (sgn s * of_int m * 2 powi (e - 52))"
proof -
  let ?q = "(2::rat) powi (e - 52)"
  let ?y = "sgn s * of_int m * ?q"
  have q: "0 < ?q" by (simp add: zero_less_power_int)
  have ay: "\<bar>?y\<bar> = of_int m * ?q"
    using assms(1,5) q by (simp add: abs_mult abs_sgn_eq)
  have sy: "sgn ?y = sgn s"
    using assms(1,5) q by (simp add: sgn_mult)
  have y0: "?y \<noteq> 0" using assms(1,5) q by (simp add: sgn_eq_0_iff)
  have dv: "\<bar>?y\<bar> / ?q = of_int m" using q by (simp add: ay)
  have up: "\<bar>?y\<bar> < 2 powi (e + 1)"
  proof -
    have "(of_int m :: rat) < of_int (2 ^ 53)" using assms(2) by (simp only: of_int_less_iff)
    then have "(of_int m :: rat) < 2 ^ 53" by simp
    then have "of_int m * ?q < 2 ^ 53 * ?q" using q by (rule mult_strict_right_mono)
    then show ?thesis by (simp add: ay powi_split_num)
  qed
  show ?thesis
  proof (cases "2 ^ 52 \<le> m")
    case True
    have lo: "2 powi e \<le> \<bar>?y\<bar>"
    proof -
      have "(of_int (2 ^ 52) :: rat) \<le> of_int m" using True by (simp only: of_int_le_iff)
      then have "(2 ^ 52 :: rat) \<le> of_int m" by simp
      then have "2 ^ 52 * ?q \<le> of_int m * ?q" using q by (intro mult_right_mono) simp_all
      then show ?thesis by (simp add: ay powi_split_num)
    qed
    have "fl ?y = Num (sgn ?y * of_int m * ?q)"
      using y0 lo up assms(3,4) _ _
    proof (rule fl_normal)
      show "rne (\<bar>?y\<bar> / ?q) = m" by (simp only: dv rne_of_int)
      show "e = 1023 \<longrightarrow> m \<noteq> 2 ^ 53" using assms(2) by simp
    qed
    then show ?thesis by (simp only: sy)
  next
    case False
    with assms(6) have e: "e = - 1022" by auto
    from False have "m < 2 ^ 52" by simp
    then have "(of_int m :: rat) < of_int (2 ^ 52)" by (simp only: of_int_less_iff)
    then have "(of_int m :: rat) < 2 ^ 52" by simp
    then have "of_int m * ?q < 2 ^ 52 * ?q" using q by (rule mult_strict_right_mono)
    then have "\<bar>?y\<bar> < 2 powi e" by (simp add: ay powi_split_num)
    then have "\<bar>?y\<bar> < 2 powi (- 1022)" by (simp only: e)
    with y0 have "fl ?y = Num (sgn ?y * of_int (rne (\<bar>?y\<bar> / 2 powi (- 1074))) * 2 powi (- 1074))"
      by (rule fl_subnormal)
    moreover have "(2::rat) powi (- 1074) = ?q" by (simp add: e)
    ultimately show ?thesis by (simp only: dv rne_of_int sy)
  qed
qed

lemma fl_idem:
  assumes "fl x = Num y"
  shows "fl y = Num y"
proof (cases "x = 0")
  case True
  with assms show ?thesis by (simp add: fl_def)
next
  case False
  define a where "a = \<bar>x\<bar>"
  define e where "e = max (expo a) (- 1022)"
  define q where "q = (2::rat) powi (e - 52)"
  define m where "m = rne (a / q)"
  have a: "0 < a" using False by (simp add: a_def)
  have q: "0 < q" by (simp add: q_def zero_less_power_int)
  have unf: "fl x = (if 1023 < e then (if 0 < x then PosInf else NegInf)
      else if e = 1023 \<and> m = 2 ^ 53 then (if 0 < x then PosInf else NegInf)
      else Num (sgn x * of_int m * q))"
    unfolding fl_def Let_def a_def e_def q_def m_def by (simp only: False if_False)
  have e: "e \<le> 1023" and ov: "e = 1023 \<longrightarrow> m \<noteq> 2 ^ 53"
    and y: "y = sgn x * of_int m * q"
    using assms unfolding unf by (auto split: if_splits)
  have e_lo: "- 1022 \<le> e" by (simp add: e_def)
  have "0 \<le> a / q" using a q by simp
  then have "of_int 0 \<le> a / q" by simp
  then have m0: "0 \<le> m" unfolding m_def by (rule rne_ge)
  have ub: "a < 2 powi (e + 1)"
  proof -
    have "(2::rat) powi (expo a + 1) \<le> 2 powi (e + 1)"
      by (intro power_int_increasing) (simp_all add: e_def)
    with expo_bounds(2)[OF a] show ?thesis by simp
  qed
  have "a / q \<le> 2 ^ 53"
  proof -
    have "a \<le> q * 2 ^ 53" using ub by (simp add: q_def powi_split_num)
    then show ?thesis using q by (simp add: pos_divide_le_eq mult.commute)
  qed
  then have "a / q \<le> of_int (2 ^ 53)" by simp
  then have m_hi: "m \<le> 2 ^ 53" unfolding m_def by (rule rne_le)
  have norm: "2 ^ 52 \<le> m" if "e \<noteq> - 1022"
  proof -
    from that have ee: "e = expo a" by (simp add: e_def max_def split: if_splits)
    have "2 powi e \<le> a" using expo_bounds(1)[OF a] by (simp add: ee)
    then have "q * 2 ^ 52 \<le> a" by (simp add: q_def powi_split_num)
    then have "2 ^ 52 \<le> a / q" using q by (simp add: pos_le_divide_eq mult.commute)
    then have "of_int (2 ^ 52) \<le> a / q" by simp
    then show ?thesis unfolding m_def by (rule rne_ge)
  qed
  show ?thesis
  proof (cases "m = 0")
    case True
    then show ?thesis by (simp add: y fl_def)
  next
    case mne: False
    with m0 have mpos: "0 < m" by simp
    show ?thesis
    proof (cases "m = 2 ^ 53")
      case True
      with ov e have e': "e + 1 \<le> 1023" by simp
      have "fl (sgn x * of_int (2 ^ 52) * 2 powi (e + 1 - 52))
          = Num (sgn x * of_int (2 ^ 52) * 2 powi (e + 1 - 52))"
        using _ _ _ e' False
      proof (rule fl_multiple)
        show "(0::int) < 2 ^ 52" by simp
        show "(2::int) ^ 52 < 2 ^ 53" by simp
        show "- 1022 \<le> e + 1" using e_lo by simp
        show "e + 1 \<noteq> - 1022 \<longrightarrow> (2::int) ^ 52 \<le> 2 ^ 52" by simp
      qed
      moreover have "sgn x * of_int (2 ^ 52) * 2 powi (e + 1 - 52) = y"
        using powi_double[of e] by (simp add: y True q_def)
      ultimately show ?thesis by simp
    next
      case False
      with m_hi have "m < 2 ^ 53" by simp
      with mpos have "fl (sgn x * of_int m * 2 powi (e - 52)) = Num (sgn x * of_int m * 2 powi (e - 52))"
        using e_lo e \<open>x \<noteq> 0\<close> norm by (intro fl_multiple) auto
      then show ?thesis by (simp add: y q_def)
    qed
  qed
qed

lemma fl_zero [simp]: "fl 0 = Num 0"
  by (simp add: fl_def)

lemma fl_hundredth: "fl (1 / 100) = Num (5764607523034235 / 576460752303423488)"
  by code_simp

lemma fl_minus: "fl (- x) = num_neg (fl x)"
proof (cases "x = 0")
  case True
  then show ?thesis by simp
next
  case False
  define e where "e = max (expo \<bar>x\<bar>) (- 1022)"
  define m where "m = rne (\<bar>x\<bar> / 2 powi (e - 52))"
  have l: "fl x = (if 1023 < e then (if 0 < x then PosInf else NegInf)
      else if e = 1023 \<and> m = 2 ^ 53 then (if 0 < x then PosInf else NegInf)
      else Num (sgn x * of_int m * 2 powi (e - 52)))"
    unfolding fl_def Let_def e_def m_def by (simp only: False if_False)
  have nz: "- x \<noteq> 0" using False by simp
  have r: "fl (- x) = (if 1023 < e then (if 0 < - x then PosInf else NegInf)
      else if e = 1023 \<and> m = 2 ^ 53 then (if 0 < - x then PosInf else NegInf)
      else Num (sgn (- x) * of_int m * 2 powi (e - 52)))"
    unfolding fl_def Let_def e_def m_def abs_minus_cancel by (simp only: nz if_False)
  show ?thesis unfolding l r using False by (auto simp: sgn_minus)
qed

text \<open>A value below \<open>2 powi 1023\<close> in size rounds to a finite double.\<close>

lemma fl_finite:
  assumes "\<bar>x\<bar> < 2 powi 1023"
  shows "\<exists>y. fl x = Num y"
proof (cases "x = 0")
  case True
  then show ?thesis by simp
next
  case False
  have "expo \<bar>x\<bar> < 1023" using False assms by (intro expo_small) simp_all
  then have lt: "max (expo \<bar>x\<bar>) (- 1022) < 1023" by simp
  then have n1: "\<not> 1023 < max (expo \<bar>x\<bar>) (- 1022)" and n2: "max (expo \<bar>x\<bar>) (- 1022) \<noteq> 1023"
    by simp_all
  show ?thesis unfolding fl_def Let_def by (simp only: False n1 n2 if_False simp_thms) blast
qed

text \<open>Adding zero to a double gives that double.\<close>

lemma num_add_zero:
  assumes "\<And>y. n = Num y \<Longrightarrow> fl y = Num y"
  shows "num_add n (Num 0) = n" and "num_add (Num 0) n = n"
  using assms by (cases n; simp)+

text \<open>Equal totals pass the balance check, whatever they are.\<close>

lemma num_sub_self: "\<not> num_gt (num_abs (num_sub n n)) (fl (1 / 100))"
  by (cases n) (simp_all add: num_sub_def fl_hundredth)

subsection \<open>Auxiliary facts\<close>

lemma num_gt_ge: "num_gt a b \<Longrightarrow> num_ge a b"
  by (cases a; cases b) auto

lemma pgSpace_jsSpace: "pgSpace c \<Longrightarrow> jsSpace c"
  by (auto simp: pgSpace_def jsSpace_def)

lemma scanMantissa_Some_hd:
  "scanMantissa r = Some y \<Longrightarrow> \<exists>c t. r = c # t \<and> (isDigit c \<or> c = CHR ''.'')"
  by (cases r) (auto simp: scanMantissa_def Let_def split: list.splits if_splits)

lemma scanDecimal_Some_hd:
  "scanDecimal u = Some y \<Longrightarrow>
     \<exists>c t. u = c # t \<and> (isDigit c \<or> c = CHR ''.'' \<or> c = CHR ''+'' \<or> c = CHR ''-'')"
  by (cases u)
     (auto simp: scanDecimal_def scanSign_def Let_def
           split: option.splits prod.splits if_splits dest: scanMantissa_Some_hd)

text \<open>Where the store reads a decimal, \<open>parseFloat\<close> skips the same white space.\<close>

lemma dropWhile_jsSpace_pgSpace:
  assumes "scanDecimal (dropWhile pgSpace s) = Some y"
  shows "dropWhile jsSpace s = dropWhile pgSpace s"
proof -
  obtain c t where u: "dropWhile pgSpace s = c # t"
    and c: "isDigit c \<or> c = CHR ''.'' \<or> c = CHR ''+'' \<or> c = CHR ''-''"
    using scanDecimal_Some_hd[OF assms] by blast
  have nc: "\<not> jsSpace c" using c by (auto simp: isDigit_def jsSpace_def)
  have "s = takeWhile pgSpace s @ c # t" using u by (metis takeWhile_dropWhile_id)
  then have "dropWhile jsSpace s = dropWhile jsSpace (takeWhile pgSpace s @ c # t)" by simp
  also have "\<dots> = dropWhile jsSpace (c # t)"
    by (rule dropWhile_append2) (auto dest: set_takeWhileD pgSpace_jsSpace)
  also have "\<dots> = c # t" using nc by simp
  finally show ?thesis using u by simp
qed

lemma scanMantissa_Infinity: "take 8 r = ''Infinity'' \<Longrightarrow> scanMantissa r = None"
  by (cases r) (auto simp: scanMantissa_def Let_def isDigit_def)

lemma round2_near: "\<bar>v\<bar> < \<bar>round2 v\<bar> + 1"
proof (cases "0 \<le> v")
  case True
  have "v * 100 + 1 / 2 < of_int \<lfloor>v * 100 + 1 / 2\<rfloor> + 1" by linarith
  moreover have "0 \<le> \<lfloor>v * 100 + 1 / 2\<rfloor>" using True by simp
  ultimately show ?thesis using True by (simp add: round2_def)
next
  case False
  have "- v * 100 + 1 / 2 < of_int \<lfloor>- v * 100 + 1 / 2\<rfloor> + 1" by linarith
  moreover have "0 \<le> \<lfloor>- v * 100 + 1 / 2\<rfloor>" using False by simp
  ultimately show ?thesis using False by (simp add: round2_def)
qed

text \<open>An amount the store accepts as a number is a finite double for \<open>parseFloat\<close>.\<close>

lemma toDecimal_parseFloat:
  assumes "toDecimal s = Inr (Dec x)"
  shows "\<exists>v. parseFloat s = Num v \<and> fl v = Num v"
proof -
  obtain v rest where sd: "scanDecimal (dropWhile pgSpace s) = Some (v, rest)"
    and small: "\<bar>round2 v\<bar> < 10 ^ 13"
    using assms by (auto simp: toDecimal_def split: option.splits if_splits)
  have eq: "dropWhile jsSpace s = dropWhile pgSpace s"
    by (rule dropWhile_jsSpace_pgSpace[OF sd])
  obtain sg r where sg: "scanSign (dropWhile pgSpace s) = (sg, r)"
    by (cases "scanSign (dropWhile pgSpace s)")
  have "scanMantissa r \<noteq> None"
    using sd sg by (auto simp: scanDecimal_def split: option.splits)
  then have "take 8 r \<noteq> ''Infinity''"
    using scanMantissa_Infinity[of r] by auto
  then have pf: "parseFloat s = fl v" using sd sg eq by (simp add: parseFloat_def)
  have "\<bar>v\<bar> < 10 ^ 13 + 1" using round2_near[of v] small by simp
  also have "\<dots> < (2::rat) powi 1023" by simp
  finally obtain y where y: "fl v = Num y" using fl_finite by blast
  with fl_idem[OF y] pf show ?thesis by simp
qed

lemma find_map_void:
  "find (\<lambda>e. je_id e = i) (map (\<lambda>e. if je_id e = i then e\<lparr>je_status := v\<rparr> else e) es)
     = map_option (\<lambda>e. e\<lparr>je_status := v\<rparr>) (find (\<lambda>e. je_id e = i) es)"
  by (induction es) auto

lemma void_map_id:
  "find (\<lambda>e. je_id e = i) es = None \<Longrightarrow>
     map (\<lambda>e. if je_id e = i then e\<lparr>je_status := v\<rparr> else e) es = es"
  by (induction es) (auto split: if_splits)

lemma isDigit_digitChar: "d < 10 \<Longrightarrow> isDigit (digitChar d)"
  by (simp add: isDigit_def digitChar_def)

lemma digitVal_digitChar: "d < 10 \<Longrightarrow> digitVal (digitChar d) = d"
  by (simp add: digitVal_def digitChar_def)

lemma showNat_digits: "c \<in> set (showNat n) \<Longrightarrow> isDigit c"
proof (induction n arbitrary: c rule: showNat.induct)
  case (1 n)
  show ?case
  proof (cases "n < 10")
    case True
    with "1.prems" show ?thesis by (simp add: showNat.simps[of n] isDigit_digitChar)
  next
    case False
    with "1.prems" "1.IH" show ?thesis
      by (auto simp: showNat.simps[of n] isDigit_digitChar)
  qed
qed

lemma showNat_nonempty: "showNat n \<noteq> []"
  by (simp add: showNat.simps[of n])

lemma digitsVal_snoc: "digitsVal (ds @ [c]) = 10 * digitsVal ds + int (digitVal c)"
  by (simp add: digitsVal_def)

lemma digitsVal_showNat: "digitsVal (showNat n) = int n"
proof (induction n rule: showNat.induct)
  case (1 n)
  show ?case
  proof (cases "n < 10")
    case True
    then show ?thesis by (simp add: showNat.simps[of n] digitsVal_def digitVal_digitChar)
  next
    case False
    with "1.IH" show ?thesis
      by (simp add: showNat.simps[of n] digitsVal_snoc digitVal_digitChar of_nat_div of_nat_mod)
  qed
qed

lemma digitsVal_zeros: "digitsVal (replicate k CHR ''0'' @ ds) = digitsVal ds"
proof -
  have "foldl (\<lambda>acc c. 10 * acc + int (digitVal c)) 0 (replicate k CHR ''0'') = 0"
    by (induction k) (simp_all add: digitVal_def)
  then show ?thesis by (simp add: digitsVal_def)
qed

lemma isDigit_zero: "isDigit CHR ''0''"
  by (simp add: isDigit_def)

lemma padded_digits: "c \<in> set (padStart 4 CHR ''0'' (showNat n)) \<Longrightarrow> isDigit c"
  by (auto simp: padStart_def isDigit_zero dest: showNat_digits)

lemma padded_nonempty: "padStart 4 CHR ''0'' (showNat n) \<noteq> []"
  by (simp add: padStart_def showNat_nonempty)

lemma split_no_sep: "c \<notin> set xs \<Longrightarrow> split c xs = [xs]"
  by (induction xs) auto

lemma parseInt_digits:
  assumes "ds \<noteq> []" and "\<forall>c \<in> set ds. isDigit c"
  shows "parseInt ds = Some (digitsVal ds)"
proof -
  obtain c t where ds: "ds = c # t" using assms(1) by (cases ds) auto
  have dc: "isDigit c" using assms(2) ds by simp
  have ns: "\<not> jsSpace c" using dc by (auto simp: isDigit_def jsSpace_def)
  have sg: "c \<noteq> CHR ''+''" "c \<noteq> CHR ''-''" using dc by (auto simp: isDigit_def)
  have nx: "take 2 ds \<noteq> ''0x''" "take 2 ds \<noteq> ''0X''"
  proof -
    have "\<not> isDigit CHR ''x''" "\<not> isDigit CHR ''X''" by (simp_all add: isDigit_def)
    then show "take 2 ds \<noteq> ''0x''" "take 2 ds \<noteq> ''0X''"
      using assms(2) ds by (cases t; auto)+
  qed
  have tw: "takeWhile isDigit ds = ds" using assms(2) by (simp add: takeWhile_eq_all_conv)
  have "dropWhile jsSpace ds = ds" using ds ns by simp
  moreover have "scanSign ds = (1, ds)" using ds sg by (simp add: scanSign_def)
  ultimately show ?thesis using nx assms(1) by (simp add: parseInt_def Let_def tw)
qed

lemma lastNumberOf_entryNumber:
  "lastNumberOf (''JE-'' @ padStart 4 CHR ''0'' (showInt (int k))) = Some (int k)"
proof -
  let ?p = "padStart 4 CHR ''0'' (showNat k)"
  have si: "showInt (int k) = showNat k" by (simp add: showInt_def)
  have nd: "CHR ''-'' \<notin> set ?p" using padded_digits[of "CHR ''-''" k] by (auto simp: isDigit_def)
  have sp: "split CHR ''-'' (''JE-'' @ ?p) = [''JE'', ?p]"
    using split_no_sep[OF nd] by simp
  have "parseInt ?p = Some (digitsVal ?p)"
    by (rule parseInt_digits) (auto simp: padded_nonempty dest: padded_digits)
  moreover have "digitsVal ?p = int k" by (simp add: padStart_def digitsVal_zeros digitsVal_showNat)
  ultimately have pi: "parseInt ?p = Some (int k)" by simp
  have "lastNumberOf (''JE-'' @ ?p) = parseInt ?p"
    unfolding lastNumberOf_def sp using padded_nonempty[of k] by (simp add: index_def)
  with pi show ?thesis by (simp add: si)
qed

lemma insertLedgerEntry_frame:
  "insertLedgerEntry now v s = (r, s1) \<Longrightarrow>
     accounts s1 = accounts s \<and> journalEntries s1 = journalEntries s \<and> users s1 = users s
     \<and> constraints s1 = constraints s \<and> accountsSeq s1 = accountsSeq s \<and> journalSeq s1 = journalSeq s
     \<and> (case r of Inl e \<Rightarrow> ledgerEntries s1 = ledgerEntries s
                  | Inr l \<Rightarrow> ledgerEntries s1 = ledgerEntries s @ [l])"
  by (auto simp: insertLedgerEntry_def Let_def split: sum.splits if_splits)

lemma insertLines_frame:
  "insertLines now je input entries s = (r, s') \<Longrightarrow>
     accounts s' = accounts s \<and> journalEntries s' = journalEntries s \<and> users s' = users s
     \<and> constraints s' = constraints s \<and> accountsSeq s' = accountsSeq s \<and> journalSeq s' = journalSeq s
     \<and> (\<exists>ls. ledgerEntries s' = ledgerEntries s @ ls
             \<and> (case r of Inl e \<Rightarrow> length ls < length entries \<and> (\<exists>d. e = DbError d)
                         | Inr _ \<Rightarrow> length ls = length entries))"
proof (induction entries arbitrary: s)
  case Nil
  then show ?case by auto
next
  case (Cons entry rest)
  obtain r1 s1 where ins: "insertLedgerEntry now (lineValues je input entry) s = (r1, s1)"
    by (cases "insertLedgerEntry now (lineValues je input entry) s")
  note f = insertLedgerEntry_frame[OF ins]
  show ?case
  proof (cases r1)
    case (Inl e)
    with Cons.prems ins have "r = Inl (DbError e)" "s' = s1" by auto
    with f Inl show ?thesis by auto
  next
    case (Inr l)
    with Cons.prems ins have rec: "insertLines now je input rest s1 = (r, s')" by auto
    from Cons.IH[OF rec] f Inr show ?thesis by (auto split: sum.splits)
  qed
qed

lemma insertJournalEntry_frame:
  "insertJournalEntry now v s = (r, s1) \<Longrightarrow>
     accounts s1 = accounts s \<and> ledgerEntries s1 = ledgerEntries s \<and> users s1 = users s
     \<and> constraints s1 = constraints s \<and> accountsSeq s1 = accountsSeq s \<and> ledgerSeq s1 = ledgerSeq s
     \<and> journalSeq s1 = journalSeq s + 1
     \<and> (case r of Inl e \<Rightarrow> journalEntries s1 = journalEntries s
                  | Inr h \<Rightarrow> journalEntries s1 = journalEntries s @ [h]
                            \<and> je_id h = journalSeq s + 1 \<and> je_entryNumber h = ij_entryNumber v
                            \<and> je_status h = ij_status v \<and> je_referenceType h = ij_referenceType v
                            \<and> je_referenceId h = ij_referenceId v \<and> je_description h = ij_description v
                            \<and> je_userId h = ij_userId v)"
  by (auto simp: insertJournalEntry_def Let_def split: sum.splits if_splits)

text \<open>
  The three ways \<open>createJournalEntry\<close> ends: refused by the balance check, with the store
  untouched; refused at the header, with no row added; or with the header added and the
  lines added as far as the store took them.
\<close>

lemma createJournalEntry_outcomes:
  assumes "createJournalEntry now input s = (r, s')"
  shows "accounts s' = accounts s \<and>
    ((r = Inl (NotBalanced (totalDebits (in_entries input)) (totalCredits (in_entries input))) \<and> s' = s)
     \<or> ((\<exists>e. r = Inl (DbError e)) \<and> journalEntries s' = journalEntries s \<and> ledgerEntries s' = ledgerEntries s)
     \<or> (\<exists>h ls. journalEntries s' = journalEntries s @ [h] \<and> je_status h = ''posted''
            \<and> je_entryNumber h = generateEntryNumber s
            \<and> ledgerEntries s' = ledgerEntries s @ ls
            \<and> (case r of Inr e \<Rightarrow> e = h \<and> length ls = length (in_entries input)
                        | Inl e \<Rightarrow> (\<exists>d. e = DbError d) \<and> length ls < length (in_entries input))))"
proof (cases "num_gt (num_abs (num_sub (totalDebits (in_entries input)) (totalCredits (in_entries input)))) (fl (1 / 100))")
  case True
  with assms show ?thesis by (auto simp: createJournalEntry_def Let_def)
next
  case False
  let ?v = "\<lparr>ij_entryNumber = generateEntryNumber s, ij_description = in_description input,
                 ij_entryDate = (case in_entryDate input of None \<Rightarrow> now | Some d \<Rightarrow> d),
                 ij_referenceType = in_referenceType input,
                 ij_referenceId = in_referenceId input, ij_userId = in_userId input,
                 ij_notes = in_notes input, ij_status = ''posted''\<rparr>"
  obtain r1 s1 where ins: "insertJournalEntry now ?v s = (r1, s1)"
    by (cases "insertJournalEntry now ?v s")
  note f = insertJournalEntry_frame[OF ins]
  show ?thesis
  proof (cases r1)
    case (Inl e)
    with assms False ins have "r = Inl (DbError e)" "s' = s1"
      by (auto simp: createJournalEntry_def Let_def)
    with f Inl show ?thesis by auto
  next
    case (Inr h)
    obtain r2 s2 where ls: "insertLines now h input (in_entries input) s1 = (r2, s2)"
      by (cases "insertLines now h input (in_entries input) s1")
    note g = insertLines_frame[OF ls]
    from assms False ins Inr ls have rs: "s' = s2" "r = (case r2 of Inl e \<Rightarrow> Inl e | Inr _ \<Rightarrow> Inr h)"
      by (auto simp: createJournalEntry_def Let_def split: sum.splits)
    from g obtain lns where lns: "ledgerEntries s2 = ledgerEntries s1 @ lns"
      "(case r2 of Inl e \<Rightarrow> length lns < length (in_entries input) \<and> (\<exists>d. e = DbError d)
                         | Inr _ \<Rightarrow> length lns = length (in_entries input))" by blast
    have "journalEntries s' = journalEntries s @ [h] \<and> je_status h = ''posted''
            \<and> je_entryNumber h = generateEntryNumber s
            \<and> ledgerEntries s' = ledgerEntries s @ lns
            \<and> (case r of Inr e \<Rightarrow> e = h \<and> length lns = length (in_entries input)
                        | Inl e \<Rightarrow> (\<exists>d. e = DbError d) \<and> length lns < length (in_entries input))"
      using f g Inr rs lns by (auto split: sum.splits)
    moreover have "accounts s' = accounts s" using f g rs by simp
    ultimately show ?thesis by blast
  qed
qed

lemma insertLedgerEntry_ok:
  assumes "toDecimal (il_debit v) = Inr d" and "toDecimal (il_credit v) = Inr c"
    and "constraints s \<longrightarrow> ((dec_pos d \<and> dec_zero c) \<or> (dec_pos c \<and> dec_zero d))
           \<and> il_journalEntryId v \<in> set (map je_id (journalEntries s))
           \<and> il_accountId v \<in> set (map a_id (accounts s))"
    and "\<forall>l \<in> set (ledgerEntries s). le_id l \<le> ledgerSeq s"
  shows "insertLedgerEntry now v s =
           (Inr \<lparr>le_id = ledgerSeq s + 1, le_journalEntryId = il_journalEntryId v,
                  le_accountId = il_accountId v, le_debit = d, le_credit = c,
                  le_description = il_description v, le_createdAt = now\<rparr>,
            s\<lparr>ledgerSeq := ledgerSeq s + 1,
              ledgerEntries := ledgerEntries s @
                [\<lparr>le_id = ledgerSeq s + 1, le_journalEntryId = il_journalEntryId v,
                  le_accountId = il_accountId v, le_debit = d, le_credit = c,
                  le_description = il_description v, le_createdAt = now\<rparr>]\<rparr>)"
proof -
  have "ledgerSeq s + 1 \<notin> set (map le_id (ledgerEntries s))"
    using assms(4) by force
  then show ?thesis
    using assms(1-3) by (auto simp: insertLedgerEntry_def Let_def)
qed

lemma insertJournalEntry_ok:
  assumes "ij_entryNumber v \<notin> set (map je_entryNumber (journalEntries s))"
    and "constraints s \<longrightarrow> ij_userId v \<in> set (users s)"
    and "\<forall>e \<in> set (journalEntries s). je_id e \<le> journalSeq s"
  shows "insertJournalEntry now v s =
           (Inr \<lparr>je_id = journalSeq s + 1, je_entryNumber = ij_entryNumber v, je_entryDate = ij_entryDate v,
                  je_description = ij_description v, je_referenceType = ij_referenceType v,
                  je_referenceId = ij_referenceId v, je_userId = ij_userId v,
                  je_status = ij_status v, je_notes = ij_notes v,
                  je_createdAt = now, je_updatedAt = now\<rparr>,
            s\<lparr>journalSeq := journalSeq s + 1,
              journalEntries := journalEntries s @
                [\<lparr>je_id = journalSeq s + 1, je_entryNumber = ij_entryNumber v, je_entryDate = ij_entryDate v,
                  je_description = ij_description v, je_referenceType = ij_referenceType v,
                  je_referenceId = ij_referenceId v, je_userId = ij_userId v,
                  je_status = ij_status v, je_notes = ij_notes v,
                  je_createdAt = now, je_updatedAt = now\<rparr>]\<rparr>)"
proof -
  have "journalSeq s + 1 \<notin> set (map je_id (journalEntries s))"
    using assms(3) by force
  then show ?thesis
    using assms(1,2) by (auto simp: insertJournalEntry_def Let_def)
qed

lemma toDecimal_zero: "toDecimal ''0.00'' = Inr (Dec 0)"
  by code_simp

lemma parseFloat_zero: "parseFloat ''0.00'' = Num 0"
  by code_simp

lemma find_Some_id: "find P xs = Some a \<Longrightarrow> f a \<in> set (map f xs)"
  by (auto simp: find_Some_iff)

text \<open>The two totals of a sale are the same double.\<close>

lemma saleEntries_balanced:
  assumes "parseFloat (sd_total saleData) = Num vt" and "fl vt = Num vt"
    and "parseFloat (sd_costOfGoodsSold saleData) = Num vc"
  shows "totalDebits (saleEntries a1 a2 a3 a4 saleData) = fl (vt + vc)"
    and "totalCredits (saleEntries a1 a2 a3 a4 saleData) = fl (vt + vc)"
proof -
  have z: "num_add (fl (vt + vc)) (Num 0) = fl (vt + vc)"
    by (rule num_add_zero) (rule fl_idem)
  show "totalDebits (saleEntries a1 a2 a3 a4 saleData) = fl (vt + vc)"
    using assms z by (simp add: totalDebits_def saleEntries_def parseFloat_zero)
  show "totalCredits (saleEntries a1 a2 a3 a4 saleData) = fl (vt + vc)"
    using assms by (simp add: totalCredits_def saleEntries_def parseFloat_zero)
qed

lemma recordSale_missing:
  "getAccountByCode s ''1000'' = None \<or> getAccountByCode s ''4000'' = None
     \<or> getAccountByCode s ''5000'' = None \<or> getAccountByCode s ''1200'' = None \<Longrightarrow>
   recordSale now saleData s = (Inl RequiredAccountsNotFound, s)"
  by (auto simp: recordSale_def split: option.splits)

lemma recordSale_posts:
  fixes now :: timestamp and s :: store and saleData :: SaleData
  assumes cash: "getAccountByCode s ''1000'' = Some cashAccount"
    and rev: "getAccountByCode s ''4000'' = Some salesRevenueAccount"
    and cogs: "getAccountByCode s ''5000'' = Some cogsAccount"
    and inv: "getAccountByCode s ''1200'' = Some inventoryAccount"
    and total: "toDecimal (sd_total saleData) = Inr (Dec t)"
    and cost: "toDecimal (sd_costOfGoodsSold saleData) = Inr (Dec c)"
    and fresh: "generateEntryNumber s \<notin> set (map je_entryNumber (journalEntries s))"
    and jseq: "\<forall>e \<in> set (journalEntries s). je_id e \<le> journalSeq s"
    and lseq: "\<forall>l \<in> set (ledgerEntries s). le_id l \<le> ledgerSeq s"
    and strict: "constraints s \<longrightarrow> sd_userId saleData \<in> set (users s) \<and> t > 0 \<and> c > 0"
  defines "h \<equiv> \<lparr>je_id = journalSeq s + 1, je_entryNumber = generateEntryNumber s, je_entryDate = now,
                  je_description = ''Sale #'' @ showInt (sd_saleId saleData) @ '' - '' @ sd_paymentMethod saleData,
                  je_referenceType = Some ''sale'', je_referenceId = Some (sd_saleId saleData),
                  je_userId = sd_userId saleData, je_status = ''posted'', je_notes = None,
                  je_createdAt = now, je_updatedAt = now\<rparr>"
  shows "recordSale now saleData s =
     (Inr h,
      s\<lparr>journalSeq := journalSeq s + 1, journalEntries := journalEntries s @ [h],
        ledgerSeq := ledgerSeq s + 4,
        ledgerEntries := ledgerEntries s @
          [\<lparr>le_id = ledgerSeq s + 1, le_journalEntryId = journalSeq s + 1,
            le_accountId = a_id cashAccount, le_debit = Dec t, le_credit = Dec 0,
            le_description = Some ''Cash received from sale'', le_createdAt = now\<rparr>,
           \<lparr>le_id = ledgerSeq s + 2, le_journalEntryId = journalSeq s + 1,
            le_accountId = a_id salesRevenueAccount, le_debit = Dec 0, le_credit = Dec t,
            le_description = Some ''Revenue from sale'', le_createdAt = now\<rparr>,
           \<lparr>le_id = ledgerSeq s + 3, le_journalEntryId = journalSeq s + 1,
            le_accountId = a_id cogsAccount, le_debit = Dec c, le_credit = Dec 0,
            le_description = Some ''Cost of goods sold'', le_createdAt = now\<rparr>,
           \<lparr>le_id = ledgerSeq s + 4, le_journalEntryId = journalSeq s + 1,
            le_accountId = a_id inventoryAccount, le_debit = Dec 0, le_credit = Dec c,
            le_description = Some ''Inventory reduction'', le_createdAt = now\<rparr>]\<rparr>)"
proof -
  let ?input = "\<lparr>in_description =
               ''Sale #'' @ showInt (sd_saleId saleData) @ '' - '' @ sd_paymentMethod saleData,
             in_entryDate = None, in_referenceType = Some ''sale'',
             in_referenceId = Some (sd_saleId saleData), in_userId = sd_userId saleData,
             in_notes = None,
             in_entries = saleEntries cashAccount salesRevenueAccount cogsAccount
                            inventoryAccount saleData\<rparr>"
  let ?v = "\<lparr>ij_entryNumber = generateEntryNumber s, ij_description = in_description ?input,
                 ij_entryDate = (case in_entryDate ?input of None \<Rightarrow> now | Some d \<Rightarrow> d),
                 ij_referenceType = in_referenceType ?input,
                 ij_referenceId = in_referenceId ?input, ij_userId = in_userId ?input,
                 ij_notes = in_notes ?input, ij_status = ''posted''\<rparr>"
  have rs: "recordSale now saleData s = createJournalEntry now ?input s"
    using cash rev cogs inv by (simp add: recordSale_def)
  obtain vt where vt: "parseFloat (sd_total saleData) = Num vt" "fl vt = Num vt"
    using toDecimal_parseFloat[OF total] by blast
  obtain vc where vc: "parseFloat (sd_costOfGoodsSold saleData) = Num vc"
    using toDecimal_parseFloat[OF cost] by blast
  have bal: "\<not> num_gt (num_abs (num_sub (totalDebits (in_entries ?input)) (totalCredits (in_entries ?input))))
                (fl (1 / 100))"
    using saleEntries_balanced[OF vt vc] by (simp add: num_sub_self)
  have ids: "a_id cashAccount \<in> set (map a_id (accounts s))"
    "a_id salesRevenueAccount \<in> set (map a_id (accounts s))"
    "a_id cogsAccount \<in> set (map a_id (accounts s))"
    "a_id inventoryAccount \<in> set (map a_id (accounts s))"
    using cash rev cogs inv unfolding getAccountByCode_def by (auto dest: find_Some_id)
  have hv: "insertJournalEntry now ?v s = (Inr h, s\<lparr>journalSeq := journalSeq s + 1, journalEntries := journalEntries s @ [h]\<rparr>)"
    using insertJournalEntry_ok[of ?v s now] fresh jseq strict by (simp add: h_def)
  let ?s1 = "s\<lparr>journalSeq := journalSeq s + 1, journalEntries := journalEntries s @ [h]\<rparr>"
  have hid: "je_id h = journalSeq s + 1" by (simp add: h_def)
  let ?e1 = "\<lparr>el_accountId = a_id cashAccount, el_debit = sd_total saleData, el_credit = ''0.00'',
       el_description = Some ''Cash received from sale''\<rparr>"
  let ?e2 = "\<lparr>el_accountId = a_id salesRevenueAccount, el_debit = ''0.00'', el_credit = sd_total saleData,
       el_description = Some ''Revenue from sale''\<rparr>"
  let ?e3 = "\<lparr>el_accountId = a_id cogsAccount, el_debit = sd_costOfGoodsSold saleData, el_credit = ''0.00'',
       el_description = Some ''Cost of goods sold''\<rparr>"
  let ?e4 = "\<lparr>el_accountId = a_id inventoryAccount, el_debit = ''0.00'',
       el_credit = sd_costOfGoodsSold saleData, el_description = Some ''Inventory reduction''\<rparr>"
  let ?l1 = "\<lparr>le_id = ledgerSeq s + 1, le_journalEntryId = journalSeq s + 1,
            le_accountId = a_id cashAccount, le_debit = Dec t, le_credit = Dec 0,
            le_description = Some ''Cash received from sale'', le_createdAt = now\<rparr>"
  let ?l2 = "\<lparr>le_id = ledgerSeq s + 2, le_journalEntryId = journalSeq s + 1,
            le_accountId = a_id salesRevenueAccount, le_debit = Dec 0, le_credit = Dec t,
            le_description = Some ''Revenue from sale'', le_createdAt = now\<rparr>"
  let ?l3 = "\<lparr>le_id = ledgerSeq s + 3, le_journalEntryId = journalSeq s + 1,
            le_accountId = a_id cogsAccount, le_debit = Dec c, le_credit = Dec 0,
            le_description = Some ''Cost of goods sold'', le_createdAt = now\<rparr>"
  let ?l4 = "\<lparr>le_id = ledgerSeq s + 4, le_journalEntryId = journalSeq s + 1,
            le_accountId = a_id inventoryAccount, le_debit = Dec 0, le_credit = Dec c,
            le_description = Some ''Inventory reduction'', le_createdAt = now\<rparr>"
  let ?s2 = "?s1\<lparr>ledgerSeq := ledgerSeq s + 1, ledgerEntries := ledgerEntries s @ [?l1]\<rparr>"
  let ?s3 = "?s1\<lparr>ledgerSeq := ledgerSeq s + 2, ledgerEntries := ledgerEntries s @ [?l1, ?l2]\<rparr>"
  let ?s4 = "?s1\<lparr>ledgerSeq := ledgerSeq s + 3, ledgerEntries := ledgerEntries s @ [?l1, ?l2, ?l3]\<rparr>"
  let ?s5 = "?s1\<lparr>ledgerSeq := ledgerSeq s + 4, ledgerEntries := ledgerEntries s @ [?l1, ?l2, ?l3, ?l4]\<rparr>"
  have q2: "\<forall>l \<in> set (ledgerEntries ?s2). le_id l \<le> ledgerSeq ?s2" using lseq by force
  have q3: "\<forall>l \<in> set (ledgerEntries ?s3). le_id l \<le> ledgerSeq ?s3" using lseq by force
  have q4: "\<forall>l \<in> set (ledgerEntries ?s4). le_id l \<le> ledgerSeq ?s4" using lseq by force
  have q1: "\<forall>l \<in> set (ledgerEntries ?s1). le_id l \<le> ledgerSeq ?s1" using lseq by simp
  have i1: "insertLedgerEntry now (lineValues h ?input ?e1) ?s1 = (Inr ?l1, ?s2)"
    using insertLedgerEntry_ok[of "lineValues h ?input ?e1" "Dec t" "Dec 0" ?s1 now, OF _ _ _ q1]
      total toDecimal_zero strict ids hid
    by (simp add: lineValues_def)
  have i2: "insertLedgerEntry now (lineValues h ?input ?e2) ?s2 = (Inr ?l2, ?s3)"
    using insertLedgerEntry_ok[of "lineValues h ?input ?e2" "Dec 0" "Dec t" ?s2 now, OF _ _ _ q2]
      total toDecimal_zero strict ids hid
    by (simp add: lineValues_def)
  have i3: "insertLedgerEntry now (lineValues h ?input ?e3) ?s3 = (Inr ?l3, ?s4)"
    using insertLedgerEntry_ok[of "lineValues h ?input ?e3" "Dec c" "Dec 0" ?s3 now, OF _ _ _ q3]
      cost toDecimal_zero strict ids hid
    by (simp add: lineValues_def)
  have i4: "insertLedgerEntry now (lineValues h ?input ?e4) ?s4 = (Inr ?l4, ?s5)"
    using insertLedgerEntry_ok[of "lineValues h ?input ?e4" "Dec 0" "Dec c" ?s4 now, OF _ _ _ q4]
      cost toDecimal_zero strict ids hid
    by (simp add: lineValues_def)
  have lines: "insertLines now h ?input (in_entries ?input) ?s1 = (Inr (), ?s5)"
    using i1 i2 i3 i4 by (simp add: saleEntries_def)
  have "createJournalEntry now ?input s = (Inr h, ?s5)"
    using bal hv lines by (simp add: createJournalEntry_def Let_def)
  with rs show ?thesis by simp
qed

subsection \<open>Auxiliary facts: the lines of a posted entry\<close>

lemma insertLedgerEntry_values:
  "insertLedgerEntry now v s = (Inr l, s1) \<Longrightarrow>
     toDecimal (il_debit v) = Inr (le_debit l) \<and> toDecimal (il_credit v) = Inr (le_credit l)
     \<and> le_journalEntryId l = il_journalEntryId v \<and> le_accountId l = il_accountId v
     \<and> ledgerEntries s1 = ledgerEntries s @ [l]"
  by (auto simp: insertLedgerEntry_def Let_def split: sum.splits if_splits)

lemma insertLines_values:
  "insertLines now je input entries s = (Inr u, s') \<Longrightarrow>
     \<exists>ls. ledgerEntries s' = ledgerEntries s @ ls
        \<and> list_all2 (\<lambda>e l. toDecimal (el_debit e) = Inr (le_debit l)
                         \<and> toDecimal (el_credit e) = Inr (le_credit l)
                         \<and> le_journalEntryId l = je_id je \<and> le_accountId l = el_accountId e)
             entries ls"
proof (induction entries arbitrary: s)
  case Nil
  then show ?case by simp
next
  case (Cons e rest)
  from Cons.prems obtain l s1 where
    ins: "insertLedgerEntry now (lineValues je input e) s = (Inr l, s1)"
    and rec: "insertLines now je input rest s1 = (Inr u, s')"
    by (auto split: prod.splits sum.splits)
  from Cons.IH[OF rec] obtain ls where ls: "ledgerEntries s' = ledgerEntries s1 @ ls"
    "list_all2 (\<lambda>e l. toDecimal (el_debit e) = Inr (le_debit l)
                         \<and> toDecimal (el_credit e) = Inr (le_credit l)
                         \<and> le_journalEntryId l = je_id je \<and> le_accountId l = el_accountId e)
             rest ls" by blast
  from insertLedgerEntry_values[OF ins] ls
  have "ledgerEntries s' = ledgerEntries s @ (l # ls)
        \<and> list_all2 (\<lambda>e l. toDecimal (el_debit e) = Inr (le_debit l)
                         \<and> toDecimal (el_credit e) = Inr (le_credit l)
                         \<and> le_journalEntryId l = je_id je \<and> le_accountId l = el_accountId e)
             (e # rest) (l # ls)"
    by (simp add: lineValues_def)
  then show ?case by blast
qed

subsection \<open>Auxiliary facts: entry numbers\<close>

lemma lastEntry_sorted:
  "sorted_wrt (<) (map je_id es) \<Longrightarrow> es \<noteq> [] \<Longrightarrow> lastEntry es = Some (last es)"
proof (induction es)
  case Nil
  then show ?case by simp
next
  case (Cons e es)
  show ?case
  proof (cases "es = []")
    case True
    then show ?thesis by simp
  next
    case False
    with Cons have le: "lastEntry es = Some (last es)" by simp
    have "je_id e < je_id (last es)" using Cons.prems(1) False by simp
    with le False show ?thesis by simp
  qed
qed

lemma first_entry_number: "''JE-0001'' = ''JE-'' @ padStart 4 CHR ''0'' (showInt (int (Suc 0)))"
  by code_simp

lemma generateEntryNumber_numbered:
  assumes "numbered s"
  shows "generateEntryNumber s
           = ''JE-'' @ padStart 4 CHR ''0'' (showInt (int (Suc (length (journalEntries s)))))"
proof (cases "journalEntries s = []")
  case True
  then show ?thesis by (simp add: generateEntryNumber_def first_entry_number)
next
  case False
  let ?es = "journalEntries s" and ?n = "length (journalEntries s)"
  let ?f = "\<lambda>k. ''JE-'' @ padStart 4 CHR ''0'' (showInt (int k))"
  have sorted: "sorted_wrt (<) (map je_id ?es)" and nums: "map je_entryNumber ?es = map ?f [1..<Suc ?n]"
    using assms by (simp_all add: numbered_def)
  have le: "lastEntry ?es = Some (last ?es)" by (rule lastEntry_sorted[OF sorted False])
  have n0: "Suc 0 \<le> ?n" using False by (cases "journalEntries s") auto
  have "je_entryNumber (last ?es) = last (map je_entryNumber ?es)"
    using False by (simp add: last_map)
  also have "\<dots> = last (map ?f [1..<Suc ?n])" by (simp only: nums)
  also have "\<dots> = ?f ?n" using n0 by (simp add: last_map)
  finally have "lastNumberOf (je_entryNumber (last ?es)) = Some (int ?n)"
    by (simp only: lastNumberOf_entryNumber)
  then show ?thesis by (simp add: generateEntryNumber_def le add.commute)
qed

lemma createJournalEntry_journal:
  assumes "createJournalEntry now input s = (r, s')"
  shows "(journalEntries s' = journalEntries s \<and> journalSeq s \<le> journalSeq s' \<and> (\<forall>e. r \<noteq> Inr e))
       \<or> (\<exists>h. journalEntries s' = journalEntries s @ [h] \<and> je_entryNumber h = generateEntryNumber s
              \<and> je_id h = journalSeq s + 1 \<and> journalSeq s' = journalSeq s + 1
              \<and> (\<forall>e. r = Inr e \<longrightarrow> e = h))"
proof (cases "num_gt (num_abs (num_sub (totalDebits (in_entries input)) (totalCredits (in_entries input)))) (fl (1 / 100))")
  case True
  with assms show ?thesis by (auto simp: createJournalEntry_def Let_def)
next
  case False
  let ?v = "\<lparr>ij_entryNumber = generateEntryNumber s, ij_description = in_description input,
                 ij_entryDate = (case in_entryDate input of None \<Rightarrow> now | Some d \<Rightarrow> d),
                 ij_referenceType = in_referenceType input,
                 ij_referenceId = in_referenceId input, ij_userId = in_userId input,
                 ij_notes = in_notes input, ij_status = ''posted''\<rparr>"
  obtain r1 s1 where ins: "insertJournalEntry now ?v s = (r1, s1)"
    by (cases "insertJournalEntry now ?v s")
  note f = insertJournalEntry_frame[OF ins]
  show ?thesis
  proof (cases r1)
    case (Inl e)
    with assms False ins have "r = Inl (DbError e)" "s' = s1"
      by (auto simp: createJournalEntry_def Let_def)
    with f Inl show ?thesis by auto
  next
    case (Inr h)
    obtain r2 s2 where ls: "insertLines now h input (in_entries input) s1 = (r2, s2)"
      by (cases "insertLines now h input (in_entries input) s1")
    note g = insertLines_frame[OF ls]
    from assms False ins Inr ls have rs: "s' = s2" "r = (case r2 of Inl e \<Rightarrow> Inl e | Inr _ \<Rightarrow> Inr h)"
      by (auto simp: createJournalEntry_def Let_def split: sum.splits)
    have "journalEntries s' = journalEntries s @ [h] \<and> je_entryNumber h = generateEntryNumber s
              \<and> je_id h = journalSeq s + 1 \<and> journalSeq s' = journalSeq s + 1
              \<and> (\<forall>e. r = Inr e \<longrightarrow> e = h)"
      using f g Inr rs by (auto split: sum.splits)
    then show ?thesis by blast
  qed
qed

lemma numbered_append:
  assumes "numbered s" and "journalEntries s' = journalEntries s @ [h]"
    and "je_entryNumber h = generateEntryNumber s" and "je_id h = journalSeq s + 1"
    and "journalSeq s' = journalSeq s + 1"
  shows "numbered s'"
proof -
  let ?f = "\<lambda>k. ''JE-'' @ padStart 4 CHR ''0'' (showInt (int k))"
  let ?n = "length (journalEntries s)"
  have nums: "map je_entryNumber (journalEntries s) = map ?f [1..<Suc ?n]"
    and sorted: "sorted_wrt (<) (map je_id (journalEntries s))"
    and bound: "list_all (\<lambda>e. je_id e \<le> journalSeq s) (journalEntries s)"
    using assms(1) by (simp_all add: numbered_def)
  have hn: "je_entryNumber h = ?f (Suc ?n)"
    using assms(3) generateEntryNumber_numbered[OF assms(1)] by simp
  have a: "map je_entryNumber (journalEntries s') = map ?f [1..<Suc (length (journalEntries s'))]"
    using nums hn assms(2) by simp
  have b: "sorted_wrt (<) (map je_id (journalEntries s'))"
    using sorted bound assms(2,4) by (auto simp: sorted_wrt_append list_all_iff)
  have c: "list_all (\<lambda>e. je_id e \<le> journalSeq s') (journalEntries s')"
    using bound assms(2,4,5) by (auto simp: list_all_iff)
  from a b c show ?thesis by (simp add: numbered_def)
qed

lemma numbered_same:
  assumes "numbered s" and "journalEntries s' = journalEntries s" and "journalSeq s \<le> journalSeq s'"
  shows "numbered s'"
  using assms by (auto simp: numbered_def list_all_iff)

lemma numbered_createJournalEntry:
  assumes "numbered s"
  shows "numbered (snd (createJournalEntry now input s))"
proof -
  obtain r s' where c: "createJournalEntry now input s = (r, s')"
    by (cases "createJournalEntry now input s")
  from createJournalEntry_journal[OF c] show ?thesis
    using assms c by (auto intro: numbered_same numbered_append)
qed

lemma numbered_recordSale:
  assumes "numbered s"
  shows "numbered (snd (recordSale now saleData s))"
  using assms numbered_createJournalEntry[OF assms]
  by (auto simp: recordSale_def split: option.splits)

lemma numbered_void:
  assumes "numbered s"
  shows "numbered (snd (voidJournalEntry i s))"
proof -
  let ?g = "\<lambda>e. if je_id e = i then e\<lparr>je_status := ''void''\<rparr> else e"
  have a: "map je_entryNumber (map ?g (journalEntries s)) = map je_entryNumber (journalEntries s)"
    by (induction "journalEntries s") (auto simp: comp_def)
  have b: "map je_id (map ?g (journalEntries s)) = map je_id (journalEntries s)"
    by (auto simp: comp_def)
  have a': "map (je_entryNumber \<circ> ?g) (journalEntries s) = map je_entryNumber (journalEntries s)"
    by auto
  have b': "map (je_id \<circ> ?g) (journalEntries s) = map je_id (journalEntries s)"
    by auto
  show ?thesis
    using assms by (auto simp: numbered_def voidJournalEntry_def Let_def a' b' list_all_iff)
qed

lemma insertAccount_journal:
  "journalEntries (snd (insertAccount now v s)) = journalEntries s
   \<and> journalSeq (snd (insertAccount now v s)) = journalSeq s"
  by (simp add: insertAccount_def Let_def)

lemma createAccount_journal:
  "journalEntries (snd (createAccount now v s)) = journalEntries s
   \<and> journalSeq (snd (createAccount now v s)) = journalSeq s"
proof -
  obtain r s1 where i: "insertAccount now v s = (r, s1)" by (cases "insertAccount now v s")
  with insertAccount_journal[of now v s] show ?thesis
    by (cases r) (simp_all add: createAccount_def)
qed

lemma createAccounts_journal:
  "journalEntries (snd (createAccounts now vs s)) = journalEntries s
   \<and> journalSeq (snd (createAccounts now vs s)) = journalSeq s"
proof (induction vs arbitrary: s)
  case Nil
  then show ?case by simp
next
  case (Cons v vs)
  show ?case
    using createAccount_journal[of now v s] Cons.IH[of "snd (createAccount now v s)"]
    by (auto split: prod.splits sum.splits)
qed

lemma numbered_handle: "numbered s \<Longrightarrow> numbered (handle req s)"
proof (cases req)
  case (Post now input)
  assume "numbered s"
  then show ?thesis using Post by (simp add: numbered_createJournalEntry)
next
  case (Sale now saleData)
  assume "numbered s"
  then show ?thesis using Sale by (simp add: numbered_recordSale)
next
  case (Void i)
  assume "numbered s"
  then show ?thesis using Void by (simp add: numbered_void)
next
  case (NewAccount now v)
  assume "numbered s"
  then show ?thesis using NewAccount createAccount_journal[of now v s]
    by (auto intro: numbered_same)
next
  case (Seed now)
  assume "numbered s"
  then show ?thesis using Seed createAccounts_journal[of now defaultAccounts s]
    by (auto simp: initializeChartOfAccounts_def Let_def intro: numbered_same)
qed

lemma numbered_run: "numbered s \<Longrightarrow> numbered (run reqs s)"
  unfolding run_def by (induction reqs arbitrary: s) (simp_all add: numbered_handle)

lemma numbered_empty: "journalEntries s = [] \<Longrightarrow> numbered s"
  by (simp add: numbered_def)

lemma numbered_parts:
  assumes "numbered s"
  shows "map (\<lambda>e. lastNumberOf (je_entryNumber e)) (journalEntries s)
           = map (\<lambda>k. Some (int k)) [1..<Suc (length (journalEntries s))]"
proof -
  have "map (\<lambda>e. lastNumberOf (je_entryNumber e)) (journalEntries s)
          = map lastNumberOf (map je_entryNumber (journalEntries s))" by (simp add: comp_def)
  also have "\<dots> = map lastNumberOf (map (\<lambda>k. ''JE-'' @ padStart 4 CHR ''0'' (showInt (int k)))
            [1..<Suc (length (journalEntries s))])"
    using assms by (simp only: numbered_def)
  also have "\<dots> = map (\<lambda>k. Some (int k)) [1..<Suc (length (journalEntries s))]"
    by (simp only: map_map comp_def lastNumberOf_entryNumber)
  finally show ?thesis .
qed

lemma numbered_distinct:
  assumes "numbered s"
  shows "distinct (map je_entryNumber (journalEntries s))"
proof -
  have "distinct (map (\<lambda>k. Some (int k)) [1..<Suc (length (journalEntries s))])"
    by (simp add: distinct_map inj_on_def)
  then have "distinct (map lastNumberOf (map je_entryNumber (journalEntries s)))"
    using numbered_parts[OF assms] by (simp add: comp_def)
  then show ?thesis
    using distinct_map[of lastNumberOf "map je_entryNumber (journalEntries s)"] by blast
qed

text \<open>In such a journal the next number is unused and the next id is free.\<close>

lemma numbered_fresh:
  assumes "numbered s"
  shows "generateEntryNumber s \<notin> set (map je_entryNumber (journalEntries s))"
    and "\<forall>e \<in> set (journalEntries s). je_id e \<le> journalSeq s"
proof -
  let ?n = "length (journalEntries s)"
  let ?f = "\<lambda>k. ''JE-'' @ padStart 4 CHR ''0'' (showInt (int k))"
  show "\<forall>e \<in> set (journalEntries s). je_id e \<le> journalSeq s"
    using assms by (simp add: numbered_def list_all_iff)
  show "generateEntryNumber s \<notin> set (map je_entryNumber (journalEntries s))"
  proof
    assume "generateEntryNumber s \<in> set (map je_entryNumber (journalEntries s))"
    then have "?f (Suc ?n) \<in> set (map je_entryNumber (journalEntries s))"
      by (simp only: generateEntryNumber_numbered[OF assms])
    then have "lastNumberOf (?f (Suc ?n))
                 \<in> set (map lastNumberOf (map je_entryNumber (journalEntries s)))"
      by (simp only: set_map image_eqI)
    then have "Some (int (Suc ?n)) \<in> set (map (\<lambda>k. Some (int k)) [1..<Suc ?n])"
      using numbered_parts[OF assms] by (simp only: lastNumberOf_entryNumber map_map comp_def)
    then show False by auto
  qed
qed

subsection \<open>Auxiliary facts: seeding the chart of accounts\<close>

lemma insertAccount_accounts:
  "insertAccount now v s = (r, s1) \<Longrightarrow>
     (case r of Inl e \<Rightarrow> accounts s1 = accounts s
              | Inr a \<Rightarrow> accounts s1 = accounts s @ [a]
                  \<and> a_isActive a = (case ia_isActive v of None \<Rightarrow> True | Some b \<Rightarrow> b))"
  by (auto simp: insertAccount_def Let_def split: if_splits)

lemma createAccounts_prefix:
  "\<exists>new. accounts (snd (createAccounts now vs s)) = accounts s @ new"
proof (induction vs arbitrary: s)
  case Nil
  then show ?case by simp
next
  case (Cons v vs)
  obtain r s1 where i: "insertAccount now v s = (r, s1)" by (cases "insertAccount now v s")
  show ?case
  proof (cases r)
    case (Inl e)
    with i insertAccount_accounts[OF i] show ?thesis by (simp add: createAccount_def)
  next
    case (Inr a)
    with i insertAccount_accounts[OF i] Cons.IH[of s1] show ?thesis
      by (auto simp: createAccount_def)
  qed
qed

lemma defaultAccounts_first:
  "\<exists>v rest. defaultAccounts = v # rest \<and> ia_code v = ''1000'' \<and> ia_isActive v = None
       \<and> ia_parentAccountId v = None"
  by (simp add: defaultAccounts_def mkAccount_def)

text \<open>
  Seeding twice leaves the accounts that seeding once leaves, in a store whose counter is
  not behind the ids in use: either an active account exists after the first call, or the
  first call was refused at its first insert and so is the second.
\<close>

lemma initializeChartOfAccounts_twice:
  assumes seq: "\<forall>a \<in> set (accounts s). a_id a \<le> accountsSeq s"
  shows "accounts (snd (initializeChartOfAccounts now2 (snd (initializeChartOfAccounts now1 s))))
           = accounts (snd (initializeChartOfAccounts now1 s))"
proof (cases "getAllAccounts s = []")
  case False
  then show ?thesis by (simp add: initializeChartOfAccounts_def)
next
  case True
  obtain v rest where d: "defaultAccounts = v # rest" and code: "ia_code v = ''1000''"
    and act: "ia_isActive v = None" and par: "ia_parentAccountId v = None"
    using defaultAccounts_first by blast
  have pk: "accountsSeq s + 1 \<notin> set (map a_id (accounts s))"
    "accountsSeq s + 1 + 1 \<notin> set (map a_id (accounts s))"
    using seq by force+
  show ?thesis
  proof (cases "ia_code v \<in> set (map a_code (accounts s))")
    case dup: True
    let ?s1 = "s\<lparr>accountsSeq := accountsSeq s + 1\<rparr>"
    have i1: "insertAccount now1 v s = (Inl (UniqueViolation ''accounts_code_unique''), ?s1)"
      using pk dup by (simp add: insertAccount_def Let_def)
    have r1: "snd (initializeChartOfAccounts now1 s) = ?s1"
      using True i1 by (simp add: initializeChartOfAccounts_def d createAccount_def)
    have g: "getAllAccounts ?s1 = []" using True by (simp add: getAllAccounts_def)
    have i2: "insertAccount now2 v ?s1
                = (Inl (UniqueViolation ''accounts_code_unique''), ?s1\<lparr>accountsSeq := accountsSeq s + 1 + 1\<rparr>)"
      using pk dup by (simp add: insertAccount_def Let_def)
    have "accounts (snd (initializeChartOfAccounts now2 ?s1)) = accounts ?s1"
      using g i2 by (simp add: initializeChartOfAccounts_def d createAccount_def)
    with r1 show ?thesis by simp
  next
    case fresh: False
    let ?a = "\<lparr>a_id = accountsSeq s + 1, a_code = ia_code v, a_name = ia_name v, a_type = ia_type v,
                  a_subtype = ia_subtype v, a_normalBalance = ia_normalBalance v,
                  a_description = ia_description v,
                  a_isActive = True,
                  a_isSystem = (case ia_isSystem v of None \<Rightarrow> False | Some b \<Rightarrow> b),
                  a_parentAccountId = ia_parentAccountId v, a_createdAt = now1\<rparr>"
    let ?s1 = "s\<lparr>accountsSeq := accountsSeq s + 1, accounts := accounts s @ [?a]\<rparr>"
    have i1: "insertAccount now1 v s = (Inr ?a, ?s1)"
      using pk fresh act par by (simp add: insertAccount_def Let_def)
    have r1: "snd (initializeChartOfAccounts now1 s) = snd (createAccounts now1 rest ?s1)"
      using True i1 by (simp add: initializeChartOfAccounts_def d createAccount_def)
    obtain new where "accounts (snd (createAccounts now1 rest ?s1)) = accounts ?s1 @ new"
      using createAccounts_prefix by blast
    then have "?a \<in> set (accounts (snd (createAccounts now1 rest ?s1)))" by simp
    moreover have "a_isActive ?a" by simp
    ultimately have "\<exists>x \<in> set (accounts (snd (createAccounts now1 rest ?s1))). a_isActive x"
      by (rule bexI[rotated])
    then have "getAllAccounts (snd (createAccounts now1 rest ?s1)) \<noteq> []"
      by (simp add: getAllAccounts_def filter_empty_conv)
    then have "getAllAccounts (snd (initializeChartOfAccounts now1 s)) \<noteq> []"
      by (simp add: r1)
    then show ?thesis
      by (simp add: initializeChartOfAccounts_def[of now2])
  qed
qed

lemma insertAccount_distinct_codes:
  "distinct (map a_code (accounts s)) \<Longrightarrow>
     distinct (map a_code (accounts (snd (insertAccount now v s))))"
  by (auto simp: insertAccount_def Let_def)

lemma createAccounts_distinct_codes:
  "distinct (map a_code (accounts s)) \<Longrightarrow>
     distinct (map a_code (accounts (snd (createAccounts now vs s))))"
proof (induction vs arbitrary: s)
  case Nil
  then show ?case by simp
next
  case (Cons v vs)
  obtain r s1 where i: "insertAccount now v s = (r, s1)" by (cases "insertAccount now v s")
  have d: "distinct (map a_code (accounts s1))"
    using insertAccount_distinct_codes[OF Cons.prems, of now v] i by simp
  show ?case
  proof (cases r)
    case (Inl e)
    with i d show ?thesis by (simp add: createAccount_def)
  next
    case (Inr a)
    with i Cons.IH[OF d] show ?thesis by (simp add: createAccount_def)
  qed
qed

text \<open>Seeding never makes two accounts share a code.\<close>

lemma initializeChartOfAccounts_distinct_codes:
  "distinct (map a_code (accounts s)) \<Longrightarrow>
     distinct (map a_code (accounts (snd (initializeChartOfAccounts now s))))"
  by (simp add: initializeChartOfAccounts_def Let_def createAccounts_distinct_codes)

subsection \<open>Auxiliary facts: what the store accepts\<close>

lemma insertJournalEntry_accepted:
  assumes "headerAccepted s (ij_entryNumber v) (ij_userId v)"
  shows "insertJournalEntry now v s =
           (Inr \<lparr>je_id = journalSeq s + 1, je_entryNumber = ij_entryNumber v, je_entryDate = ij_entryDate v,
                  je_description = ij_description v, je_referenceType = ij_referenceType v,
                  je_referenceId = ij_referenceId v, je_userId = ij_userId v,
                  je_status = ij_status v, je_notes = ij_notes v,
                  je_createdAt = now, je_updatedAt = now\<rparr>,
            s\<lparr>journalSeq := journalSeq s + 1,
              journalEntries := journalEntries s @
                [\<lparr>je_id = journalSeq s + 1, je_entryNumber = ij_entryNumber v, je_entryDate = ij_entryDate v,
                  je_description = ij_description v, je_referenceType = ij_referenceType v,
                  je_referenceId = ij_referenceId v, je_userId = ij_userId v,
                  je_status = ij_status v, je_notes = ij_notes v,
                  je_createdAt = now, je_updatedAt = now\<rparr>]\<rparr>)"
  using assms by (auto simp: insertJournalEntry_def headerAccepted_def Let_def)

lemma insertJournalEntry_refused:
  assumes "\<not> headerAccepted s (ij_entryNumber v) (ij_userId v)"
  shows "\<exists>e. insertJournalEntry now v s = (Inl e, s\<lparr>journalSeq := journalSeq s + 1\<rparr>)"
  using assms by (auto simp: insertJournalEntry_def headerAccepted_def Let_def)

lemma insertLedgerEntry_accepted:
  assumes ok: "lineAccepted s e"
    and same: "constraints s0 = constraints s" "accounts s0 = accounts s"
    and inv: "\<forall>l \<in> set (ledgerEntries s0). le_id l \<le> ledgerSeq s0"
    and hid: "constraints s0 \<longrightarrow> je_id h \<in> set (map je_id (journalEntries s0))"
  shows "\<exists>l s'. insertLedgerEntry now (lineValues h body e) s0 = (Inr l, s')
            \<and> (\<forall>l \<in> set (ledgerEntries s'). le_id l \<le> ledgerSeq s')"
proof -
  obtain d c where d: "toDecimal (el_debit e) = Inr d" and c: "toDecimal (el_credit e) = Inr c"
    and cs: "constraints s \<longrightarrow> ((dec_pos d \<and> dec_zero c) \<or> (dec_pos c \<and> dec_zero d))
               \<and> el_accountId e \<in> set (map a_id (accounts s))"
    using ok by (auto simp: lineAccepted_def split: sum.splits)
  let ?v = "lineValues h body e"
  let ?l = "\<lparr>le_id = ledgerSeq s0 + 1, le_journalEntryId = il_journalEntryId ?v,
                  le_accountId = il_accountId ?v, le_debit = d, le_credit = c,
                  le_description = il_description ?v, le_createdAt = now\<rparr>"
  let ?s' = "s0\<lparr>ledgerSeq := ledgerSeq s0 + 1, ledgerEntries := ledgerEntries s0 @ [?l]\<rparr>"
  have "insertLedgerEntry now ?v s0 = (Inr ?l, ?s')"
    using d c cs same hid by (intro insertLedgerEntry_ok[OF _ _ _ inv]) (simp_all add: lineValues_def)
  moreover have "\<forall>l \<in> set (ledgerEntries ?s'). le_id l \<le> ledgerSeq ?s'"
    using inv by force
  ultimately show ?thesis by blast
qed

lemma insertLedgerEntry_refused:
  assumes "\<not> lineAccepted s e" and "constraints s0 = constraints s" and "accounts s0 = accounts s"
  shows "\<exists>err s'. insertLedgerEntry now (lineValues h body e) s0 = (Inl err, s')"
  using assms
  by (auto simp: insertLedgerEntry_def lineAccepted_def lineValues_def Let_def split: sum.splits)

lemma insertLines_accepted:
  assumes "\<forall>x \<in> set es. lineAccepted s x"
    and "constraints s0 = constraints s" and "accounts s0 = accounts s"
    and "\<forall>l \<in> set (ledgerEntries s0). le_id l \<le> ledgerSeq s0"
    and "constraints s0 \<longrightarrow> je_id h \<in> set (map je_id (journalEntries s0))"
  shows "\<exists>s'. insertLines now h body es s0 = (Inr (), s')"
  using assms
proof (induction es arbitrary: s0)
  case Nil
  then show ?case by simp
next
  case (Cons e es)
  from Cons.prems(1) have e: "lineAccepted s e" and rest: "\<forall>x \<in> set es. lineAccepted s x" by simp_all
  from insertLedgerEntry_accepted[OF e Cons.prems(2,3,4,5), of now body]
  obtain l s1 where ins: "insertLedgerEntry now (lineValues h body e) s0 = (Inr l, s1)"
    and inv1: "\<forall>l \<in> set (ledgerEntries s1). le_id l \<le> ledgerSeq s1" by blast
  note f = insertLedgerEntry_frame[OF ins]
  have "\<exists>s'. insertLines now h body es s1 = (Inr (), s')"
    using f Cons.prems(2,3,5) by (intro Cons.IH[OF rest _ _ inv1]) simp_all
  with ins show ?case by simp
qed

lemma insertLines_append:
  "insertLines now h body (pre @ rest) s0 =
     (case insertLines now h body pre s0 of
        (Inl x, s') \<Rightarrow> (Inl x, s')
      | (Inr _, s') \<Rightarrow> insertLines now h body rest s')"
  by (induction pre arbitrary: s0) (auto split: prod.splits sum.splits)

text \<open>
  After the header, \<open>createJournalEntry\<close> inserts the lines the store accepts, up to the
  first one it refuses.
\<close>

lemma createJournalEntry_lines_written:
  fixes now :: timestamp and body :: JournalEntryInput and s :: store
  defines "h \<equiv> \<lparr>je_id = journalSeq s + 1, je_entryNumber = generateEntryNumber s,
                  je_entryDate = (case in_entryDate body of None \<Rightarrow> now | Some d \<Rightarrow> d),
                  je_description = in_description body, je_referenceType = in_referenceType body,
                  je_referenceId = in_referenceId body, je_userId = in_userId body,
                  je_status = ''posted'', je_notes = in_notes body,
                  je_createdAt = now, je_updatedAt = now\<rparr>"
  assumes bal: "\<not> num_gt (num_abs (num_sub (totalDebits (in_entries body)) (totalCredits (in_entries body))))
                     (fl (1 / 100))"
    and hdr: "headerAccepted s (generateEntryNumber s) (in_userId body)"
    and inv: "\<forall>l \<in> set (ledgerEntries s). le_id l \<le> ledgerSeq s"
    and pre: "\<forall>x \<in> set pre. lineAccepted s x"
    and ents: "in_entries body = pre @ rest"
    and rest: "rest = [] \<or> \<not> lineAccepted s (hd rest)"
  shows "(if rest = [] then fst (createJournalEntry now body s) = Inr h
          else (\<exists>err. fst (createJournalEntry now body s) = Inl (DbError err)))
         \<and> journalEntries (snd (createJournalEntry now body s)) = journalEntries s @ [h]
         \<and> (\<exists>ls. ledgerEntries (snd (createJournalEntry now body s)) = ledgerEntries s @ ls
               \<and> list_all2 (\<lambda>e l. toDecimal (el_debit e) = Inr (le_debit l)
                                 \<and> toDecimal (el_credit e) = Inr (le_credit l)
                                 \<and> le_journalEntryId l = journalSeq s + 1
                                 \<and> le_accountId l = el_accountId e) pre ls)"
proof -
  let ?v = "\<lparr>ij_entryNumber = generateEntryNumber s, ij_description = in_description body,
                 ij_entryDate = (case in_entryDate body of None \<Rightarrow> now | Some d \<Rightarrow> d),
                 ij_referenceType = in_referenceType body,
                 ij_referenceId = in_referenceId body, ij_userId = in_userId body,
                 ij_notes = in_notes body, ij_status = ''posted''\<rparr>"
  let ?s1 = "s\<lparr>journalSeq := journalSeq s + 1, journalEntries := journalEntries s @ [h]\<rparr>"
  have hv: "insertJournalEntry now ?v s = (Inr h, ?s1)"
    using insertJournalEntry_accepted[of s ?v now] hdr by (simp add: h_def)
  have hid: "je_id h = journalSeq s + 1" by (simp add: h_def)
  have "\<exists>s2. insertLines now h body pre ?s1 = (Inr (), s2)"
    using pre inv by (intro insertLines_accepted[where s = s]) (simp_all add: hid)
  then obtain s2 where p: "insertLines now h body pre ?s1 = (Inr (), s2)" by blast
  note pf = insertLines_frame[OF p]
  from insertLines_values[OF p] obtain ls where
    ls: "ledgerEntries s2 = ledgerEntries s @ ls"
    and all: "list_all2 (\<lambda>e l. toDecimal (el_debit e) = Inr (le_debit l)
                                 \<and> toDecimal (el_credit e) = Inr (le_credit l)
                                 \<and> le_journalEntryId l = journalSeq s + 1
                                 \<and> le_accountId l = el_accountId e) pre ls"
    by (auto simp: hid)
  have js2: "journalEntries s2 = journalEntries s @ [h]" using pf by simp
  have cj: "createJournalEntry now body s =
              (case insertLines now h body rest s2 of
                 (Inl e, s3) \<Rightarrow> (Inl e, s3)
               | (Inr _, s3) \<Rightarrow> (Inr h, s3))"
    using bal hv p by (simp add: createJournalEntry_def Let_def ents insertLines_append)
  show ?thesis
  proof (cases rest)
    case Nil
    then have "createJournalEntry now body s = (Inr h, s2)" using cj by simp
    with Nil js2 ls all show ?thesis by auto
  next
    case (Cons e post)
    with rest have "\<not> lineAccepted s e" by simp
    from insertLedgerEntry_refused[OF this, of s2 now h body] pf
    obtain err s3 where r: "insertLedgerEntry now (lineValues h body e) s2 = (Inl err, s3)"
      by auto
    note rf = insertLedgerEntry_frame[OF r]
    have "createJournalEntry now body s = (Inl (DbError err), s3)"
      using cj Cons r by simp
    with Cons js2 ls all rf show ?thesis by auto
  qed
qed

subsection \<open>Auxiliary facts: the examples\<close>

lemma postJournalEntries_balanced:
  assumes "createJournalEntrySchema body = []"
    and "\<not> num_ge (num_abs (num_sub (totalDebits (in_entries body)) (totalCredits (in_entries body))))
              (fl (1 / 100))"
  shows "postJournalEntries now body s =
           (case createJournalEntry now body s of
              (Inl e, s1) \<Rightarrow> (Failed e, s1)
            | (Inr entry, s1) \<Rightarrow> (Posted entry, s1))"
  using assms by (simp add: postJournalEntries_def Let_def)

lemma createJournalEntry_balanced:
  assumes "\<not> num_gt (num_abs (num_sub (totalDebits (in_entries input)) (totalCredits (in_entries input))))
              (fl (1 / 100))"
  shows "createJournalEntry now input s =
           (case insertJournalEntry now
                \<lparr>ij_entryNumber = generateEntryNumber s, ij_description = in_description input,
                 ij_entryDate = (case in_entryDate input of None \<Rightarrow> now | Some d \<Rightarrow> d),
                 ij_referenceType = in_referenceType input,
                 ij_referenceId = in_referenceId input, ij_userId = in_userId input,
                 ij_notes = in_notes input, ij_status = ''posted''\<rparr> s of
              (Inl e, s1) \<Rightarrow> (Inl (DbError e), s1)
            | (Inr journalEntry, s1) \<Rightarrow>
                (case insertLines now journalEntry input (in_entries input) s1 of
                   (Inl e, s2) \<Rightarrow> (Inl e, s2)
                 | (Inr _, s2) \<Rightarrow> (Inr journalEntry, s2)))"
  using assms by (simp add: createJournalEntry_def Let_def)




lemma totals_two_sided:
  "totalDebits (in_entries (manualEntry [line 1 ''5.00'' ''5.00'', line 3 ''5.00'' ''5.00''])) = Num 10"
  "totalCredits (in_entries (manualEntry [line 1 ''5.00'' ''5.00'', line 3 ''5.00'' ''5.00''])) = Num 10"
  by code_simp+

lemma totals_unknown_account:
  "totalDebits (in_entries (manualEntry [line 1 ''5.00'' ''0.00'', line 99 ''0.00'' ''5.00''])) = Num 5"
  "totalCredits (in_entries (manualEntry [line 1 ''5.00'' ''0.00'', line 99 ''0.00'' ''5.00''])) = Num 5"
  by code_simp+


lemma check_equal: "\<not> num_ge (num_abs (num_sub (Num 10) (Num 10))) (fl (1 / 100))"
  "\<not> num_ge (num_abs (num_sub (Num 5) (Num 5))) (fl (1 / 100))"
  by code_simp+


subsection \<open>Posting: the balance check\<close>




subsection \<open>Balances\<close>

text \<open>
  Claim C4. For an account that exists, \<open>getAccountBalance\<close> returns as \<open>debitTotal\<close> the
  sum of the debits of the account's lines and as \<open>creditTotal\<close> the sum of their credits,
  each as the number \<open>parseFloat\<close> reads from the store's sum, and as \<open>balance\<close> the
  difference \<open>debitTotal - creditTotal\<close> when the account's normal balance is \<open>debit\<close> and
  \<open>creditTotal - debitTotal\<close> when it is \<open>credit\<close>. Whenever the two sums and their difference
  are doubles, as in the example of 150 and 30, the three numbers are the sums and their
  difference themselves.
\<close>

theorem getAccountBalance_by_normal_balance:
  "getAccount s accountId = Some a \<Longrightarrow>
   debitTotal (getAccountBalance s accountId asOfDate)
      = number_of_decimal
          (dec_sum (map le_debit (filter (\<lambda>l. le_accountId l = accountId) (ledgerEntries s))))
   \<and> creditTotal (getAccountBalance s accountId asOfDate)
      = number_of_decimal
          (dec_sum (map le_credit (filter (\<lambda>l. le_accountId l = accountId) (ledgerEntries s))))
   \<and> (a_normalBalance a = ''debit'' \<longrightarrow>
        balance (getAccountBalance s accountId asOfDate)
          = num_sub (debitTotal (getAccountBalance s accountId asOfDate))
                    (creditTotal (getAccountBalance s accountId asOfDate)))
   \<and> (a_normalBalance a = ''credit'' \<longrightarrow>
        balance (getAccountBalance s accountId asOfDate)
          = num_sub (creditTotal (getAccountBalance s accountId asOfDate))
                    (debitTotal (getAccountBalance s accountId asOfDate)))
   \<and> (\<forall>d c.
         dec_sum (map le_debit (filter (\<lambda>l. le_accountId l = accountId) (ledgerEntries s))) = Dec d
         \<and> dec_sum (map le_credit (filter (\<lambda>l. le_accountId l = accountId) (ledgerEntries s))) = Dec c
         \<and> fl d = Num d \<and> fl c = Num c \<and> fl (d - c) = Num (d - c) \<longrightarrow>
         debitTotal (getAccountBalance s accountId asOfDate) = Num d
         \<and> creditTotal (getAccountBalance s accountId asOfDate) = Num c
         \<and> (a_normalBalance a = ''debit'' \<longrightarrow>
              balance (getAccountBalance s accountId asOfDate) = Num (d - c))
         \<and> (a_normalBalance a = ''credit'' \<longrightarrow>
              balance (getAccountBalance s accountId asOfDate) = Num (c - d)))"
proof -
  assume a: "getAccount s accountId = Some a"
  let ?b = "getAccountBalance s accountId asOfDate"
  let ?ds = "dec_sum (map le_debit (filter (\<lambda>l. le_accountId l = accountId) (ledgerEntries s)))"
  let ?cs = "dec_sum (map le_credit (filter (\<lambda>l. le_accountId l = accountId) (ledgerEntries s)))"
  have dt: "debitTotal ?b = number_of_decimal ?ds" by (simp add: getAccountBalance_def Let_def)
  have ct: "creditTotal ?b = number_of_decimal ?cs" by (simp add: getAccountBalance_def Let_def)
  have bd: "balance ?b = num_sub (debitTotal ?b) (creditTotal ?b)" if "a_normalBalance a = ''debit''"
    using a that by (simp add: getAccountBalance_def Let_def)
  have bc: "balance ?b = num_sub (creditTotal ?b) (debitTotal ?b)" if "a_normalBalance a = ''credit''"
    using a that by (simp add: getAccountBalance_def Let_def)
  have ex: "debitTotal ?b = Num d \<and> creditTotal ?b = Num c
         \<and> (a_normalBalance a = ''debit'' \<longrightarrow> balance ?b = Num (d - c))
         \<and> (a_normalBalance a = ''credit'' \<longrightarrow> balance ?b = Num (c - d))"
    if h: "?ds = Dec d \<and> ?cs = Dec c \<and> fl d = Num d \<and> fl c = Num c \<and> fl (d - c) = Num (d - c)"
    for d c
  proof -
    have n: "fl (c - d) = Num (c - d)" using fl_minus[of "d - c"] h by simp
    have s1: "num_sub (Num d) (Num c) = Num (d - c)" using h by (simp add: num_sub_def)
    have s2: "num_sub (Num c) (Num d) = Num (c - d)" using n by (simp add: num_sub_def)
    have t: "debitTotal ?b = Num d" "creditTotal ?b = Num c" using dt ct h by simp_all
    from t bd bc s1 s2 show ?thesis by simp
  qed
  from dt ct bd bc ex show ?thesis by blast
qed

text \<open>
  With the postings \<open>{debit 100, credit 30}\<close> and \<open>{debit 50, credit 0}\<close> the totals are 150
  and 30; the debit-normal account 1 has the balance 120, the credit-normal account 3 the
  balance -120.
\<close>

theorem getAccountBalance_by_normal_balance_witness:
  "getAccountBalance historyStore 1 None = \<lparr>balance = Num 120, debitTotal = Num 150, creditTotal = Num 30\<rparr>
   \<and> getAccountBalance historyStore 3 None = \<lparr>balance = Num (- 120), debitTotal = Num 150, creditTotal = Num 30\<rparr>"
proof -
  have a1: "getAccount historyStore 1 = Some (account 1 ''1000'' ''debit'' True)" by code_simp
  have a3: "getAccount historyStore 3 = Some (account 3 ''4000'' ''credit'' True)" by code_simp
  have n1: "a_normalBalance (account 1 ''1000'' ''debit'' True) = ''debit''" by (simp add: account_def)
  have n3: "a_normalBalance (account 3 ''4000'' ''credit'' True) = ''credit''" by (simp add: account_def)
  have d1: "dec_sum (map le_debit (filter (\<lambda>l. le_accountId l = 1) (ledgerEntries historyStore))) = Dec 150"
    by (simp add: historyStore_def ledgerLine_def dec_sum_def)
  have c1: "dec_sum (map le_credit (filter (\<lambda>l. le_accountId l = 1) (ledgerEntries historyStore))) = Dec 30"
    by (simp add: historyStore_def ledgerLine_def dec_sum_def)
  have d3: "dec_sum (map le_debit (filter (\<lambda>l. le_accountId l = 3) (ledgerEntries historyStore))) = Dec 150"
    by (simp add: historyStore_def ledgerLine_def dec_sum_def)
  have c3: "dec_sum (map le_credit (filter (\<lambda>l. le_accountId l = 3) (ledgerEntries historyStore))) = Dec 30"
    by (simp add: historyStore_def ledgerLine_def dec_sum_def)
  have f: "fl 150 = Num 150" "fl 30 = Num 30" "fl (150 - 30) = Num (150 - 30)"
    by code_simp+
  from getAccountBalance_by_normal_balance[OF a1, of None] n1 d1 c1 f
  have b1: "getAccountBalance historyStore 1 None = \<lparr>balance = Num 120, debitTotal = Num 150, creditTotal = Num 30\<rparr>"
    by (cases "getAccountBalance historyStore 1 None") simp
  from getAccountBalance_by_normal_balance[OF a3, of None] n3 d3 c3 f
  have b3: "getAccountBalance historyStore 3 None = \<lparr>balance = Num (- 120), debitTotal = Num 150, creditTotal = Num 30\<rparr>"
    by (cases "getAccountBalance historyStore 3 None") simp
  from b1 b3 show ?thesis by simp
qed

text \<open>
  The numbers returned are doubles: from debits of 0.30 and credits of 0.10 the balance is
  0.3 - 0.1 as doubles, which is 0.19999999999999998 and not the double nearest to 0.2;
  and a sum of 90071992547409.93 is read as 90071992547409.9375, the doubles of that size
  being 1/64 apart.
\<close>

lemma getAccountBalance_in_doubles:
  "getAccountBalance
     ((exampleStore False)\<lparr>ledgerEntries := [ledgerLine 1 1 1 (3 / 10) 0, ledgerLine 2 1 1 0 (1 / 10)]\<rparr>)
     1 None
     = \<lparr>balance = Num (7205759403792793 / 36028797018963968),
        debitTotal = Num (5404319552844595 / 18014398509481984),
        creditTotal = Num (3602879701896397 / 36028797018963968)\<rparr>
   \<and> fl (2 / 10) = Num (3602879701896397 / 18014398509481984)
   \<and> number_of_decimal (Dec (9007199254740993 / 100)) = Num (1441151880758559 / 16)"
  by (intro conjI; code_simp)

text \<open>
  Claim C5, as stated, fails in its first part: \<open>getAccountBalance\<close> does not read the
  status of a line's journal entry. In \<open>voidedStore\<close> the account 1 has the debit of 100 of
  a void entry and the debit of 50 of a posted entry: 50 is to be counted, and the
  function returns 150.
\<close>

theorem getAccountBalance_counts_void_lines:
  "getAccountBalance voidedStore 1 None
     = \<lparr>balance = Num 150, debitTotal = Num 150, creditTotal = Num 0\<rparr>
   \<and> getAccountBalance_spec voidedStore 1 None
     = \<lparr>balance = Num 50, debitTotal = Num 50, creditTotal = Num 0\<rparr>
   \<and> getAccountBalance voidedStore 1 None \<noteq> getAccountBalance_spec voidedStore 1 None"
proof -
  have a: "getAccountBalance voidedStore 1 None
             = \<lparr>balance = Num 150, debitTotal = Num 150, creditTotal = Num 0\<rparr>"
    by code_simp
  have b: "getAccountBalance_spec voidedStore 1 None
             = \<lparr>balance = Num 50, debitTotal = Num 50, creditTotal = Num 0\<rparr>"
    by code_simp
  from a b show ?thesis by simp
qed

text \<open>
  Claim C5, amended. \<open>getAccountBalance\<close> counts the ledger lines of the account whatever
  the status of their journal entry: the lines of void entries are part of the debit
  total, of the credit total and of the balance, and voiding a journal entry changes no
  balance.
\<close>

theorem getAccountBalance_ignores_status:
  "getAccountBalance (snd (voidJournalEntry i s)) accountId None
       = getAccountBalance s accountId None
   \<and> debitTotal (getAccountBalance s accountId None)
       = number_of_decimal
           (dec_sum (map le_debit (filter (\<lambda>l. le_accountId l = accountId) (ledgerEntries s))))
   \<and> creditTotal (getAccountBalance s accountId None)
       = number_of_decimal
           (dec_sum (map le_credit (filter (\<lambda>l. le_accountId l = accountId) (ledgerEntries s))))"
  by (simp add: getAccountBalance_def voidJournalEntry_def getAccount_def Let_def)

text \<open>
  In \<open>voidedStore\<close> the credit-normal account 3 has a credit of 100 from the void entry 1
  and a credit of 50 from the posted entry 2: its balance is 150, before and after entry
  2 is voided as well.
\<close>

theorem getAccountBalance_ignores_status_witness:
  "getAccountBalance voidedStore 3 None
     = \<lparr>balance = Num 150, debitTotal = Num 0, creditTotal = Num 150\<rparr>
   \<and> getAccountBalance (snd (voidJournalEntry 2 voidedStore)) 3 None
     = \<lparr>balance = Num 150, debitTotal = Num 0, creditTotal = Num 150\<rparr>"
proof -
  have "getAccountBalance voidedStore 3 None
          = \<lparr>balance = Num 150, debitTotal = Num 0, creditTotal = Num 150\<rparr>"
    by code_simp
  with getAccountBalance_ignores_status[of 2 voidedStore 3]
  show ?thesis by simp
qed

text \<open>
  Claim C9: the balance of an account that does not exist. The function has no such
  case: for the unknown id 999 it returns a balance of zero, and its route answers with
  that balance, where the route of a journal entry answers 404 for an unknown id.
\<close>

theorem getAccountBalance_unknown_account_returns_balance:
  "getAccount (exampleStore True) 999 = None
   \<and> getAccountBalance (exampleStore True) 999 None
       = \<lparr>balance = Num 0, debitTotal = Num 0, creditTotal = Num 0\<rparr>
   \<and> getBalanceRoute (exampleStore True) 999
       = Json \<lparr>balance = Num 0, debitTotal = Num 0, creditTotal = Num 0\<rparr>
   \<and> getJournalEntryRoute (exampleStore True) 999 = Status 404 ''Journal entry not found''"
  by code_simp

subsection \<open>Voiding\<close>

text \<open>
  Claim C7. \<open>voidJournalEntry i\<close> leaves the accounts, the ledger lines and the counters as
  they are and keeps every journal entry in its place; the entry with id \<open>i\<close> differs from
  what it was in its status only, which is \<open>void\<close>, and every other entry is unchanged.
  The updated entry is returned; for an unknown id the result is absent and the store is
  unchanged.
\<close>

theorem voidJournalEntry_changes_only_status:
  "accounts (snd (voidJournalEntry i s)) = accounts s
   \<and> ledgerEntries (snd (voidJournalEntry i s)) = ledgerEntries s
   \<and> users (snd (voidJournalEntry i s)) = users s
   \<and> accountsSeq (snd (voidJournalEntry i s)) = accountsSeq s
   \<and> journalSeq (snd (voidJournalEntry i s)) = journalSeq s
   \<and> ledgerSeq (snd (voidJournalEntry i s)) = ledgerSeq s
   \<and> constraints (snd (voidJournalEntry i s)) = constraints s
   \<and> length (journalEntries (snd (voidJournalEntry i s))) = length (journalEntries s)
   \<and> (\<forall>k < length (journalEntries s).
        journalEntries (snd (voidJournalEntry i s)) ! k =
          (if je_id (journalEntries s ! k) = i
           then (journalEntries s ! k)\<lparr>je_status := ''void''\<rparr>
           else journalEntries s ! k))
   \<and> fst (voidJournalEntry i s)
       = map_option (\<lambda>e. e\<lparr>je_status := ''void''\<rparr>) (getJournalEntry s i)
   \<and> (getJournalEntry s i = None \<longrightarrow>
        fst (voidJournalEntry i s) = None \<and> snd (voidJournalEntry i s) = s)"
  by (auto simp: voidJournalEntry_def getJournalEntry_def find_map_void Let_def void_map_id)

text \<open>
  Voiding entry 2 of \<open>historyStore\<close> returns it with the status \<open>void\<close> and leaves entry 1
  posted; voiding the unknown entry 99 returns nothing and changes nothing.
\<close>

theorem voidJournalEntry_changes_only_status_witness:
  "getJournalEntry historyStore 2 = Some (header 2 ''JE-0002'' 200 ''posted'')
   \<and> fst (voidJournalEntry 2 historyStore) = Some (header 2 ''JE-0002'' 200 ''void'')
   \<and> journalEntries (snd (voidJournalEntry 2 historyStore))
       = [header 1 ''JE-0001'' 100 ''posted'', header 2 ''JE-0002'' 200 ''void'']
   \<and> ledgerEntries (snd (voidJournalEntry 2 historyStore)) = ledgerEntries historyStore
   \<and> getJournalEntry historyStore 99 = None
   \<and> fst (voidJournalEntry 99 historyStore) = None
   \<and> snd (voidJournalEntry 99 historyStore) = historyStore"
proof -
  have g2: "getJournalEntry historyStore 2 = Some (header 2 ''JE-0002'' 200 ''posted'')"
    by code_simp
  have g99: "getJournalEntry historyStore 99 = None"
    by code_simp
  have v: "(header 2 ''JE-0002'' 200 ''posted'')\<lparr>je_status := ''void''\<rparr> = header 2 ''JE-0002'' 200 ''void''"
    by (simp add: header_def)
  have js: "journalEntries (snd (voidJournalEntry 2 historyStore))
       = [header 1 ''JE-0001'' 100 ''posted'', header 2 ''JE-0002'' 200 ''void'']"
    by code_simp
  from voidJournalEntry_changes_only_status[of 2 historyStore] g2 v
  have a: "fst (voidJournalEntry 2 historyStore) = Some (header 2 ''JE-0002'' 200 ''void'')"
    and b: "ledgerEntries (snd (voidJournalEntry 2 historyStore)) = ledgerEntries historyStore"
    by simp_all
  from voidJournalEntry_changes_only_status[of 99 historyStore] g99
  have c: "fst (voidJournalEntry 99 historyStore) = None"
    and d: "snd (voidJournalEntry 99 historyStore) = historyStore"
    by simp_all
  from g2 g99 js a b c d show ?thesis by simp
qed

subsection \<open>Reading the journal and the ledger\<close>

text \<open>
  Claim C10. The date range given to \<open>getJournalEntries\<close> and to \<open>getAccountLedger\<close> has no
  effect: with any start and end date the result is the one without them, which holds
  all journal entries by descending entry date, respectively all lines of the account by
  descending creation time.
\<close>

theorem date_range_parameters_have_no_effect:
  "getJournalEntries s startDate endDate = getJournalEntries s None None
   \<and> getAccountLedger s accountId startDate endDate = getAccountLedger s accountId None None
   \<and> mset (getJournalEntries s startDate endDate) = mset (journalEntries s)
   \<and> sorted (map (\<lambda>e. - je_entryDate e) (getJournalEntries s startDate endDate))
   \<and> mset (getAccountLedger s accountId startDate endDate)
       = mset (filter (\<lambda>l. le_accountId l = accountId) (ledgerEntries s))
   \<and> sorted (map (\<lambda>l. - le_createdAt l) (getAccountLedger s accountId startDate endDate))"
  by (simp add: getJournalEntries_def getAccountLedger_def)

text \<open>Asked for the dates 150 to 160, where \<open>historyStore\<close> has no entry, both entries come back.\<close>

theorem date_range_parameters_have_no_effect_witness:
  "getJournalEntries historyStore (Some 150) (Some 160)
     = [header 2 ''JE-0002'' 200 ''posted'', header 1 ''JE-0001'' 100 ''posted'']
   \<and> getAccountLedger historyStore 1 (Some 150) (Some 160)
     = [ledgerLine 1 1 1 100 30, ledgerLine 2 2 1 50 0]"
proof -
  have a: "getJournalEntries historyStore None None
     = [header 2 ''JE-0002'' 200 ''posted'', header 1 ''JE-0001'' 100 ''posted'']"
    by code_simp
  have b: "getAccountLedger historyStore 1 None None = [ledgerLine 1 1 1 100 30, ledgerLine 2 2 1 50 0]"
    by code_simp
  from date_range_parameters_have_no_effect[of historyStore "Some 150" "Some 160" 1] a b
  show ?thesis by simp
qed

subsection \<open>Posting: what is checked, and when\<close>

text \<open>
  Claim C2, as stated, fails. \<open>createJournalEntry\<close> checks the balance and nothing else.
  \<^item> Called with no line at all it succeeds and writes a header.
  \<^item> Two lines with 5.00 on both sides pass the route's schema and the balance check.
    With the migration's constraints the store refuses the first line after the header is
    written: the call fails and the header stays. Without them both two-sided lines are
    written and the call succeeds.
  \<^item> A line for the unknown account 99 behaves alike: with the foreign key the call fails
    with the header and the first line written; without it the call succeeds.
\<close>

theorem createJournalEntry_writes_before_it_fails:
  "fst (createJournalEntry 5 (manualEntry []) (exampleStore True))
     = Inr (header 1 ''JE-0001'' 5 ''posted'')
   \<and> journalEntries (snd (createJournalEntry 5 (manualEntry []) (exampleStore True)))
     = [header 1 ''JE-0001'' 5 ''posted'']
   \<and> fst (postJournalEntries 5 (manualEntry [line 1 ''5.00'' ''5.00'', line 3 ''5.00'' ''5.00''])
            (exampleStore True))
     = Failed (DbError (CheckViolation ''chk_ledger_entries_debit_credit''))
   \<and> journalEntries (snd (postJournalEntries 5
          (manualEntry [line 1 ''5.00'' ''5.00'', line 3 ''5.00'' ''5.00'']) (exampleStore True)))
     = [header 1 ''JE-0001'' 5 ''posted'']
   \<and> fst (postJournalEntries 5 (manualEntry [line 1 ''5.00'' ''5.00'', line 3 ''5.00'' ''5.00''])
            (exampleStore False))
     = Posted (header 1 ''JE-0001'' 5 ''posted'')
   \<and> map (\<lambda>l. (le_accountId l, le_debit l, le_credit l))
         (ledgerEntries (snd (postJournalEntries 5
            (manualEntry [line 1 ''5.00'' ''5.00'', line 3 ''5.00'' ''5.00'']) (exampleStore False))))
     = [(1, Dec 5, Dec 5), (3, Dec 5, Dec 5)]
   \<and> fst (postJournalEntries 5 (manualEntry [line 1 ''5.00'' ''0.00'', line 99 ''0.00'' ''5.00''])
            (exampleStore True))
     = Failed (DbError (ForeignKeyViolation ''fk_ledger_entries_account''))
   \<and> journalEntries (snd (postJournalEntries 5
          (manualEntry [line 1 ''5.00'' ''0.00'', line 99 ''0.00'' ''5.00'']) (exampleStore True)))
     = [header 1 ''JE-0001'' 5 ''posted'']
   \<and> map (\<lambda>l. (le_accountId l, le_debit l, le_credit l))
         (ledgerEntries (snd (postJournalEntries 5
            (manualEntry [line 1 ''5.00'' ''0.00'', line 99 ''0.00'' ''5.00'']) (exampleStore True))))
     = [(1, Dec 5, Dec 0)]
   \<and> fst (postJournalEntries 5 (manualEntry [line 1 ''5.00'' ''0.00'', line 99 ''0.00'' ''5.00''])
            (exampleStore False))
     = Posted (header 1 ''JE-0001'' 5 ''posted'')"
proof -
  let ?f = "\<lambda>l. (le_accountId l, le_debit l, le_credit l)"
  let ?two = "manualEntry [line 1 ''5.00'' ''5.00'', line 3 ''5.00'' ''5.00'']"
  let ?unk = "manualEntry [line 1 ''5.00'' ''0.00'', line 99 ''0.00'' ''5.00'']"
  have e: "(case createJournalEntry 5 (manualEntry []) (exampleStore True) of
              (r, s') \<Rightarrow> (r, journalEntries s'))
           = (Inr (header 1 ''JE-0001'' 5 ''posted''), [header 1 ''JE-0001'' 5 ''posted''])"
    by code_simp
  have s2: "createJournalEntrySchema ?two = []" by code_simp
  have g2: "\<not> num_ge (num_abs (num_sub (totalDebits (in_entries ?two)) (totalCredits (in_entries ?two))))
              (fl (1 / 100))"
    unfolding totals_two_sided by (rule check_equal)
  then have n2: "\<not> num_gt (num_abs (num_sub (totalDebits (in_entries ?two)) (totalCredits (in_entries ?two))))
              (fl (1 / 100))"
    using num_gt_ge by blast
  have su: "createJournalEntrySchema ?unk = []" by code_simp
  have gu: "\<not> num_ge (num_abs (num_sub (totalDebits (in_entries ?unk)) (totalCredits (in_entries ?unk))))
              (fl (1 / 100))"
    unfolding totals_unknown_account by (rule check_equal)
  then have nu: "\<not> num_gt (num_abs (num_sub (totalDebits (in_entries ?unk)) (totalCredits (in_entries ?unk))))
              (fl (1 / 100))"
    using num_gt_ge by blast
  have t1: "(case postJournalEntries 5 ?two (exampleStore True) of
               (r, s') \<Rightarrow> (r, journalEntries s'))
            = (Failed (DbError (CheckViolation ''chk_ledger_entries_debit_credit'')),
               [header 1 ''JE-0001'' 5 ''posted''])"
    unfolding postJournalEntries_balanced[OF s2 g2] createJournalEntry_balanced[OF n2]
    by code_simp
  have t2: "(case postJournalEntries 5 ?two (exampleStore False) of
               (r, s') \<Rightarrow> (r, map ?f (ledgerEntries s')))
            = (Posted (header 1 ''JE-0001'' 5 ''posted''), [(1, Dec 5, Dec 5), (3, Dec 5, Dec 5)])"
    unfolding postJournalEntries_balanced[OF s2 g2] createJournalEntry_balanced[OF n2]
    by code_simp
  have u1: "(case postJournalEntries 5 ?unk (exampleStore True) of
               (r, s') \<Rightarrow> (r, journalEntries s', map ?f (ledgerEntries s')))
            = (Failed (DbError (ForeignKeyViolation ''fk_ledger_entries_account'')),
               [header 1 ''JE-0001'' 5 ''posted''], [(1, Dec 5, Dec 0)])"
    unfolding postJournalEntries_balanced[OF su gu] createJournalEntry_balanced[OF nu]
    by code_simp
  have u2: "fst (postJournalEntries 5 ?unk (exampleStore False))
              = Posted (header 1 ''JE-0001'' 5 ''posted'')"
    unfolding postJournalEntries_balanced[OF su gu] createJournalEntry_balanced[OF nu]
    by code_simp
  from e t1 t2 u1 u2 show ?thesis by (simp split: prod.splits)
qed

text \<open>
  Claim C2, amended. At the route the schema's checks (a description, at least two lines,
  well-formed amounts) come before any write: a body that fails them, and so every body
  with fewer than two lines, is answered with the issues and the store is untouched.
  \<open>createJournalEntry\<close> itself checks the balance only, before any write: an unbalanced
  input is refused with the store untouched. It does not check the number of lines, that
  a line is one-sided, or that an account exists. For a balanced input it inserts the
  header; a header the store refuses ends the call with the store's error and no row
  added. With the header written, in a ledger whose counter is not behind the ids in
  use, it inserts the lines in their order as long as the store accepts them: if the
  store accepts them all, the call returns the header, and the store holds it and one
  row for each line (none for an input without lines); at the first line the store
  refuses, the call fails with the store's error, and the header and the rows of the
  lines before that line stay. The accounts are never written.
\<close>

theorem createJournalEntry_checks_and_writes:
  "(let h = \<lparr>je_id = journalSeq s + 1, je_entryNumber = generateEntryNumber s,
             je_entryDate = (case in_entryDate body of None \<Rightarrow> now | Some d \<Rightarrow> d),
             je_description = in_description body, je_referenceType = in_referenceType body,
             je_referenceId = in_referenceId body, je_userId = in_userId body,
             je_status = ''posted'', je_notes = in_notes body,
             je_createdAt = now, je_updatedAt = now\<rparr>;
        unbalanced = num_gt (num_abs (num_sub (totalDebits (in_entries body))
                                               (totalCredits (in_entries body)))) (fl (1 / 100));
        row = (\<lambda>e l. toDecimal (el_debit e) = Inr (le_debit l)
                     \<and> toDecimal (el_credit e) = Inr (le_credit l)
                     \<and> le_journalEntryId l = journalSeq s + 1
                     \<and> le_accountId l = el_accountId e)
    in
    (createJournalEntrySchema body \<noteq> [] \<longrightarrow>
       postJournalEntries now body s = (InvalidData (createJournalEntrySchema body), s))
    \<and> (length (in_entries body) < 2 \<longrightarrow> createJournalEntrySchema body \<noteq> [])
    \<and> (unbalanced \<longrightarrow>
         createJournalEntry now body s =
           (Inl (NotBalanced (totalDebits (in_entries body)) (totalCredits (in_entries body))), s))
    \<and> (\<not> unbalanced \<and> \<not> headerAccepted s (generateEntryNumber s) (in_userId body) \<longrightarrow>
         (\<exists>e. createJournalEntry now body s
                = (Inl (DbError e), s\<lparr>journalSeq := journalSeq s + 1\<rparr>)))
    \<and> (\<not> unbalanced \<and> headerAccepted s (generateEntryNumber s) (in_userId body)
        \<and> (\<forall>l \<in> set (ledgerEntries s). le_id l \<le> ledgerSeq s) \<longrightarrow>
         ((\<forall>e \<in> set (in_entries body). lineAccepted s e) \<longrightarrow>
            fst (createJournalEntry now body s) = Inr h
            \<and> journalEntries (snd (createJournalEntry now body s)) = journalEntries s @ [h]
            \<and> (\<exists>ls. ledgerEntries (snd (createJournalEntry now body s)) = ledgerEntries s @ ls
                  \<and> list_all2 row (in_entries body) ls))
         \<and> (\<forall>pre e post.
               in_entries body = pre @ e # post \<and> (\<forall>x \<in> set pre. lineAccepted s x)
               \<and> \<not> lineAccepted s e \<longrightarrow>
               (\<exists>err. fst (createJournalEntry now body s) = Inl (DbError err))
               \<and> journalEntries (snd (createJournalEntry now body s)) = journalEntries s @ [h]
               \<and> (\<exists>ls. ledgerEntries (snd (createJournalEntry now body s)) = ledgerEntries s @ ls
                     \<and> list_all2 row pre ls)))
    \<and> accounts (snd (createJournalEntry now body s)) = accounts s)"
  unfolding Let_def
proof (intro conjI impI allI)
  show "postJournalEntries now body s = (InvalidData (createJournalEntrySchema body), s)"
    if "createJournalEntrySchema body \<noteq> []"
    using that by (simp add: postJournalEntries_def)
  show "createJournalEntrySchema body \<noteq> []" if "length (in_entries body) < 2"
    using that by (simp add: createJournalEntrySchema_def)
  show "createJournalEntry now body s =
           (Inl (NotBalanced (totalDebits (in_entries body)) (totalCredits (in_entries body))), s)"
    if "num_gt (num_abs (num_sub (totalDebits (in_entries body)) (totalCredits (in_entries body))))
          (fl (1 / 100))"
    using that by (simp add: createJournalEntry_def)
  show "\<exists>e. createJournalEntry now body s = (Inl (DbError e), s\<lparr>journalSeq := journalSeq s + 1\<rparr>)"
    if a: "\<not> num_gt (num_abs (num_sub (totalDebits (in_entries body)) (totalCredits (in_entries body))))
              (fl (1 / 100))
        \<and> \<not> headerAccepted s (generateEntryNumber s) (in_userId body)"
  proof -
    let ?v = "\<lparr>ij_entryNumber = generateEntryNumber s, ij_description = in_description body,
                 ij_entryDate = (case in_entryDate body of None \<Rightarrow> now | Some d \<Rightarrow> d),
                 ij_referenceType = in_referenceType body,
                 ij_referenceId = in_referenceId body, ij_userId = in_userId body,
                 ij_notes = in_notes body, ij_status = ''posted''\<rparr>"
    from a insertJournalEntry_refused[of s ?v now]
    obtain e where "insertJournalEntry now ?v s = (Inl e, s\<lparr>journalSeq := journalSeq s + 1\<rparr>)"
      by auto
    with a show ?thesis by (auto simp: createJournalEntry_def Let_def)
  qed
  show "accounts (snd (createJournalEntry now body s)) = accounts s"
    using createJournalEntry_outcomes[of now body s "fst (createJournalEntry now body s)"
        "snd (createJournalEntry now body s)"] by simp
next
  assume a: "\<not> num_gt (num_abs (num_sub (totalDebits (in_entries body)) (totalCredits (in_entries body))))
              (fl (1 / 100))
        \<and> headerAccepted s (generateEntryNumber s) (in_userId body)
        \<and> (\<forall>l \<in> set (ledgerEntries s). le_id l \<le> ledgerSeq s)"
  assume all: "\<forall>e \<in> set (in_entries body). lineAccepted s e"
  from a all createJournalEntry_lines_written[where body = body and s = s and pre = "in_entries body" and rest = "[]" and now = now]
  show "fst (createJournalEntry now body s) =
          Inr \<lparr>je_id = journalSeq s + 1, je_entryNumber = generateEntryNumber s,
             je_entryDate = (case in_entryDate body of None \<Rightarrow> now | Some d \<Rightarrow> d),
             je_description = in_description body, je_referenceType = in_referenceType body,
             je_referenceId = in_referenceId body, je_userId = in_userId body,
             je_status = ''posted'', je_notes = in_notes body,
             je_createdAt = now, je_updatedAt = now\<rparr>"
    and "journalEntries (snd (createJournalEntry now body s)) = journalEntries s @
          [\<lparr>je_id = journalSeq s + 1, je_entryNumber = generateEntryNumber s,
             je_entryDate = (case in_entryDate body of None \<Rightarrow> now | Some d \<Rightarrow> d),
             je_description = in_description body, je_referenceType = in_referenceType body,
             je_referenceId = in_referenceId body, je_userId = in_userId body,
             je_status = ''posted'', je_notes = in_notes body,
             je_createdAt = now, je_updatedAt = now\<rparr>]"
    and "\<exists>ls. ledgerEntries (snd (createJournalEntry now body s)) = ledgerEntries s @ ls
            \<and> list_all2 (\<lambda>e l. toDecimal (el_debit e) = Inr (le_debit l)
                     \<and> toDecimal (el_credit e) = Inr (le_credit l)
                     \<and> le_journalEntryId l = journalSeq s + 1
                     \<and> le_accountId l = el_accountId e) (in_entries body) ls"
    by simp_all
next
  fix pre e post
  assume a: "\<not> num_gt (num_abs (num_sub (totalDebits (in_entries body)) (totalCredits (in_entries body))))
              (fl (1 / 100))
        \<and> headerAccepted s (generateEntryNumber s) (in_userId body)
        \<and> (\<forall>l \<in> set (ledgerEntries s). le_id l \<le> ledgerSeq s)"
  assume b: "in_entries body = pre @ e # post \<and> (\<forall>x \<in> set pre. lineAccepted s x)
               \<and> \<not> lineAccepted s e"
  from a b createJournalEntry_lines_written[where body = body and s = s and pre = pre and rest = "e # post" and now = now]
  show "\<exists>err. fst (createJournalEntry now body s) = Inl (DbError err)"
    and "journalEntries (snd (createJournalEntry now body s)) = journalEntries s @
          [\<lparr>je_id = journalSeq s + 1, je_entryNumber = generateEntryNumber s,
             je_entryDate = (case in_entryDate body of None \<Rightarrow> now | Some d \<Rightarrow> d),
             je_description = in_description body, je_referenceType = in_referenceType body,
             je_referenceId = in_referenceId body, je_userId = in_userId body,
             je_status = ''posted'', je_notes = in_notes body,
             je_createdAt = now, je_updatedAt = now\<rparr>]"
    and "\<exists>ls. ledgerEntries (snd (createJournalEntry now body s)) = ledgerEntries s @ ls
            \<and> list_all2 (\<lambda>e l. toDecimal (el_debit e) = Inr (le_debit l)
                     \<and> toDecimal (el_credit e) = Inr (le_credit l)
                     \<and> le_journalEntryId l = journalSeq s + 1
                     \<and> le_accountId l = el_accountId e) pre ls"
    by simp_all
qed

text \<open>
  A body with one line is answered with the issue \<^verbatim>\<open>At least 2 entries required\<close> and
  nothing is written. The call with a line for the unknown account 99, which the store
  with the migration's constraints refuses after it has accepted the header and the first
  line, fails and leaves the header and one row; the accounts are as they were.
\<close>

theorem createJournalEntry_checks_and_writes_witness:
  "postJournalEntries 5 (manualEntry [line 1 ''5.00'' ''0.00'']) (exampleStore True)
     = (InvalidData [''At least 2 entries required''], exampleStore True)
   \<and> \<not> lineAccepted (exampleStore True) (line 99 ''0.00'' ''5.00'')
   \<and> (\<exists>err. fst (createJournalEntry 5
         (manualEntry [line 1 ''5.00'' ''0.00'', line 99 ''0.00'' ''5.00'']) (exampleStore True))
           = Inl (DbError err))
   \<and> journalEntries (snd (createJournalEntry 5
         (manualEntry [line 1 ''5.00'' ''0.00'', line 99 ''0.00'' ''5.00'']) (exampleStore True)))
     = [header 1 ''JE-0001'' 5 ''posted'']
   \<and> length (ledgerEntries (snd (createJournalEntry 5
         (manualEntry [line 1 ''5.00'' ''0.00'', line 99 ''0.00'' ''5.00'']) (exampleStore True)))) = 1
   \<and> accounts (snd (createJournalEntry 5
         (manualEntry [line 1 ''5.00'' ''0.00'', line 99 ''0.00'' ''5.00'']) (exampleStore True)))
     = accounts (exampleStore True)"
proof -
  let ?s = "exampleStore True"
  let ?one = "manualEntry [line 1 ''5.00'' ''0.00'']"
  let ?two = "manualEntry [line 1 ''5.00'' ''0.00'', line 99 ''0.00'' ''5.00'']"
  have len: "length (in_entries ?one) < 2" by (simp add: manualEntry_def)
  have iss: "createJournalEntrySchema ?one = [''At least 2 entries required'']" by code_simp
  note t1 = createJournalEntry_checks_and_writes[where s = ?s and body = ?one and now = 5, unfolded Let_def]
  note t2 = createJournalEntry_checks_and_writes[where s = ?s and body = ?two and now = 5, unfolded Let_def]
  from t1 len iss
  have a: "postJournalEntries 5 ?one ?s = (InvalidData [''At least 2 entries required''], ?s)"
    by simp
  have "\<not> num_ge (num_abs (num_sub (totalDebits (in_entries ?two)) (totalCredits (in_entries ?two))))
                  (fl (1 / 100))"
    unfolding totals_unknown_account by (rule check_equal)
  then have bal: "\<not> num_gt (num_abs (num_sub (totalDebits (in_entries ?two)) (totalCredits (in_entries ?two))))
                  (fl (1 / 100))"
    using num_gt_ge by blast
  have hdr: "headerAccepted ?s (generateEntryNumber ?s) (in_userId ?two)" by code_simp
  have inv: "\<forall>l \<in> set (ledgerEntries ?s). le_id l \<le> ledgerSeq ?s" by (simp add: exampleStore_def)
  have ents: "in_entries ?two = [line 1 ''5.00'' ''0.00''] @ line 99 ''0.00'' ''5.00'' # []"
    by (simp add: manualEntry_def)
  have ok: "\<forall>x \<in> set [line 1 ''5.00'' ''0.00'']. lineAccepted ?s x" by code_simp
  have no: "\<not> lineAccepted ?s (line 99 ''0.00'' ''5.00'')" by code_simp
  have h: "\<lparr>je_id = journalSeq ?s + 1, je_entryNumber = generateEntryNumber ?s,
             je_entryDate = (case in_entryDate ?two of None \<Rightarrow> 5 | Some d \<Rightarrow> d),
             je_description = in_description ?two, je_referenceType = in_referenceType ?two,
             je_referenceId = in_referenceId ?two, je_userId = in_userId ?two,
             je_status = ''posted'', je_notes = in_notes ?two,
             je_createdAt = 5, je_updatedAt = 5\<rparr> = header 1 ''JE-0001'' 5 ''posted''"
    by code_simp
  have nil: "journalEntries ?s = []" "ledgerEntries ?s = []" by (simp_all add: exampleStore_def)
  from t2 bal hdr inv ents ok no
  have r: "(\<exists>err. fst (createJournalEntry 5 ?two ?s) = Inl (DbError err))
           \<and> journalEntries (snd (createJournalEntry 5 ?two ?s)) = journalEntries ?s @
                [\<lparr>je_id = journalSeq ?s + 1, je_entryNumber = generateEntryNumber ?s,
                   je_entryDate = (case in_entryDate ?two of None \<Rightarrow> 5 | Some d \<Rightarrow> d),
                   je_description = in_description ?two, je_referenceType = in_referenceType ?two,
                   je_referenceId = in_referenceId ?two, je_userId = in_userId ?two,
                   je_status = ''posted'', je_notes = in_notes ?two,
                   je_createdAt = 5, je_updatedAt = 5\<rparr>]
           \<and> (\<exists>ls. ledgerEntries (snd (createJournalEntry 5 ?two ?s)) = ledgerEntries ?s @ ls
                 \<and> list_all2 (\<lambda>e l. toDecimal (el_debit e) = Inr (le_debit l)
                     \<and> toDecimal (el_credit e) = Inr (le_credit l)
                     \<and> le_journalEntryId l = journalSeq ?s + 1
                     \<and> le_accountId l = el_accountId e) [line 1 ''5.00'' ''0.00''] ls)"
    by blast
  then have b: "\<exists>err. fst (createJournalEntry 5 ?two ?s) = Inl (DbError err)"
    and c: "journalEntries (snd (createJournalEntry 5 ?two ?s)) = [header 1 ''JE-0001'' 5 ''posted'']"
    and d: "length (ledgerEntries (snd (createJournalEntry 5 ?two ?s))) = 1"
    by (auto simp: h nil dest: list_all2_lengthD)
  from t2 have e: "accounts (snd (createJournalEntry 5 ?two ?s)) = accounts ?s" by blast
  from a no b c d e show ?thesis by (intro conjI)
qed

subsection \<open>Recording a sale\<close>

text \<open>
  Claim C3, as stated, fails: the four accounts alone do not make \<open>recordSale\<close> post its
  four lines. With the migration's constraints, a sale whose cost of goods sold is 0.00
  is refused at the third line, which has neither side positive: the call fails and
  leaves the header and two lines; and a sale by a user who is not in the users table is
  refused at the header. With or without them, an amount that is no decimal is refused at
  the first line and leaves the header.
\<close>

theorem recordSale_stops_at_a_refused_line:
  "fst (recordSale 7 (sale ''116.00'' ''0.00'') (exampleStore True))
     = Inl (DbError (CheckViolation ''chk_ledger_entries_debit_credit''))
   \<and> map je_entryNumber (journalEntries (snd (recordSale 7 (sale ''116.00'' ''0.00'') (exampleStore True))))
     = [''JE-0001'']
   \<and> map (\<lambda>l. (le_accountId l, le_debit l, le_credit l))
         (ledgerEntries (snd (recordSale 7 (sale ''116.00'' ''0.00'') (exampleStore True))))
     = [(1, Dec 116, Dec 0), (3, Dec 0, Dec 116)]
   \<and> fst (recordSale 7 (sale ''abc'' ''70.00'') (exampleStore False))
     = Inl (DbError (InvalidNumeric ''abc''))
   \<and> map je_entryNumber (journalEntries (snd (recordSale 7 (sale ''abc'' ''70.00'') (exampleStore False))))
     = [''JE-0001'']
   \<and> ledgerEntries (snd (recordSale 7 (sale ''abc'' ''70.00'') (exampleStore False))) = []
   \<and> fst (recordSale 7 ((sale ''116.00'' ''70.00'')\<lparr>sd_userId := 2\<rparr>) (exampleStore True))
     = Inl (DbError (ForeignKeyViolation ''fk_journal_entries_user''))
   \<and> journalEntries (snd (recordSale 7 ((sale ''116.00'' ''70.00'')\<lparr>sd_userId := 2\<rparr>)
        (exampleStore True))) = []"
proof -
  let ?f = "\<lambda>l. (le_accountId l, le_debit l, le_credit l)"
  have a: "(case recordSale 7 (sale ''116.00'' ''0.00'') (exampleStore True) of
              (r, s') \<Rightarrow> (r, map je_entryNumber (journalEntries s'), map ?f (ledgerEntries s')))
           = (Inl (DbError (CheckViolation ''chk_ledger_entries_debit_credit'')),
              [''JE-0001''], [(1, Dec 116, Dec 0), (3, Dec 0, Dec 116)])"
    by code_simp
  have b: "(case recordSale 7 (sale ''abc'' ''70.00'') (exampleStore False) of
              (r, s') \<Rightarrow> (r, map je_entryNumber (journalEntries s'), ledgerEntries s'))
           = (Inl (DbError (InvalidNumeric ''abc'')), [''JE-0001''], [])"
    by code_simp
  have c: "(case recordSale 7 ((sale ''116.00'' ''70.00'')\<lparr>sd_userId := 2\<rparr>) (exampleStore True) of
              (r, s') \<Rightarrow> (r, journalEntries s'))
           = (Inl (DbError (ForeignKeyViolation ''fk_journal_entries_user'')), [])"
    by code_simp
  from a b c show ?thesis by (simp split: prod.splits)
qed

text \<open>
  Claim C3, amended. If one of the accounts with the codes 1000, 4000, 5000 and 1200 is
  missing, \<open>recordSale\<close> fails with the configuration error and writes nothing. If all
  four exist, the total and the cost of goods sold are decimals the store accepts, the
  next entry number is unused, the counters are not behind the ids in use and, where the
  migration's constraints are in force, the user exists and both amounts are positive,
  then \<open>recordSale\<close> posts exactly one journal entry, with reference type \<open>sale\<close>, the
  sale's id as reference id and a description naming the sale and the payment method,
  and exactly four lines: debit Cash and credit Sales Revenue for the total, debit Cost of
  Goods Sold and credit Inventory for the cost of goods sold.
\<close>

theorem recordSale_posts_four_lines:
  "(getAccountByCode s ''1000'' = None \<or> getAccountByCode s ''4000'' = None
      \<or> getAccountByCode s ''5000'' = None \<or> getAccountByCode s ''1200'' = None \<longrightarrow>
    recordSale now saleData s = (Inl RequiredAccountsNotFound, s))
   \<and> (getAccountByCode s ''1000'' = Some cashAccount
      \<and> getAccountByCode s ''4000'' = Some salesRevenueAccount
      \<and> getAccountByCode s ''5000'' = Some cogsAccount
      \<and> getAccountByCode s ''1200'' = Some inventoryAccount
      \<and> toDecimal (sd_total saleData) = Inr (Dec t)
      \<and> toDecimal (sd_costOfGoodsSold saleData) = Inr (Dec c)
      \<and> generateEntryNumber s \<notin> set (map je_entryNumber (journalEntries s))
      \<and> (\<forall>e \<in> set (journalEntries s). je_id e \<le> journalSeq s)
      \<and> (\<forall>l \<in> set (ledgerEntries s). le_id l \<le> ledgerSeq s)
      \<and> (constraints s \<longrightarrow> sd_userId saleData \<in> set (users s) \<and> t > 0 \<and> c > 0) \<longrightarrow>
    recordSale now saleData s =
      (let h = \<lparr>je_id = journalSeq s + 1, je_entryNumber = generateEntryNumber s,
                je_entryDate = now,
                je_description =
                  ''Sale #'' @ showInt (sd_saleId saleData) @ '' - '' @ sd_paymentMethod saleData,
                je_referenceType = Some ''sale'', je_referenceId = Some (sd_saleId saleData),
                je_userId = sd_userId saleData, je_status = ''posted'', je_notes = None,
                je_createdAt = now, je_updatedAt = now\<rparr>
       in (Inr h,
           s\<lparr>journalSeq := journalSeq s + 1, journalEntries := journalEntries s @ [h],
             ledgerSeq := ledgerSeq s + 4,
             ledgerEntries := ledgerEntries s @
               [\<lparr>le_id = ledgerSeq s + 1, le_journalEntryId = journalSeq s + 1,
                 le_accountId = a_id cashAccount, le_debit = Dec t, le_credit = Dec 0,
                 le_description = Some ''Cash received from sale'', le_createdAt = now\<rparr>,
                \<lparr>le_id = ledgerSeq s + 2, le_journalEntryId = journalSeq s + 1,
                 le_accountId = a_id salesRevenueAccount, le_debit = Dec 0, le_credit = Dec t,
                 le_description = Some ''Revenue from sale'', le_createdAt = now\<rparr>,
                \<lparr>le_id = ledgerSeq s + 3, le_journalEntryId = journalSeq s + 1,
                 le_accountId = a_id cogsAccount, le_debit = Dec c, le_credit = Dec 0,
                 le_description = Some ''Cost of goods sold'', le_createdAt = now\<rparr>,
                \<lparr>le_id = ledgerSeq s + 4, le_journalEntryId = journalSeq s + 1,
                 le_accountId = a_id inventoryAccount, le_debit = Dec 0, le_credit = Dec c,
                 le_description = Some ''Inventory reduction'', le_createdAt = now\<rparr>]\<rparr>)))"
proof (intro conjI impI)
  assume "getAccountByCode s ''1000'' = None \<or> getAccountByCode s ''4000'' = None
      \<or> getAccountByCode s ''5000'' = None \<or> getAccountByCode s ''1200'' = None"
  then show "recordSale now saleData s = (Inl RequiredAccountsNotFound, s)"
    by (rule recordSale_missing)
next
  assume pre: "getAccountByCode s ''1000'' = Some cashAccount
      \<and> getAccountByCode s ''4000'' = Some salesRevenueAccount
      \<and> getAccountByCode s ''5000'' = Some cogsAccount
      \<and> getAccountByCode s ''1200'' = Some inventoryAccount
      \<and> toDecimal (sd_total saleData) = Inr (Dec t)
      \<and> toDecimal (sd_costOfGoodsSold saleData) = Inr (Dec c)
      \<and> generateEntryNumber s \<notin> set (map je_entryNumber (journalEntries s))
      \<and> (\<forall>e \<in> set (journalEntries s). je_id e \<le> journalSeq s)
      \<and> (\<forall>l \<in> set (ledgerEntries s). le_id l \<le> ledgerSeq s)
      \<and> (constraints s \<longrightarrow> sd_userId saleData \<in> set (users s) \<and> t > 0 \<and> c > 0)"
  show "recordSale now saleData s =
      (let h = \<lparr>je_id = journalSeq s + 1, je_entryNumber = generateEntryNumber s,
                je_entryDate = now,
                je_description =
                  ''Sale #'' @ showInt (sd_saleId saleData) @ '' - '' @ sd_paymentMethod saleData,
                je_referenceType = Some ''sale'', je_referenceId = Some (sd_saleId saleData),
                je_userId = sd_userId saleData, je_status = ''posted'', je_notes = None,
                je_createdAt = now, je_updatedAt = now\<rparr>
       in (Inr h,
           s\<lparr>journalSeq := journalSeq s + 1, journalEntries := journalEntries s @ [h],
             ledgerSeq := ledgerSeq s + 4,
             ledgerEntries := ledgerEntries s @
               [\<lparr>le_id = ledgerSeq s + 1, le_journalEntryId = journalSeq s + 1,
                 le_accountId = a_id cashAccount, le_debit = Dec t, le_credit = Dec 0,
                 le_description = Some ''Cash received from sale'', le_createdAt = now\<rparr>,
                \<lparr>le_id = ledgerSeq s + 2, le_journalEntryId = journalSeq s + 1,
                 le_accountId = a_id salesRevenueAccount, le_debit = Dec 0, le_credit = Dec t,
                 le_description = Some ''Revenue from sale'', le_createdAt = now\<rparr>,
                \<lparr>le_id = ledgerSeq s + 3, le_journalEntryId = journalSeq s + 1,
                 le_accountId = a_id cogsAccount, le_debit = Dec c, le_credit = Dec 0,
                 le_description = Some ''Cost of goods sold'', le_createdAt = now\<rparr>,
                \<lparr>le_id = ledgerSeq s + 4, le_journalEntryId = journalSeq s + 1,
                 le_accountId = a_id inventoryAccount, le_debit = Dec 0, le_credit = Dec c,
                 le_description = Some ''Inventory reduction'', le_createdAt = now\<rparr>]\<rparr>))"
    unfolding Let_def
    by (rule recordSale_posts) (use pre in blast)+
qed

text \<open>
  The sale 42 of 116.00 with a cost of 70.00, paid in cash, on the example chart with the
  constraints in force; and the same sale on a store without accounts.
\<close>

theorem recordSale_posts_four_lines_witness:
  "fst (recordSale 7 (sale ''116.00'' ''70.00'') (exampleStore True))
     = Inr \<lparr>je_id = 1, je_entryNumber = ''JE-0001'', je_entryDate = 7,
            je_description = ''Sale #42 - cash'', je_referenceType = Some ''sale'',
            je_referenceId = Some 42, je_userId = 1, je_status = ''posted'', je_notes = None,
            je_createdAt = 7, je_updatedAt = 7\<rparr>
   \<and> map (\<lambda>l. (le_accountId l, le_debit l, le_credit l))
         (ledgerEntries (snd (recordSale 7 (sale ''116.00'' ''70.00'') (exampleStore True))))
     = [(1, Dec 116, Dec 0), (3, Dec 0, Dec 116), (4, Dec 70, Dec 0), (2, Dec 0, Dec 70)]
   \<and> length (journalEntries (snd (recordSale 7 (sale ''116.00'' ''70.00'') (exampleStore True)))) = 1
   \<and> recordSale 7 (sale ''116.00'' ''70.00'') ((exampleStore True)\<lparr>accounts := []\<rparr>)
     = (Inl RequiredAccountsNotFound, (exampleStore True)\<lparr>accounts := []\<rparr>)"
proof -
  let ?s = "exampleStore True" and ?d = "sale ''116.00'' ''70.00''"
  have a1: "getAccountByCode ?s ''1000'' = Some (account 1 ''1000'' ''debit'' True)" by code_simp
  have a2: "getAccountByCode ?s ''4000'' = Some (account 3 ''4000'' ''credit'' True)" by code_simp
  have a3: "getAccountByCode ?s ''5000'' = Some (account 4 ''5000'' ''debit'' True)" by code_simp
  have a4: "getAccountByCode ?s ''1200'' = Some (account 2 ''1200'' ''debit'' True)" by code_simp
  have t: "toDecimal (sd_total ?d) = Inr (Dec 116)" by code_simp
  have c: "toDecimal (sd_costOfGoodsSold ?d) = Inr (Dec 70)" by code_simp
  have e: "journalEntries ?s = []" "ledgerEntries ?s = []" "users ?s = [1]" "sd_userId ?d = 1"
    "journalSeq ?s = 0" "ledgerSeq ?s = 0"
    by (simp_all add: exampleStore_def sale_def)
  have n: "generateEntryNumber ?s = ''JE-0001''" by (simp add: generateEntryNumber_def e)
  have ids: "a_id (account 1 ''1000'' ''debit'' True) = 1" "a_id (account 3 ''4000'' ''credit'' True) = 3"
    "a_id (account 4 ''5000'' ''debit'' True) = 4" "a_id (account 2 ''1200'' ''debit'' True) = 2"
    "sd_saleId ?d = 42"
    by (simp_all add: account_def sale_def)
  have none: "getAccountByCode (?s\<lparr>accounts := []\<rparr>) ''1000'' = None"
    by (simp add: getAccountByCode_def)
  from recordSale_posts_four_lines[where s = ?s and saleData = ?d and now = 7
      and cashAccount = "account 1 ''1000'' ''debit'' True"
      and salesRevenueAccount = "account 3 ''4000'' ''credit'' True"
      and cogsAccount = "account 4 ''5000'' ''debit'' True"
      and inventoryAccount = "account 2 ''1200'' ''debit'' True"
      and t = 116 and c = 70] a1 a2 a3 a4 t c e n
  have r: "recordSale 7 ?d ?s =
      (Inr \<lparr>je_id = 1, je_entryNumber = ''JE-0001'', je_entryDate = 7,
            je_description = ''Sale #'' @ showInt (sd_saleId ?d) @ '' - '' @ sd_paymentMethod ?d,
            je_referenceType = Some ''sale'',
            je_referenceId = Some (sd_saleId ?d), je_userId = 1, je_status = ''posted'', je_notes = None,
            je_createdAt = 7, je_updatedAt = 7\<rparr>,
       ?s\<lparr>journalSeq := 1, journalEntries := [\<lparr>je_id = 1, je_entryNumber = ''JE-0001'', je_entryDate = 7,
            je_description = ''Sale #'' @ showInt (sd_saleId ?d) @ '' - '' @ sd_paymentMethod ?d,
            je_referenceType = Some ''sale'',
            je_referenceId = Some (sd_saleId ?d), je_userId = 1, je_status = ''posted'', je_notes = None,
            je_createdAt = 7, je_updatedAt = 7\<rparr>],
          ledgerSeq := 4,
          ledgerEntries :=
               [\<lparr>le_id = 1, le_journalEntryId = 1,
                 le_accountId = a_id (account 1 ''1000'' ''debit'' True), le_debit = Dec 116, le_credit = Dec 0,
                 le_description = Some ''Cash received from sale'', le_createdAt = 7\<rparr>,
                \<lparr>le_id = 2, le_journalEntryId = 1,
                 le_accountId = a_id (account 3 ''4000'' ''credit'' True), le_debit = Dec 0, le_credit = Dec 116,
                 le_description = Some ''Revenue from sale'', le_createdAt = 7\<rparr>,
                \<lparr>le_id = 3, le_journalEntryId = 1,
                 le_accountId = a_id (account 4 ''5000'' ''debit'' True), le_debit = Dec 70, le_credit = Dec 0,
                 le_description = Some ''Cost of goods sold'', le_createdAt = 7\<rparr>,
                \<lparr>le_id = 4, le_journalEntryId = 1,
                 le_accountId = a_id (account 2 ''1200'' ''debit'' True), le_debit = Dec 0, le_credit = Dec 70,
                 le_description = Some ''Inventory reduction'', le_createdAt = 7\<rparr>]\<rparr>)"
    by (simp add: Let_def)
  from recordSale_posts_four_lines[where s = "?s\<lparr>accounts := []\<rparr>" and saleData = ?d and now = 7] none
  have m: "recordSale 7 ?d (?s\<lparr>accounts := []\<rparr>) = (Inl RequiredAccountsNotFound, ?s\<lparr>accounts := []\<rparr>)"
    by blast
  have sh: "showInt 42 = ''42''" by code_simp
  have pm: "sd_paymentMethod ?d = ''cash''" by (simp add: sale_def)
  show ?thesis
    unfolding r m by (simp add: ids sh pm)
qed

subsection \<open>Entry numbers\<close>

text \<open>
  Claim C6. On an empty journal a successful post receives the number \<^verbatim>\<open>JE-0001\<close>. After
  any sequence of requests that started from an empty journal, the journal entries carry,
  in the order of their creation, the numbers \<^verbatim>\<open>JE-\<close> followed by 1, 2, ..., \<open>n\<close> padded with
  zeros to four digits: their numeric parts are strictly increasing and no number occurs
  twice. The next successful post receives \<^verbatim>\<open>JE-\<close> followed by \<open>n + 1\<close>, the highest numeric
  part plus one, and is added at the end. (A post that fails at one of its lines leaves
  its header in the journal: that header has used its number.)
\<close>

theorem entry_numbers_are_sequential:
  "journalEntries s0 = [] \<Longrightarrow>
     (\<forall>now input e s'. createJournalEntry now input s0 = (Inr e, s') \<longrightarrow>
        je_entryNumber e = ''JE-0001'')
   \<and> map je_entryNumber (journalEntries (run reqs s0))
       = map (\<lambda>k. ''JE-'' @ padStart 4 CHR ''0'' (showInt (int k)))
           [1..<Suc (length (journalEntries (run reqs s0)))]
   \<and> map (\<lambda>e. lastNumberOf (je_entryNumber e)) (journalEntries (run reqs s0))
       = map (\<lambda>k. Some (int k)) [1..<Suc (length (journalEntries (run reqs s0)))]
   \<and> distinct (map je_entryNumber (journalEntries (run reqs s0)))
   \<and> (\<forall>now input e s'. createJournalEntry now input (run reqs s0) = (Inr e, s') \<longrightarrow>
        je_entryNumber e
          = ''JE-'' @ padStart 4 CHR ''0''
              (showInt (int (length (journalEntries (run reqs s0))) + 1))
        \<and> lastNumberOf (je_entryNumber e) = Some (int (length (journalEntries (run reqs s0))) + 1)
        \<and> journalEntries s' = journalEntries (run reqs s0) @ [e])"
proof -
  assume empty: "journalEntries s0 = []"
  let ?s = "run reqs s0"
  let ?n = "length (journalEntries ?s)"
  have inv: "numbered ?s" by (rule numbered_run[OF numbered_empty[OF empty]])
  have first: "je_entryNumber e = ''JE-0001''"
    if "createJournalEntry now input s0 = (Inr e, s')" for now input e s'
    using createJournalEntry_journal[OF that] empty by (auto simp: generateEntryNumber_def)
  have nums: "map je_entryNumber (journalEntries ?s)
       = map (\<lambda>k. ''JE-'' @ padStart 4 CHR ''0'' (showInt (int k))) [1..<Suc ?n]"
    using inv by (simp only: numbered_def)
  have "je_entryNumber e = ''JE-'' @ padStart 4 CHR ''0'' (showInt (int ?n + 1))
        \<and> lastNumberOf (je_entryNumber e) = Some (int ?n + 1)
        \<and> journalEntries s' = journalEntries ?s @ [e]"
    if c: "createJournalEntry now input ?s = (Inr e, s')" for now input e s'
  proof -
    from createJournalEntry_journal[OF c]
    have app: "journalEntries s' = journalEntries ?s @ [e]"
      and num: "je_entryNumber e = generateEntryNumber ?s"
      by auto
    have i: "int (Suc ?n) = int ?n + 1" by simp
    have g: "generateEntryNumber ?s = ''JE-'' @ padStart 4 CHR ''0'' (showInt (int ?n + 1))"
      using generateEntryNumber_numbered[OF inv] by (simp only: i)
    have "lastNumberOf (je_entryNumber e) = Some (int (Suc ?n))"
      using num generateEntryNumber_numbered[OF inv] by (simp only: lastNumberOf_entryNumber)
    with app num g show ?thesis by (simp only: i)
  qed
  with first nums numbered_parts[OF inv] numbered_distinct[OF inv] show ?thesis by blast
qed

text \<open>
  Five requests on \<open>exampleStore\<close>: a post, an unbalanced post, a sale, a void of the first
  entry, a post that fails at its second line. Three headers are in the journal, numbered
  1 to 3, and the next post receives \<^verbatim>\<open>JE-0004\<close>.
\<close>

theorem entry_numbers_are_sequential_witness:
  "journalEntries (exampleStore True) = []
   \<and> map je_entryNumber (journalEntries (run
        [Post 5 (manualEntry [line 1 ''10.00'' ''0.00'', line 3 ''0.00'' ''10.00'']),
         Post 6 (manualEntry [line 1 ''10.00'' ''0.00'', line 3 ''0.00'' ''5.00'']),
         Sale 7 (sale ''116.00'' ''70.00''),
         Void 1,
         Post 8 (manualEntry [line 1 ''5.00'' ''0.00'', line 99 ''0.00'' ''5.00''])]
        (exampleStore True)))
     = [''JE-0001'', ''JE-0002'', ''JE-0003'']
   \<and> map je_entryNumber (journalEntries (snd (createJournalEntry 9
        (manualEntry [line 1 ''10.00'' ''0.00'', line 3 ''0.00'' ''10.00''])
        (run
        [Post 5 (manualEntry [line 1 ''10.00'' ''0.00'', line 3 ''0.00'' ''10.00'']),
         Post 6 (manualEntry [line 1 ''10.00'' ''0.00'', line 3 ''0.00'' ''5.00'']),
         Sale 7 (sale ''116.00'' ''70.00''),
         Void 1,
         Post 8 (manualEntry [line 1 ''5.00'' ''0.00'', line 99 ''0.00'' ''5.00''])]
        (exampleStore True)))))
     = [''JE-0001'', ''JE-0002'', ''JE-0003'', ''JE-0004'']"
proof -
  let ?reqs = "[Post 5 (manualEntry [line 1 ''10.00'' ''0.00'', line 3 ''0.00'' ''10.00'']),
         Post 6 (manualEntry [line 1 ''10.00'' ''0.00'', line 3 ''0.00'' ''5.00'']),
         Sale 7 (sale ''116.00'' ''70.00''),
         Void 1,
         Post 8 (manualEntry [line 1 ''5.00'' ''0.00'', line 99 ''0.00'' ''5.00''])]"
  let ?s = "run ?reqs (exampleStore True)"
  let ?next = "createJournalEntry 9 (manualEntry [line 1 ''10.00'' ''0.00'', line 3 ''0.00'' ''10.00'']) ?s"
  have empty: "journalEntries (exampleStore True) = []" by (simp add: exampleStore_def)
  have ev: "(case ?next of (r, s') \<Rightarrow> (r, length (journalEntries s')))
              = (Inr (header 4 ''JE-0004'' 9 ''posted''), 4)"
    by code_simp
  then obtain s' where c: "?next = (Inr (header 4 ''JE-0004'' 9 ''posted''), s')"
    and l4: "length (journalEntries s') = 4"
    by (cases ?next) simp
  from entry_numbers_are_sequential[OF empty, of ?reqs] c
  have "journalEntries s' = journalEntries ?s @ [header 4 ''JE-0004'' 9 ''posted'']"
    by blast
  with l4 have len: "length (journalEntries ?s) = 3" by simp
  have f: "map (\<lambda>k. ''JE-'' @ padStart 4 CHR ''0'' (showInt (int k))) [1..<Suc 3]
             = [''JE-0001'', ''JE-0002'', ''JE-0003'']"
    by code_simp
  have h: "je_entryNumber (header 4 ''JE-0004'' 9 ''posted'') = ''JE-0004''" by (simp add: header_def)
  note t = entry_numbers_are_sequential[OF empty, of ?reqs]
  from t have a: "map je_entryNumber (journalEntries ?s) = [''JE-0001'', ''JE-0002'', ''JE-0003'']"
    by (simp only: len f)
  from t c have "journalEntries s' = journalEntries ?s @ [header 4 ''JE-0004'' 9 ''posted'']"
    by blast
  with a c h have b: "map je_entryNumber (journalEntries (snd ?next))
                       = [''JE-0001'', ''JE-0002'', ''JE-0003'', ''JE-0004'']"
    by simp
  from empty a b show ?thesis by blast
qed

subsection \<open>Seeding the chart of accounts\<close>

text \<open>
  Claim C8: a seed that writes nothing once an account exists. The guard of
  \<open>initializeChartOfAccounts\<close> counts the rows \<open>getAllAccounts\<close> returns, and those are the
  active accounts only. In \<open>dormantStore\<close> an account exists and is inactive: the seed
  inserts its 17 accounts. In \<open>deactivatedStore\<close> the chart exists and is inactive: the
  seed is refused at its first insert with a unique violation, where the claim has it
  return without a write. (The rest of the claim holds: see
  \<open>initializeChartOfAccounts_twice\<close> and \<open>initializeChartOfAccounts_distinct_codes\<close>.)
\<close>

theorem initializeChartOfAccounts_seeds_over_inactive_accounts:
  "getAllAccounts dormantStore = []
   \<and> length (accounts dormantStore) = 1
   \<and> fst (initializeChartOfAccounts 0 dormantStore) = Inr ()
   \<and> length (accounts (snd (initializeChartOfAccounts 0 dormantStore))) = 18
   \<and> length (accounts deactivatedStore) = 4
   \<and> initializeChartOfAccounts 0 deactivatedStore
       = (Inl (DbError (UniqueViolation ''accounts_code_unique'')),
          deactivatedStore\<lparr>accountsSeq := 5\<rparr>)"
  by (intro conjI; code_simp)

end
